(* ===== verification/Prelude.thy ===== *)
theory Prelude
  imports Complex_Main "HOL-Library.AList" "HOL-Library.Multiset"
    "HOL-Library.List_Lexorder" "HOL-Library.Char_ord"
    "HOL-Library.Product_Lexorder"
begin

text \<open>
  Shared vocabulary of the development: Python's exceptions as values, the built-ins the source
  uses on lists (\<open>min\<close>, \<open>max\<close> and \<open>sorted\<close> with a key, slices), dictionaries as
  insertion-ordered association lists or maps, the few string methods, and f-strings as lists of
  fragments. Tuples and strings are compared lexicographically, as in Python, through the library
  orders on pairs and lists.
\<close>

named_theorems py_defs \<open>unfolding rules of the Python built-ins\<close>
named_theorems inv_intros \<open>every operation keeps its component's invariant\<close>

subsection \<open>Exceptions\<close>

text \<open>
  An exception is its class and the value the source puts into its message; the message text is
  not modelled. \<open>ProviderFailure\<close> is any exception an adapter raises.
\<close>

datatype py_error =
    ValueError
  | TypeError
  | AttributeError
  | OverflowError
  | KeyError string
  | IndexError
  | ZeroDivisionError
  | RateLimitExceededError string
  | TenantRateLimitExceededError string
  | BudgetExceededError string
  | CircuitOpenError string
  | ErrorBudgetExceededError string
  | TenantBudgetExceededError string
  | TenantQuotaBurstExceededError string
  | StateTransitionError string string
  | IdempotencyKeyInUseError
  | VirtualKeyError
  | TenantConcurrencyExceededError string
  | StorageError
  | TimeoutError
  | ProviderFailure string
  | RoutingFailedError
  | CancelledError

type_synonym 'a result = "py_error + 'a"

fun bind_result :: "'a result \<Rightarrow> ('a \<Rightarrow> 'b result) \<Rightarrow> 'b result" where
  "bind_result (Inl e) f = Inl e"
| "bind_result (Inr x) f = f x"

lemma bind_result_Inr: "bind_result r f = Inr y \<longleftrightarrow> (\<exists>x. r = Inr x \<and> f x = Inr y)"
  by (cases r) auto

fun of_opt :: "py_error \<Rightarrow> 'a option \<Rightarrow> 'a result" where
  "of_opt e None = Inl e"
| "of_opt e (Some x) = Inr x"

lemma of_opt_Inr [simp]: "of_opt e r = Inr y \<longleftrightarrow> r = Some y"
  by (cases r) auto

lemma of_opt_Inl [simp]: "of_opt e r = Inl e' \<longleftrightarrow> r = None \<and> e' = e"
  by (cases r) auto

subsection \<open>min, max and sorted with a key\<close>

text \<open>
  Python's \<open>min\<close> and \<open>max\<close> return the first of several equal elements, and raise ValueError on
  an empty sequence (\<open>None\<close> here).
\<close>

fun min_by :: "('a \<Rightarrow> 'k::linorder) \<Rightarrow> 'a list \<Rightarrow> 'a option" where
  "min_by f [] = None"
| "min_by f (x # xs) = Some (fold (\<lambda>y m. if f y < f m then y else m) xs x)"

fun max_by :: "('a \<Rightarrow> 'k::linorder) \<Rightarrow> 'a list \<Rightarrow> 'a option" where
  "max_by f [] = None"
| "max_by f (x # xs) = Some (fold (\<lambda>y m. if f m < f y then y else m) xs x)"

lemma min_fold:
  fixes f :: "'a \<Rightarrow> 'k::linorder"
  defines "g \<equiv> (\<lambda>y m. if f y < f m then y else m)"
  shows "fold g xs x \<in> insert x (set xs) \<and> f (fold g xs x) \<le> f x \<and>
    (\<forall>y\<in>set xs. f (fold g xs x) \<le> f y)"
proof (induction xs arbitrary: x)
  case (Cons y ys)
  from Cons [of "g y x"] show ?case
    by (auto simp: g_def split: if_splits intro: order.trans order.strict_implies_order)
qed simp

lemma max_fold:
  fixes f :: "'a \<Rightarrow> 'k::linorder"
  defines "g \<equiv> (\<lambda>y m. if f m < f y then y else m)"
  shows "fold g xs x \<in> insert x (set xs) \<and> f x \<le> f (fold g xs x) \<and>
    (\<forall>y\<in>set xs. f y \<le> f (fold g xs x))"
proof (induction xs arbitrary: x)
  case (Cons y ys)
  from Cons [of "g y x"] show ?case
    by (auto simp: g_def split: if_splits intro: order.trans order.strict_implies_order)
qed simp

lemma min_by_in: "min_by f xs = Some m \<Longrightarrow> m \<in> set xs"
  using min_fold by (cases xs) fastforce+

lemma min_by_le: "min_by f xs = Some m \<Longrightarrow> x \<in> set xs \<Longrightarrow> f m \<le> f x"
  using min_fold by (cases xs) fastforce+

lemma max_by_in: "max_by f xs = Some m \<Longrightarrow> m \<in> set xs"
  using max_fold by (cases xs) fastforce+

lemma max_by_ge: "max_by f xs = Some m \<Longrightarrow> x \<in> set xs \<Longrightarrow> f x \<le> f m"
  using max_fold by (cases xs) fastforce+

lemma min_by_None [simp]: "min_by f xs = None \<longleftrightarrow> xs = []"
  by (cases xs) auto

lemma max_by_None [simp]: "max_by f xs = None \<longleftrightarrow> xs = []"
  by (cases xs) auto

text \<open>\<open>sorted(xs, key=f)\<close> is stable; with \<open>reverse=True\<close> it keeps the order of equal elements.\<close>

definition sorted_by :: "('a \<Rightarrow> 'k::linorder) \<Rightarrow> 'a list \<Rightarrow> 'a list" where
  "sorted_by f xs = sort_key f xs"

definition sorted_rev_by :: "('a \<Rightarrow> 'k::linorder) \<Rightarrow> 'a list \<Rightarrow> 'a list" where
  "sorted_rev_by f xs = rev (sort_key f (rev xs))"

lemma set_sorted_by [simp]: "set (sorted_by f xs) = set xs"
  by (simp add: sorted_by_def)

lemma set_sorted_rev_by [simp]: "set (sorted_rev_by f xs) = set xs"
  by (simp add: sorted_rev_by_def)

lemma mset_sorted_by [simp]: "mset (sorted_by f xs) = mset xs"
  by (simp add: sorted_by_def)

lemma mset_sorted_rev_by [simp]: "mset (sorted_rev_by f xs) = mset xs"
  by (simp add: sorted_rev_by_def)

lemma length_sorted_by [simp]: "length (sorted_by f xs) = length xs"
  by (simp add: sorted_by_def)

lemma sorted_by_Nil [simp]: "sorted_by f xs = [] \<longleftrightarrow> xs = []"
  by (metis length_sorted_by length_0_conv)

lemma distinct_sorted_by [simp]: "distinct (sorted_by f xs) = distinct xs"
  by (simp add: sorted_by_def)

lemma distinct_sorted_rev_by [simp]: "distinct (sorted_rev_by f xs) = distinct xs"
  by (simp add: sorted_rev_by_def)

lemma sorted_sorted_by [simp]: "sorted (map f (sorted_by f xs))"
  by (simp add: sorted_by_def)

lemma sorted_sorted_rev_by: "sorted_wrt (\<lambda>x y. f y \<le> f x) (sorted_rev_by f xs)"
proof -
  have "sorted (map f (sort_key f (rev xs)))" by simp
  then have "sorted_wrt (\<lambda>x y. f x \<le> f y) (sort_key f (rev xs))"
    by (simp add: sorted_map)
  then show ?thesis by (simp add: sorted_rev_by_def sorted_wrt_rev)
qed

lemma sorted_by_hd_le: "sorted_by f xs = y # ys \<Longrightarrow> x \<in> set xs \<Longrightarrow> f y \<le> f x"
  using sorted_sorted_by [of f xs] set_sorted_by [of f xs] by auto

end
