(* ===== verification/PyFloat.thy ===== *)
theory PyFloat
  imports Prelude "HOL-Library.Log_Nat"
begin

text \<open>
  Python's \<open>float\<close>: IEEE-754 binary64 with round-half-even, on exact rationals. A finite
  double is a \<open>rat\<close>; every arithmetic operation of the source is the exact operation followed
  by the rounding \<open>fl\<close> (53 significant bits, subnormals below \<open>2 powi -1022\<close>). The model covers
  finite values: infinities, NaN and the overflow threshold \<open>2 ^ 1024\<close> are outside it, and so is
  the sign of zero, which no comparison of the source observes. The order of the section is the
  exponent of a rational, rounding to an integer, rounding to a double, its laws (monotone, exact
  on the representable values, idempotent, relative error), and the operations the components use.
\<close>


subsection \<open>The rounding function\<close>

text \<open>The largest \<open>e\<close> with \<open>2 powi e \<le> x\<close>, for a positive \<open>x\<close>.\<close>

definition expo :: "rat \<Rightarrow> int" where
  "expo x = (let (p, q) = quotient_of x; e = bitlen p - bitlen q
             in if 2 powi e \<le> x then e else e - 1)"

text \<open>Round to the nearest integer, ties to even.\<close>

definition rne :: "rat \<Rightarrow> int" where
  "rne x = (let f = \<lfloor>x\<rfloor>; r = x - of_int f
            in if r < 1/2 then f else if r > 1/2 then f + 1
               else if even f then f else f + 1)"

text \<open>The exponent of the last place of the double nearest to \<open>x\<close>.\<close>

definition ulp_exp :: "rat \<Rightarrow> int" where
  "ulp_exp x = max (expo x) (- 1022) - 52"

definition fl_pos :: "rat \<Rightarrow> rat" where
  "fl_pos x = of_int (rne (x / 2 powi ulp_exp x)) * 2 powi ulp_exp x"

definition fl :: "rat \<Rightarrow> rat" where
  "fl x = (if x = 0 then 0 else if x < 0 then - fl_pos (- x) else fl_pos x)"

subsection \<open>Powers of two and the exponent\<close>

lemma pow2_add: "(2::rat) powi (a + b) = 2 powi a * 2 powi b"
  by (simp add: power_int_add)

lemma pow2_pos: "0 < (2::rat) powi e"
  by simp

lemma pow2_le: "a \<le> b \<Longrightarrow> (2::rat) powi a \<le> 2 powi b"
  by (rule power_int_increasing) auto

lemma pow2_nat: "0 \<le> e \<Longrightarrow> (2::rat) powi e = of_int (2 ^ nat e)"
  by (simp add: power_int_def)

lemma bitlen_rat_bounds:
  assumes "0 < p"
  shows "(2::rat) powi (bitlen p - 1) \<le> of_int p" "of_int p < (2::rat) powi bitlen p"
proof -
  have one: "1 \<le> bitlen p" using assms by (auto simp: bitlen_alt_def)
  have b: "2 ^ nat (bitlen p - 1) \<le> p" "p < 2 ^ nat (bitlen p)"
    using bitlen_bounds [OF assms] by auto
  show "(2::rat) powi (bitlen p - 1) \<le> of_int p"
    using one b(1) by (simp add: pow2_nat del: of_int_power)
  show "of_int p < (2::rat) powi bitlen p"
    using one b(2) by (simp add: pow2_nat del: of_int_power)
qed

lemma expo_bounds:
  assumes x: "0 < x"
  shows "2 powi expo x \<le> x" "x < 2 powi (expo x + 1)"
proof -
  obtain p q where pq: "quotient_of x = (p, q)" by (cases "quotient_of x")
  have q: "0 < q" using pq by (rule quotient_of_denom_pos)
  have xe: "x = of_int p / of_int q" using pq by (rule quotient_of_div)
  have p: "0 < p" using x q by (simp add: xe zero_less_divide_iff)
  let ?e = "bitlen p - bitlen q"
  have up: "x < 2 powi (?e + 1)"
  proof -
    have "x < 2 powi bitlen p / 2 powi (bitlen q - 1)"
      unfolding xe using bitlen_rat_bounds [OF p] bitlen_rat_bounds [OF q] q p
      by (intro frac_less) auto
    also have "\<dots> = 2 powi (?e + 1)" by (simp add: power_int_diff [symmetric] algebra_simps)
    finally show ?thesis .
  qed
  have lo: "2 powi (?e - 1) \<le> x"
  proof -
    have "2 powi (bitlen p - 1) / 2 powi bitlen q \<le> x"
      unfolding xe using bitlen_rat_bounds [OF p] bitlen_rat_bounds [OF q] q p
      by (intro frac_le) auto
    then show ?thesis by (simp add: power_int_diff [symmetric] algebra_simps)
  qed
  show "2 powi expo x \<le> x" "x < 2 powi (expo x + 1)"
    using up lo by (auto simp: expo_def pq Let_def)
qed

lemma expo_mono:
  assumes "0 < x" "x \<le> y" shows "expo x \<le> expo y"
proof (rule ccontr)
  assume "\<not> expo x \<le> expo y"
  then have "expo y + 1 \<le> expo x" by simp
  then have "(2::rat) powi (expo y + 1) \<le> 2 powi expo x" by (rule pow2_le)
  also have "\<dots> \<le> x" using assms by (simp add: expo_bounds)
  also have "\<dots> \<le> y" by fact
  also have "\<dots> < 2 powi (expo y + 1)" using assms by (simp add: expo_bounds)
  finally show False by simp
qed

subsection \<open>Rounding to an integer\<close>

lemma rne_of_int [simp]: "rne (of_int n) = n"
  by (simp add: rne_def Let_def)

lemma rne_near: "\<bar>of_int (rne x) - x\<bar> \<le> 1/2"
proof -
  have "of_int \<lfloor>x\<rfloor> \<le> x" "x < of_int \<lfloor>x\<rfloor> + 1" by linarith+
  then show ?thesis by (simp add: rne_def Let_def abs_le_iff)
qed

lemma rne_mono:
  assumes "x \<le> y" shows "rne x \<le> rne y"
proof (cases "\<lfloor>x\<rfloor> = \<lfloor>y\<rfloor>")
  case True
  then show ?thesis using assms by (auto simp: rne_def Let_def)
next
  case False
  then have "\<lfloor>x\<rfloor> + 1 \<le> \<lfloor>y\<rfloor>" using floor_mono [OF assms] by linarith
  moreover have "rne x \<le> \<lfloor>x\<rfloor> + 1" by (simp add: rne_def Let_def)
  moreover have "\<lfloor>y\<rfloor> \<le> rne y" by (simp add: rne_def Let_def)
  ultimately show ?thesis by linarith
qed

lemma rne_le: "x \<le> of_int n \<Longrightarrow> rne x \<le> n"
  using rne_mono [of x "of_int n"] by simp

lemma rne_ge: "of_int n \<le> x \<Longrightarrow> n \<le> rne x"
  using rne_mono [of "of_int n" x] by simp

subsection \<open>Rounding is monotone\<close>

lemma fl_pos_nonneg: "0 \<le> x \<Longrightarrow> 0 \<le> fl_pos x"
  using rne_ge [of 0 "x / 2 powi ulp_exp x"] by (simp add: fl_pos_def)

lemma fl_pos_le_pow2:
  assumes "0 < x" "x \<le> 2 powi (k + 1)" "max (expo x) (- 1022) \<le> k"
  shows "fl_pos x \<le> 2 powi (k + 1)"
proof -
  let ?u = "ulp_exp x"
  have d: "0 \<le> k + 1 - ?u" using assms(3) by (simp add: ulp_exp_def)
  have "x / 2 powi ?u \<le> 2 powi (k + 1) / 2 powi ?u"
    using assms(2) by (simp add: divide_right_mono)
  also have "\<dots> = of_int (2 ^ nat (k + 1 - ?u))"
    using d by (simp add: power_int_diff [symmetric] pow2_nat del: of_int_power)
  finally have "rne (x / 2 powi ?u) \<le> 2 ^ nat (k + 1 - ?u)" by (rule rne_le)
  then have "of_int (rne (x / 2 powi ?u)) \<le> (2::rat) powi (k + 1 - ?u)"
    using d by (simp add: pow2_nat del: of_int_power)
  then have "fl_pos x \<le> 2 powi (k + 1 - ?u) * 2 powi ?u"
    unfolding fl_pos_def by (intro mult_right_mono) auto
  then show ?thesis by (simp add: pow2_add [symmetric])
qed

lemma fl_pos_ge_pow2:
  assumes "0 < x" "- 1022 \<le> expo x"
  shows "2 powi expo x \<le> fl_pos x"
proof -
  let ?u = "ulp_exp x"
  have u: "?u = expo x - 52" using assms(2) by (simp add: ulp_exp_def)
  have "of_int (2 ^ 52) = (2::rat) powi expo x / 2 powi ?u"
    unfolding u by (simp add: power_int_diff)
  also have "\<dots> \<le> x / 2 powi ?u"
    using expo_bounds(1) [OF assms(1)] by (simp add: divide_right_mono)
  finally have "2 ^ 52 \<le> rne (x / 2 powi ?u)" by (rule rne_ge)
  then have "(2::rat) powi 52 \<le> of_int (rne (x / 2 powi ?u))"
    by (simp add: pow2_nat del: of_int_power)
  then have "2 powi 52 * 2 powi ?u \<le> fl_pos x"
    unfolding fl_pos_def by (intro mult_right_mono) auto
  then show ?thesis unfolding u by (simp only: pow2_add [symmetric]) simp
qed

lemma fl_pos_mono:
  assumes "0 < x" "x \<le> y" shows "fl_pos x \<le> fl_pos y"
proof (cases "ulp_exp x = ulp_exp y")
  case True
  have "x / 2 powi ulp_exp y \<le> y / 2 powi ulp_exp y"
    using assms by (simp add: divide_right_mono)
  then show ?thesis
    unfolding fl_pos_def True by (intro mult_right_mono) (auto simp: rne_mono)
next
  case False
  have le: "expo x \<le> expo y" using assms by (rule expo_mono)
  with False have y: "- 1022 \<le> expo y" and m: "max (expo x) (- 1022) \<le> expo y - 1"
    by (auto simp: ulp_exp_def max_def split: if_splits)
  have "x \<le> 2 powi (expo y - 1 + 1)"
  proof -
    have "x < 2 powi (expo x + 1)" using assms by (simp add: expo_bounds)
    also have "(2::rat) powi (expo x + 1) \<le> 2 powi (expo y - 1 + 1)" using m by (intro pow2_le) simp
    finally show ?thesis by simp
  qed
  then have "fl_pos x \<le> 2 powi (expo y - 1 + 1)" using assms(1) m by (intro fl_pos_le_pow2) auto
  also have "\<dots> \<le> fl_pos y" using fl_pos_ge_pow2 [of y] assms y by simp
  finally show ?thesis .
qed

lemma fl_0 [simp]: "fl 0 = 0"
  by (simp add: fl_def)

lemma fl_minus: "fl (- x) = - fl x"
  by (simp add: fl_def)

lemma fl_nonneg: "0 \<le> x \<Longrightarrow> 0 \<le> fl x"
  by (auto simp: fl_def fl_pos_nonneg)

lemma fl_nonpos: "x \<le> 0 \<Longrightarrow> fl x \<le> 0"
  using fl_nonneg [of "- x"] by (simp add: fl_minus)

lemma fl_mono:
  assumes "x \<le> y" shows "fl x \<le> fl y"
proof -
  consider "0 < x" | "y < 0" | "x \<le> 0" "0 \<le> y" by linarith
  then show ?thesis
  proof cases
    case 1
    with assms show ?thesis by (simp add: fl_def fl_pos_mono)
  next
    case 2
    with assms have "fl_pos (- y) \<le> fl_pos (- x)" by (intro fl_pos_mono) auto
    with 2 assms show ?thesis by (simp add: fl_def)
  next
    case 3
    then have "fl x \<le> 0" "0 \<le> fl y" by (simp_all add: fl_nonpos fl_nonneg)
    then show ?thesis by simp
  qed
qed

subsection \<open>Representable values are kept\<close>

lemma fl_pos_exact:
  assumes x: "0 < x" and m: "x = of_int m * 2 powi k" "m < 2 ^ 53" "- 1074 \<le> k"
  shows "fl_pos x = x"
proof -
  have mpos: "0 < m" using x m(1) pow2_pos [of k] by (auto simp: zero_less_mult_iff)
  have "(2::rat) powi expo x \<le> x" using x by (rule expo_bounds)
  also have "\<dots> < of_int (2 ^ 53) * 2 powi k"
    unfolding m(1) using m(2) by (intro mult_strict_right_mono) (simp_all del: of_int_power)
  also have "\<dots> = 2 powi (53 + k)" by (simp add: pow2_add)
  finally have "expo x < 53 + k"
    using pow2_le [of "53 + k" "expo x"] by linarith
  then have u: "0 \<le> k - ulp_exp x" using m(3) by (simp add: ulp_exp_def)
  have "x / 2 powi ulp_exp x = of_int m * 2 powi (k - ulp_exp x)"
    unfolding m(1) by (simp add: power_int_diff)
  also have "\<dots> = of_int (m * 2 ^ nat (k - ulp_exp x))"
    using u by (simp add: pow2_nat)
  finally have "rne (x / 2 powi ulp_exp x) = m * 2 ^ nat (k - ulp_exp x)"
    by (simp only: rne_of_int)
  then have "fl_pos x = of_int m * (2 powi (k - ulp_exp x) * 2 powi ulp_exp x)"
    using u by (simp add: fl_pos_def pow2_nat)
  also have "\<dots> = x" unfolding m(1) by (simp add: pow2_add [symmetric])
  finally show ?thesis .
qed

lemma fl_exact:
  assumes m: "x = of_int m * 2 powi k" "\<bar>m\<bar> < 2 ^ 53" "- 1074 \<le> k"
  shows "fl x = x"
proof (cases x "0::rat" rule: linorder_cases)
  case less
  then have "fl_pos (- x) = - x" using m by (intro fl_pos_exact [where m = "- m" and k = k]) auto
  with less show ?thesis by (simp add: fl_def)
next
  case greater
  then have "fl_pos x = x" using m by (intro fl_pos_exact [where m = m and k = k]) auto
  with greater show ?thesis by (simp add: fl_def)
qed simp

lemma fl_of_int: "\<bar>n\<bar> < 2 ^ 53 \<Longrightarrow> fl (of_int n) = of_int n"
  by (rule fl_exact [where m = n and k = 0]) auto

lemma fl_1 [simp]: "fl 1 = 1"
  using fl_of_int [of 1] by simp

lemma fl_numeral: "(numeral n :: int) < 2 ^ 53 \<Longrightarrow> fl (numeral n) = numeral n"
  using fl_of_int [of "numeral n"] by simp

subsection \<open>Rounding is idempotent\<close>

lemma fl_pos_idem:
  assumes "0 < x" shows "fl (fl_pos x) = fl_pos x"
proof -
  let ?u = "ulp_exp x"
  let ?m = "rne (x / 2 powi ?u)"
  have "x < 2 powi (expo x + 1)" using assms by (rule expo_bounds)
  also have "(2::rat) powi (expo x + 1) \<le> 2 powi (53 + ?u)" by (rule pow2_le) (simp add: ulp_exp_def)
  finally have "x / 2 powi ?u \<le> of_int (2 ^ 53)"
    by (simp add: pow2_add divide_le_eq)
  then have hi: "?m \<le> 2 ^ 53" by (rule rne_le)
  have lo: "0 \<le> ?m" using assms by (intro rne_ge) simp
  have u: "- 1074 \<le> ?u" by (simp add: ulp_exp_def)
  show ?thesis
  proof (cases "?m = 2 ^ 53")
    case True
    then have "fl_pos x = of_int 1 * 2 powi (53 + ?u)" by (simp add: fl_pos_def pow2_add)
    then show ?thesis using u by (intro fl_exact [where m = 1 and k = "53 + ?u"]) auto
  next
    case False
    then show ?thesis using hi lo u
      by (intro fl_exact [where m = ?m and k = ?u]) (auto simp: fl_pos_def)
  qed
qed

lemma fl_idem [simp]: "fl (fl x) = fl x"
  using fl_pos_idem [of x] fl_pos_idem [of "- x"] fl_minus [of "fl_pos (- x)"]
  by (cases x "0::rat" rule: linorder_cases) (simp_all add: fl_def [of x])

subsection \<open>Rounding error\<close>

lemma fl_pos_error:
  assumes "0 < x" shows "\<bar>fl_pos x - x\<bar> \<le> x / 2 ^ 53 + 2 powi (- 1075)"
proof -
  let ?u = "ulp_exp x"
  have "fl_pos x - x = (of_int (rne (x / 2 powi ?u)) - x / 2 powi ?u) * 2 powi ?u"
    by (simp add: fl_pos_def left_diff_distrib)
  then have "\<bar>fl_pos x - x\<bar> = \<bar>of_int (rne (x / 2 powi ?u)) - x / 2 powi ?u\<bar> * 2 powi ?u"
    by (simp add: abs_mult)
  also have "\<dots> \<le> 1/2 * 2 powi ?u" by (rule mult_right_mono [OF rne_near]) simp
  also have "\<dots> \<le> x / 2 ^ 53 + 2 powi (- 1075)"
  proof (cases "expo x \<le> - 1022")
    case True
    then have "?u = - 1074" by (simp add: ulp_exp_def)
    moreover have "(2::rat) powi (- 1 + - 1074) = 1/2 * 2 powi (- 1074)"
      by (simp only: pow2_add power_int_minus1_right inverse_eq_divide)
    ultimately have "1/2 * (2::rat) powi ?u = 2 powi (- 1075)" by simp
    then show ?thesis using assms by simp
  next
    case False
    then have "?u = expo x - 52" by (simp add: ulp_exp_def)
    then have "1/2 * (2::rat) powi ?u = 2 powi expo x / 2 ^ 53" by (simp add: power_int_diff)
    also have "\<dots> \<le> x / 2 ^ 53" using expo_bounds(1) [OF assms] by (simp add: divide_right_mono)
    finally show ?thesis by (simp add: add_increasing2)
  qed
  finally show ?thesis .
qed

lemma fl_error: "\<bar>fl x - x\<bar> \<le> \<bar>x\<bar> / 2 ^ 53 + 2 powi (- 1075)"
  using fl_pos_error [of x] fl_pos_error [of "- x"]
  by (cases x "0::rat" rule: linorder_cases) (simp_all add: fl_def abs_minus_commute)

subsection \<open>The operations of the source\<close>

text \<open>
  \<open>a + b\<close>, \<open>a - b\<close>, \<open>a * b\<close>, \<open>a / b\<close> on floats, the conversion of an int, and int / int,
  which Python rounds once. Division is only used where the source has excluded a zero divisor;
  \<open>fdiv a 0\<close> stands for no value of the program. \<open>fsum\<close> is the left-to-right sum of Python 3.11
  (the version the Dockerfile ships), which starts from the int 0.
\<close>

definition fadd :: "rat \<Rightarrow> rat \<Rightarrow> rat" where "fadd a b = fl (a + b)"
definition fsub :: "rat \<Rightarrow> rat \<Rightarrow> rat" where "fsub a b = fl (a - b)"
definition fmul :: "rat \<Rightarrow> rat \<Rightarrow> rat" where "fmul a b = fl (a * b)"
definition fdiv :: "rat \<Rightarrow> rat \<Rightarrow> rat" where "fdiv a b = fl (a / b)"
definition fint :: "int \<Rightarrow> rat" where "fint n = fl (of_int n)"
definition idiv :: "int \<Rightarrow> int \<Rightarrow> rat" where "idiv a b = fl (of_int a / of_int b)"
definition fsum :: "rat list \<Rightarrow> rat" where "fsum xs = foldl fadd 0 xs"

lemmas float_ops [py_defs] = fadd_def fsub_def fmul_def fdiv_def fint_def idiv_def

subsection \<open>A rounding function and what clients need of it\<close>

text \<open>
  The bounds that survive rounding follow from three laws only: monotone, and 0 and 1 kept. They
  are proved once from the laws and used for \<open>fl\<close> through the interpretation below.
\<close>

locale rounding =
  fixes rnd :: "rat \<Rightarrow> rat"
  assumes rnd_mono: "x \<le> y \<Longrightarrow> rnd x \<le> rnd y"
    and rnd_0: "rnd 0 = 0"
    and rnd_1: "rnd 1 = 1"
begin

lemma nonneg: "0 \<le> x \<Longrightarrow> 0 \<le> rnd x"
  using rnd_mono [of 0 x] by (simp add: rnd_0)

lemma le_one: "x \<le> 1 \<Longrightarrow> rnd x \<le> 1"
  using rnd_mono [of x 1] by (simp add: rnd_1)

lemma ge_one: "1 \<le> x \<Longrightarrow> 1 \<le> rnd x"
  using rnd_mono [of 1 x] by (simp add: rnd_1)

lemma ratio_le_one: "0 \<le> x \<Longrightarrow> x \<le> y \<Longrightarrow> rnd (x / y) \<le> 1"
  by (intro le_one) (simp add: divide_le_eq)

lemma ratio_nonneg: "0 \<le> x \<Longrightarrow> 0 \<le> y \<Longrightarrow> 0 \<le> rnd (x / y)"
  by (intro nonneg) simp

lemma mult_nonneg: "0 \<le> x \<Longrightarrow> 0 \<le> y \<Longrightarrow> 0 \<le> rnd (x * y)"
  by (intro nonneg) simp

lemma add_nonneg: "0 \<le> x \<Longrightarrow> 0 \<le> y \<Longrightarrow> 0 \<le> rnd (x + y)"
  by (intro nonneg) simp

lemma diff_nonneg: "y \<le> x \<Longrightarrow> 0 \<le> rnd (x - y)"
  by (intro nonneg) simp

lemma capped: "rnd cap = cap \<Longrightarrow> x \<le> cap \<Longrightarrow> rnd x \<le> cap"
  using rnd_mono [of x cap] by simp

end

interpretation dbl: rounding fl
  by unfold_locales (auto simp: fl_mono)

lemma fsum_nonneg: "(\<And>x. x \<in> set xs \<Longrightarrow> 0 \<le> x) \<Longrightarrow> 0 \<le> fsum xs"
proof -
  have "(\<And>x. x \<in> set xs \<Longrightarrow> 0 \<le> x) \<Longrightarrow> 0 \<le> a \<Longrightarrow> 0 \<le> foldl fadd a xs" for a
    by (induction xs arbitrary: a) (auto simp: fadd_def dbl.add_nonneg)
  then show "(\<And>x. x \<in> set xs \<Longrightarrow> 0 \<le> x) \<Longrightarrow> 0 \<le> fsum xs" by (simp add: fsum_def)
qed

end
