(* ===== verification/PyStr.thy ===== *)
theory PyStr
  imports Prelude "HOL-Library.Word"
begin

unbundle bit_operations_syntax

text \<open>
  The string methods of Python the source calls, on strings whose code points are below 256 (an
  element of \<open>string\<close> is one code point), f-strings as fragments, and SHA-256 of the
  UTF-8 encoding, which the strategies use as a stable hash of an id.
\<close>

subsection \<open>Methods\<close>

definition is_space :: "char \<Rightarrow> bool" where
  "is_space c = (let n = of_char c :: nat in 9 \<le> n \<and> n \<le> 13 \<or> 28 \<le> n \<and> n \<le> 32 \<or> n = 133 \<or> n = 160)"

definition lower_char :: "char \<Rightarrow> char" where
  "lower_char c = (let n = of_char c :: nat in
     if 65 \<le> n \<and> n \<le> 90 \<or> 192 \<le> n \<and> n \<le> 222 \<and> n \<noteq> 215 then char_of (n + 32) else c)"

definition lower :: "string \<Rightarrow> string" where
  "lower s = map lower_char s"

definition strip :: "string \<Rightarrow> string" where
  "strip s = rev (dropWhile is_space (rev (dropWhile is_space s)))"

text \<open>\<open>needle in s\<close>\<close>

fun contains :: "string \<Rightarrow> string \<Rightarrow> bool" where
  "contains needle [] = (needle = [])"
| "contains needle (c # cs) = (take (length needle) (c # cs) = needle \<or> contains needle cs)"

text \<open>\<open>s.split(sep)\<close> for a one-character separator\<close>

fun split_on :: "char \<Rightarrow> string \<Rightarrow> string list" where
  "split_on sep [] = [[]]"
| "split_on sep (c # cs) =
     (if c = sep then [] # split_on sep cs
      else (case split_on sep cs of [] \<Rightarrow> [[c]] | w # ws \<Rightarrow> (c # w) # ws))"

lemma lower_lower_char: "lower_char (lower_char c) = lower_char c"
proof -
  have "(of_char c :: nat) < 256" by simp
  then show ?thesis by (auto simp: lower_char_def Let_def)
qed

lemma lower_idem [simp]: "lower (lower s) = lower s"
  by (simp add: lower_def lower_lower_char)

lemma dropWhile_eq_self: "(s = [] \<or> \<not> P (hd s)) \<Longrightarrow> dropWhile P s = s"
  by (cases s) auto

lemma strip_idem [simp]: "strip (strip s) = strip s"
proof -
  let ?t = "dropWhile is_space s"
  let ?u = "rev (dropWhile is_space (rev ?t))"
  have "?u = [] \<or> \<not> is_space (hd ?u)"
  proof (cases "?u = []")
    case False
    obtain w where w: "?t = ?u @ w"
      using takeWhile_dropWhile_id [of is_space "rev ?t"] by (metis rev_append rev_rev_ident)
    have t: "?t \<noteq> []" using w False by (metis Nil_is_append_conv)
    have "hd ?t = hd ?u" using w False by (metis hd_append2)
    with hd_dropWhile [OF t] show ?thesis by simp
  qed simp
  then have "dropWhile is_space ?u = ?u" by (rule dropWhile_eq_self)
  then show ?thesis by (simp add: strip_def)
qed

lemma split_on_nonempty [simp]: "split_on sep s \<noteq> []"
  by (induction s) (auto split: list.splits)

subsection \<open>f-strings\<close>

text \<open>
  A formatted string is the list of its pieces: literal text, an interpolated string, an
  interpolated int, a float with the number of decimals of its format spec (\<open>Fixed\<close>), a
  percentage (\<open>Percent\<close>), a float in its default format, or a list of strings as \<open>str()\<close> shows it.
\<close>

datatype frag = Lit string | Str string | IntF int | Fixed nat rat | Percent nat rat | FloatF rat | Names "string list"

type_synonym fstring = "frag list"

subsection \<open>SHA-256\<close>

text \<open>The hashlib function, on a list of bytes (\<open>nat\<close> below 256).\<close>

text \<open>The round constants and the initial state, packed into one number each.\<close>

definition unpack_words :: "nat \<Rightarrow> int \<Rightarrow> 32 word list" where
  "unpack_words n packed = map (\<lambda>i. word_of_int (packed div 2 ^ (32 * (n - 1 - i)))) [0..<n]"

definition sha_k :: "32 word list" where
  "sha_k = unpack_words 64 0x428a2f9871374491b5c0fbcfe9b5dba53956c25b59f111f1923f82a4ab1c5ed5d807aa9812835b01243185be550c7dc372be5d7480deb1fe9bdc06a7c19bf174e49b69c1efbe47860fc19dc6240ca1cc2de92c6f4a7484aa5cb0a9dc76f988da983e5152a831c66db00327c8bf597fc7c6e00bf3d5a7914706ca63511429296727b70a852e1b21384d2c6dfc53380d13650a7354766a0abb81c2c92e92722c85a2bfe8a1a81a664bc24b8b70c76c51a3d192e819d6990624f40e3585106aa07019a4c1161e376c082748774c34b0bcb5391c0cb34ed8aa4a5b9cca4f682e6ff3748f82ee78a5636f84c878148cc7020890befffaa4506cebbef9a3f7c67178f2"

definition sha_init :: "32 word list" where
  "sha_init = unpack_words 8 0x6a09e667bb67ae853c6ef372a54ff53a510e527f9b05688c1f83d9ab5be0cd19"

definition rotr :: "nat \<Rightarrow> 32 word \<Rightarrow> 32 word" where
  "rotr n x = drop_bit n x OR push_bit (32 - n) x"

definition be_word :: "nat list \<Rightarrow> 32 word" where
  "be_word bs = foldl (\<lambda>w b. push_bit 8 w OR of_nat b) 0 bs"

fun chunks :: "nat \<Rightarrow> nat \<Rightarrow> 'a list \<Rightarrow> 'a list list" where
  "chunks 0 n xs = []"
| "chunks (Suc k) n xs = take n xs # chunks k n (drop n xs)"

definition sha_pad :: "nat list \<Rightarrow> nat list" where
  "sha_pad bs = (let l = length bs; z = (119 - l mod 64) mod 64 in
     bs @ [128] @ replicate z 0 @ map (\<lambda>i. (8 * l) div 256 ^ (7 - i) mod 256) [0..<8])"

fun sha_schedule :: "nat \<Rightarrow> 32 word list \<Rightarrow> 32 word list" where
  "sha_schedule 0 w = w"
| "sha_schedule (Suc k) w = (let t = length w;
     x = w ! (t - 15); y = w ! (t - 2);
     s0 = rotr 7 x XOR rotr 18 x XOR drop_bit 3 x;
     s1 = rotr 17 y XOR rotr 19 y XOR drop_bit 10 y
     in sha_schedule k (w @ [w ! (t - 16) + s0 + w ! (t - 7) + s1]))"

fun sha_round :: "32 word list \<Rightarrow> 32 word \<times> 32 word \<Rightarrow> 32 word list" where
  "sha_round [a, b, c, d, e, f, g, h] (k, w) =
     (let s1 = rotr 6 e XOR rotr 11 e XOR rotr 25 e;
          ch = (e AND f) XOR (NOT e AND g);
          t1 = h + s1 + ch + k + w;
          s0 = rotr 2 a XOR rotr 13 a XOR rotr 22 a;
          maj = (a AND b) XOR (a AND c) XOR (b AND c);
          t2 = s0 + maj
      in [t1 + t2, a, b, c, d + t1, e, f, g])"
| "sha_round st _ = st"

definition sha_block :: "32 word list \<Rightarrow> nat list \<Rightarrow> 32 word list" where
  "sha_block st bs = map2 (+) st
     (foldl sha_round st (zip sha_k (sha_schedule 48 (map be_word (chunks 16 4 bs)))))"

definition sha256 :: "nat list \<Rightarrow> 32 word list" where
  "sha256 bs = (let p = sha_pad bs in foldl sha_block sha_init (chunks (length p div 64) 64 p))"

definition utf8 :: "string \<Rightarrow> nat list" where
  "utf8 s = concat (map (\<lambda>c. let n = of_char c :: nat in
     if n < 128 then [n] else [192 + n div 64, 128 + n mod 64]) s)"

text \<open>\<open>int(sha256(s.encode("utf-8")).hexdigest()[:8], 16)\<close>: the first 32 bits of the digest.\<close>

definition hash32 :: "string \<Rightarrow> int" where
  "hash32 s = uint (hd (sha256 (utf8 s)))"

lemma hash32_bounds: "0 \<le> hash32 s" "hash32 s < 2 ^ 32"
  using uint_lt2p [of "hd (sha256 (utf8 s))"] by (auto simp: hash32_def)

end
