(* ===== verification/Schemas.thy ===== *)
theory Schemas
  imports PyFloat PyStr
begin

text \<open>
  The data of \<open>src/router/schemas.py\<close>: requests, task signals, model candidates with their
  pricing, decisions and responses, and the built-in catalog of \<open>src/router/config.py\<close>. A pydantic
  model is a record; its field constraints are the predicates \<open>wf_*\<close>. String enums are their
  values, the two enums the routing code matches on are datatypes.
\<close>

subsection \<open>Enums and metadata values\<close>

datatype domain_tag = Code | Medical | Legal | General

datatype latency_requirement = Realtime | Batch

datatype finish_reason = Stop | Length

type_synonym strategy_name = string

text \<open>
  A value of \<open>metadata: dict[str, Any]\<close>. A float, a container and any other object carry the text
  that \<open>str()\<close> renders for them. JSON also admits the float infinities (\<open>VInf True\<close> is the negative
  one) and NaN. Any other object is one that has no number protocol.
\<close>

datatype py_val =
    VNone
  | VBool bool
  | VInt int
  | VFloat rat string
  | VInf bool
  | VNan
  | VStr string
  | VList "py_val list" string
  | VDict "(string \<times> py_val) list" string
  | VOther string

fun digits :: "nat \<Rightarrow> string" where
  "digits n = (if n < 10 then [char_of (48 + n)] else digits (n div 10) @ [char_of (48 + n mod 10)])"

declare digits.simps [simp del]

definition str_int :: "int \<Rightarrow> string" where
  "str_int n = (if n < 0 then CHR ''-'' # digits (nat (- n)) else digits (nat n))"

fun py_str :: "py_val \<Rightarrow> string" where
  "py_str VNone = ''None''"
| "py_str (VBool b) = (if b then ''True'' else ''False'')"
| "py_str (VInt n) = str_int n"
| "py_str (VFloat x s) = s"
| "py_str (VInf negative) = (if negative then ''-inf'' else ''inf'')"
| "py_str VNan = ''nan''"
| "py_str (VStr s) = s"
| "py_str (VList xs s) = s"
| "py_str (VDict kvs s) = s"
| "py_str (VOther s) = s"

subsection \<open>Records\<close>

record chat_message =
  cm_role :: string
  cm_content :: string

record router_request =
  rq_request_id :: string
  rq_messages :: "chat_message list"
  rq_api_key_id :: string
  rq_user_id :: string
  rq_session_id :: string
  rq_requested_model :: "string option"
  rq_strategy :: "strategy_name option"
  rq_token_budget :: int
  rq_region :: "string option"
  rq_max_tokens :: int
  rq_stream :: bool
  rq_metadata :: "(string \<times> py_val) list"

fun join :: "string \<Rightarrow> string list \<Rightarrow> string" where
  "join sep [] = []"
| "join sep [x] = x"
| "join sep (x # xs) = x @ sep @ join sep xs"

definition prompt_text :: "router_request \<Rightarrow> string" where
  "prompt_text r = join [char_of (10 :: nat)] (map cm_content (rq_messages r))"

record task_signals =
  ts_complexity_score :: rat
  ts_domain_tag :: domain_tag
  ts_latency_requirement :: latency_requirement
  ts_token_budget :: int
  ts_prompt_tokens_estimate :: int

record long_prompt_pricing =
  lp_threshold_tokens :: int
  lp_input_cost_per_1k :: rat
  lp_output_cost_per_1k :: rat

definition rates_for :: "long_prompt_pricing \<Rightarrow> int \<Rightarrow> rat \<times> rat \<Rightarrow> rat \<times> rat" where
  "rates_for lp input_tokens base_rates =
     (if lp_threshold_tokens lp < input_tokens
      then (lp_input_cost_per_1k lp, lp_output_cost_per_1k lp) else base_rates)"

record model_candidate =
  mc_model :: string
  mc_provider :: string
  mc_quality_score :: rat
  mc_input_cost_per_1k :: rat
  mc_output_cost_per_1k :: rat
  mc_supports_domains :: "domain_tag set"
  mc_supports_realtime :: bool
  mc_context_window :: int
  mc_max_input_tokens :: "int option"
  mc_long_prompt_pricing :: "long_prompt_pricing option"
  mc_supported_regions :: "string set"

definition input_token_limit :: "model_candidate \<Rightarrow> int" where
  "input_token_limit c = (case mc_max_input_tokens c of
      None \<Rightarrow> mc_context_window c
    | Some m \<Rightarrow> min (mc_context_window c) m)"

definition estimate_cost :: "model_candidate \<Rightarrow> int \<Rightarrow> int \<Rightarrow> rat" where
  "estimate_cost c input_tokens output_tokens =
     (let base = (mc_input_cost_per_1k c, mc_output_cost_per_1k c);
          (input_rate, output_rate) =
            (case mc_long_prompt_pricing c of
               None \<Rightarrow> base
             | Some lp \<Rightarrow> rates_for lp input_tokens base);
          input_cost = fmul (fdiv (fint input_tokens) 1000) input_rate;
          output_cost = fmul (fdiv (fint output_tokens) 1000) output_rate
      in fadd input_cost output_cost)"

record routing_decision =
  rd_chosen_model :: string
  rd_provider :: string
  rd_routing_strategy :: strategy_name
  rd_rationale :: fstring
  rd_fallback_chain :: "string list"

record provider_response =
  pr_content :: string
  pr_model :: string
  pr_input_tokens :: int
  pr_output_tokens :: int
  pr_cost_usd :: rat
  pr_finish_reason :: finish_reason

record router_response =
  rr_content :: string
  rr_model_used :: string
  rr_routing_strategy :: strategy_name
  rr_latency_ms :: rat
  rr_input_tokens :: int
  rr_output_tokens :: int
  rr_cost_usd :: rat
  rr_rationale :: fstring
  rr_request_id :: string
  rr_finish_reason :: finish_reason

record audit_record =
  ar_request_id :: string
  ar_chosen_model :: string
  ar_provider :: string
  ar_routing_strategy :: strategy_name
  ar_rationale :: fstring
  ar_latency_ms :: rat
  ar_token_cost :: rat
  ar_input_tokens :: int
  ar_output_tokens :: int
  ar_state :: string

text \<open>\<open>request.metadata.get(key)\<close>, with a missing key and an explicit None alike\<close>

definition metadata_get :: "router_request \<Rightarrow> string \<Rightarrow> py_val" where
  "metadata_get r key = (case map_of (rq_metadata r) key of None \<Rightarrow> VNone | Some v \<Rightarrow> v)"

subsection \<open>Field constraints\<close>

definition wf_pricing :: "long_prompt_pricing \<Rightarrow> bool" where
  "wf_pricing lp \<longleftrightarrow> 1 \<le> lp_threshold_tokens lp \<and> 0 \<le> lp_input_cost_per_1k lp \<and>
     0 \<le> lp_output_cost_per_1k lp"

definition wf_candidate :: "model_candidate \<Rightarrow> bool" where
  "wf_candidate c \<longleftrightarrow> 0 \<le> mc_quality_score c \<and> mc_quality_score c \<le> 1 \<and>
     0 \<le> mc_input_cost_per_1k c \<and> 0 \<le> mc_output_cost_per_1k c \<and>
     1 \<le> mc_context_window c \<and>
     (case mc_max_input_tokens c of None \<Rightarrow> True | Some m \<Rightarrow> 1 \<le> m) \<and>
     (case mc_long_prompt_pricing c of None \<Rightarrow> True | Some lp \<Rightarrow> wf_pricing lp)"

text \<open>The long-prompt rates are a surcharge: never below the base rates.\<close>

definition surcharge :: "model_candidate \<Rightarrow> bool" where
  "surcharge c \<longleftrightarrow> (case mc_long_prompt_pricing c of None \<Rightarrow> True
     | Some lp \<Rightarrow> mc_input_cost_per_1k c \<le> lp_input_cost_per_1k lp \<and>
                 mc_output_cost_per_1k c \<le> lp_output_cost_per_1k lp)"

subsection \<open>The built-in catalog\<close>

text \<open>\<open>src/router/model_ids.py\<close>\<close>

definition OPENAI_FRONTIER_MODEL :: string where "OPENAI_FRONTIER_MODEL = ''gpt-6-astra''"
definition OPENAI_BALANCED_MODEL :: string where "OPENAI_BALANCED_MODEL = ''gpt-6-luna''"
definition ANTHROPIC_SAFETY_MODEL :: string where "ANTHROPIC_SAFETY_MODEL = ''claude-opus-5-5''"
definition ANTHROPIC_FAST_MODEL :: string where "ANTHROPIC_FAST_MODEL = ''claude-haiku-5-5''"
definition GEMINI_PRO_MODEL :: string where "GEMINI_PRO_MODEL = ''gemini-4-argon''"
definition GEMINI_FLASH_MODEL :: string where "GEMINI_FLASH_MODEL = ''gemini-3.8-flash''"
definition MOONSHOT_BALANCED_MODEL :: string where "MOONSHOT_BALANCED_MODEL = ''kimi-k3.1-pro''"

lemmas model_id_defs = OPENAI_FRONTIER_MODEL_def OPENAI_BALANCED_MODEL_def
  ANTHROPIC_SAFETY_MODEL_def ANTHROPIC_FAST_MODEL_def GEMINI_PRO_MODEL_def
  GEMINI_FLASH_MODEL_def MOONSHOT_BALANCED_MODEL_def

definition GPT6_MAX_INPUT_TOKENS :: int where "GPT6_MAX_INPUT_TOKENS = 922000"
definition GPT6_LONG_PROMPT_THRESHOLD_TOKENS :: int where
  "GPT6_LONG_PROMPT_THRESHOLD_TOKENS = 272000"
definition HAIKU_5_5_LONG_PROMPT_THRESHOLD_TOKENS :: int where
  "HAIKU_5_5_LONG_PROMPT_THRESHOLD_TOKENS = 100000"

text \<open>A catalog is a dict from model name to candidate, in insertion order.\<close>

type_synonym catalog = "(string \<times> model_candidate) list"

definition default_model_catalog :: catalog where
  "default_model_catalog = [
    (OPENAI_FRONTIER_MODEL, \<lparr> mc_model = OPENAI_FRONTIER_MODEL, mc_provider = ''openai'',
      mc_quality_score = fl (97/100), mc_input_cost_per_1k = fl (1/100),
      mc_output_cost_per_1k = fl (5/100), mc_supports_domains = {Code, Legal, General},
      mc_supports_realtime = True, mc_context_window = 1050000,
      mc_max_input_tokens = Some GPT6_MAX_INPUT_TOKENS,
      mc_long_prompt_pricing = Some \<lparr> lp_threshold_tokens = GPT6_LONG_PROMPT_THRESHOLD_TOKENS,
        lp_input_cost_per_1k = fl (2/100), lp_output_cost_per_1k = fl (75/1000) \<rparr>,
      mc_supported_regions = {''us'', ''global''} \<rparr>),
    (OPENAI_BALANCED_MODEL, \<lparr> mc_model = OPENAI_BALANCED_MODEL, mc_provider = ''openai'',
      mc_quality_score = fl (84/100), mc_input_cost_per_1k = fl (1/10000),
      mc_output_cost_per_1k = fl (5/10000), mc_supports_domains = {Code, General},
      mc_supports_realtime = True, mc_context_window = 1050000,
      mc_max_input_tokens = Some GPT6_MAX_INPUT_TOKENS,
      mc_long_prompt_pricing = Some \<lparr> lp_threshold_tokens = GPT6_LONG_PROMPT_THRESHOLD_TOKENS,
        lp_input_cost_per_1k = fl (2/10000), lp_output_cost_per_1k = fl (75/100000) \<rparr>,
      mc_supported_regions = {''us'', ''global''} \<rparr>),
    (ANTHROPIC_SAFETY_MODEL, \<lparr> mc_model = ANTHROPIC_SAFETY_MODEL, mc_provider = ''anthropic'',
      mc_quality_score = fl (98/100), mc_input_cost_per_1k = fl (4/1000),
      mc_output_cost_per_1k = fl (20/1000), mc_supports_domains = {Code, Medical, Legal, General},
      mc_supports_realtime = True, mc_context_window = 1000000,
      mc_max_input_tokens = None, mc_long_prompt_pricing = None,
      mc_supported_regions = {''us'', ''eu'', ''global''} \<rparr>),
    (ANTHROPIC_FAST_MODEL, \<lparr> mc_model = ANTHROPIC_FAST_MODEL, mc_provider = ''anthropic'',
      mc_quality_score = fl (82/100), mc_input_cost_per_1k = fl (1/10000),
      mc_output_cost_per_1k = fl (5/10000), mc_supports_domains = {General, Legal},
      mc_supports_realtime = True, mc_context_window = 1000000,
      mc_max_input_tokens = None,
      mc_long_prompt_pricing = Some \<lparr> lp_threshold_tokens = HAIKU_5_5_LONG_PROMPT_THRESHOLD_TOKENS,
        lp_input_cost_per_1k = fl (5/10000), lp_output_cost_per_1k = fl (25/10000) \<rparr>,
      mc_supported_regions = {''us'', ''eu'', ''global''} \<rparr>),
    (GEMINI_PRO_MODEL, \<lparr> mc_model = GEMINI_PRO_MODEL, mc_provider = ''google'',
      mc_quality_score = fl (95/100), mc_input_cost_per_1k = fl (2/1000),
      mc_output_cost_per_1k = fl (10/1000), mc_supports_domains = {Code, Medical, Legal, General},
      mc_supports_realtime = False, mc_context_window = 1048576,
      mc_max_input_tokens = None, mc_long_prompt_pricing = None,
      mc_supported_regions = {''us'', ''eu'', ''global''} \<rparr>),
    (GEMINI_FLASH_MODEL, \<lparr> mc_model = GEMINI_FLASH_MODEL, mc_provider = ''google'',
      mc_quality_score = fl (81/100), mc_input_cost_per_1k = fl (75/100000),
      mc_output_cost_per_1k = fl (375/100000), mc_supports_domains = {Code, General},
      mc_supports_realtime = True, mc_context_window = 1048576,
      mc_max_input_tokens = None, mc_long_prompt_pricing = None,
      mc_supported_regions = {''us'', ''eu'', ''global''} \<rparr>),
    (MOONSHOT_BALANCED_MODEL, \<lparr> mc_model = MOONSHOT_BALANCED_MODEL, mc_provider = ''moonshot'',
      mc_quality_score = fl (76/100), mc_input_cost_per_1k = fl (2/1000),
      mc_output_cost_per_1k = fl (10/1000), mc_supports_domains = {Code, General},
      mc_supports_realtime = True, mc_context_window = 1048576,
      mc_max_input_tokens = None, mc_long_prompt_pricing = None,
      mc_supported_regions = {''cn'', ''global''} \<rparr>)]"

text \<open>\<open>self._model_catalog[model]\<close> raises KeyError for an unknown model.\<close>

definition catalog_get :: "catalog \<Rightarrow> string \<Rightarrow> model_candidate result" where
  "catalog_get cat model = of_opt (KeyError model) (map_of cat model)"

text \<open>What the routing code relies on: not empty, each key once, and the key of its candidate.\<close>

definition wf_catalog :: "catalog \<Rightarrow> bool" where
  "wf_catalog cat \<longleftrightarrow> cat \<noteq> [] \<and> distinct (map fst cat) \<and>
     (\<forall>(k, c) \<in> set cat. mc_model c = k \<and> wf_candidate c)"

definition catalog_values :: "catalog \<Rightarrow> model_candidate list" where
  "catalog_values cat = map snd cat"

subsection \<open>Lemmas\<close>

lemma fl_unit: "0 \<le> x \<Longrightarrow> x \<le> 1 \<Longrightarrow> 0 \<le> fl x \<and> fl x \<le> 1"
  by (simp add: dbl.nonneg dbl.le_one)

lemma default_catalog_wf: "wf_catalog default_model_catalog"
  by (simp add: wf_catalog_def default_model_catalog_def wf_candidate_def wf_pricing_def
      model_id_defs GPT6_MAX_INPUT_TOKENS_def GPT6_LONG_PROMPT_THRESHOLD_TOKENS_def
      HAIKU_5_5_LONG_PROMPT_THRESHOLD_TOKENS_def dbl.nonneg dbl.le_one)

lemma default_catalog_surcharge: "(k, c) \<in> set default_model_catalog \<Longrightarrow> surcharge c"
  by (auto simp: default_model_catalog_def surcharge_def intro!: fl_mono)

lemma map_of_values: "wf_catalog cat \<Longrightarrow> c \<in> set (catalog_values cat) \<Longrightarrow>
  map_of cat (mc_model c) = Some c"
  by (force simp: wf_catalog_def catalog_values_def)

lemma values_wf: "wf_catalog cat \<Longrightarrow> c \<in> set (catalog_values cat) \<Longrightarrow> wf_candidate c"
  by (auto simp: wf_catalog_def catalog_values_def)

lemma values_nonempty: "wf_catalog cat \<Longrightarrow> catalog_values cat \<noteq> []"
  by (simp add: wf_catalog_def catalog_values_def)

lemma models_of_values: "wf_catalog cat \<Longrightarrow> map mc_model (catalog_values cat) = map fst cat"
  by (auto simp: wf_catalog_def catalog_values_def)

lemma values_distinct: "wf_catalog cat \<Longrightarrow> distinct (map mc_model (catalog_values cat))"
  by (simp add: models_of_values) (simp add: wf_catalog_def)

lemma fint_nonneg: "0 \<le> n \<Longrightarrow> 0 \<le> fint n"
  by (simp add: fint_def dbl.nonneg)

lemma fint_mono: "m \<le> n \<Longrightarrow> fint m \<le> fint n"
  by (simp add: fint_def fl_mono)

lemma fadd_mono: "a \<le> a' \<Longrightarrow> b \<le> b' \<Longrightarrow> fadd a b \<le> fadd a' b'"
  by (simp add: fadd_def fl_mono)

lemma fdiv_mono: "a \<le> a' \<Longrightarrow> 0 < b \<Longrightarrow> fdiv a b \<le> fdiv a' b"
  by (simp add: fdiv_def fl_mono divide_right_mono)

lemma fmul_mono: "a \<le> a' \<Longrightarrow> b \<le> b' \<Longrightarrow> 0 \<le> a \<Longrightarrow> 0 \<le> b \<Longrightarrow> fmul a b \<le> fmul a' b'"
  by (simp add: fmul_def fl_mono mult_mono)

lemma fdiv_nonneg: "0 \<le> a \<Longrightarrow> 0 \<le> b \<Longrightarrow> 0 \<le> fdiv a b"
  by (simp add: fdiv_def dbl.nonneg)

lemma fmul_nonneg: "0 \<le> a \<Longrightarrow> 0 \<le> b \<Longrightarrow> 0 \<le> fmul a b"
  by (simp add: fmul_def dbl.nonneg)

lemma fadd_nonneg: "0 \<le> a \<Longrightarrow> 0 \<le> b \<Longrightarrow> 0 \<le> fadd a b"
  by (simp add: fadd_def dbl.nonneg)

lemmas float_monos = fint_mono fadd_mono fdiv_mono fmul_mono
lemmas float_nonneg = fint_nonneg fadd_nonneg fdiv_nonneg fmul_nonneg

lemma estimate_cost_nonneg:
  assumes "wf_candidate c" "0 \<le> i" "0 \<le> n" shows "0 \<le> estimate_cost c i n"
  using assms
  by (auto simp: estimate_cost_def rates_for_def Let_def wf_candidate_def wf_pricing_def
      split: option.splits intro!: float_nonneg)

end
