(* ===== verification/Strategy_Base.thy ===== *)
theory Strategy_Base
  imports Schemas
begin

text \<open>
  The base class \<open>RoutingStrategy\<close> of \<open>src/router/strategies.py\<close> and what every strategy promises the
  engine. The locale \<open>routing_strategy\<close> is that promise: a decision names a model of the catalog
  with its own provider, and its fallback chain is at most three further models of the catalog,
  each once. \<open>total_strategy\<close> adds that a decision is always made. The building blocks the
  strategies share are here too: the domain-eligible candidates, \<open>pool or default\<close>, dicts keyed by
  \<open>candidate.model\<close>, and the fallback chain of a sorted remainder.
\<close>

subsection \<open>Building blocks\<close>

text \<open>\<open>[c for c in catalog.values() if signals.domain_tag in c.supports_domains] or list(catalog.values())\<close>\<close>

definition or_else :: "'a list \<Rightarrow> 'a list \<Rightarrow> 'a list" where
  "or_else xs ys = (if xs = [] then ys else xs)"

definition supporting_domain :: "catalog \<Rightarrow> task_signals \<Rightarrow> model_candidate list" where
  "supporting_domain cat s = filter (\<lambda>c. ts_domain_tag s \<in> mc_supports_domains c) (catalog_values cat)"

definition eligible :: "catalog \<Rightarrow> task_signals \<Rightarrow> model_candidate list" where
  "eligible cat s = or_else (supporting_domain cat s) (catalog_values cat)"

text \<open>
  \<open>{c.model: f(c) for c in pool}[m]\<close>: the last candidate with the model wins. The value for a
  model that is not in the dict (KeyError in Python) is never asked for: every use is at a
  candidate of the pool.
\<close>

definition by_model :: "(model_candidate \<Rightarrow> 'a) \<Rightarrow> model_candidate list \<Rightarrow> model_candidate \<Rightarrow> 'a" where
  "by_model f pool c = f (case find (\<lambda>d. mc_model d = mc_model c) (rev pool) of Some d \<Rightarrow> d | None \<Rightarrow> c)"

definition cost_of :: "router_request \<Rightarrow> task_signals \<Rightarrow> model_candidate \<Rightarrow> rat" where
  "cost_of r s c = estimate_cost c (ts_prompt_tokens_estimate s) (rq_max_tokens r)"

definition without :: "string \<Rightarrow> model_candidate list \<Rightarrow> model_candidate list" where
  "without m cs = filter (\<lambda>c. mc_model c \<noteq> m) cs"

definition first_models :: "model_candidate list \<Rightarrow> string list" where
  "first_models cs = take 3 (map mc_model cs)"

text \<open>\<open>RoutingStrategy._fallback_chain\<close> and \<open>RoutingStrategy._decision\<close>\<close>

definition fallback_chain :: "catalog \<Rightarrow> string \<Rightarrow> string list" where
  "fallback_chain cat chosen =
     first_models (without chosen (sorted_rev_by mc_quality_score (catalog_values cat)))"

definition decision :: "strategy_name \<Rightarrow> catalog \<Rightarrow> string \<Rightarrow> fstring \<Rightarrow> routing_decision result" where
  "decision name cat model rationale = bind_result (catalog_get cat model) (\<lambda>c.
     Inr \<lparr> rd_chosen_model = model, rd_provider = mc_provider c, rd_routing_strategy = name,
           rd_rationale = rationale, rd_fallback_chain = fallback_chain cat model \<rparr>)"

text \<open>\<open>RoutingDecision(...)\<close> from a selected candidate and ordered fallback candidates\<close>

definition decide :: "strategy_name \<Rightarrow> model_candidate \<Rightarrow> fstring \<Rightarrow> model_candidate list \<Rightarrow> routing_decision" where
  "decide name c rationale fallbacks =
     \<lparr> rd_chosen_model = mc_model c, rd_provider = mc_provider c, rd_routing_strategy = name,
       rd_rationale = rationale, rd_fallback_chain = first_models fallbacks \<rparr>"

subsection \<open>The promise of a strategy\<close>

definition decision_ok :: "catalog \<Rightarrow> routing_decision \<Rightarrow> bool" where
  "decision_ok cat d \<longleftrightarrow>
     (case map_of cat (rd_chosen_model d) of None \<Rightarrow> False | Some c \<Rightarrow> rd_provider d = mc_provider c) \<and>
     rd_chosen_model d \<notin> set (rd_fallback_chain d) \<and> set (rd_fallback_chain d) \<subseteq> fst ` set cat \<and>
     distinct (rd_fallback_chain d) \<and> length (rd_fallback_chain d) \<le> 3"

definition attempt_models :: "routing_decision \<Rightarrow> string list" where
  "attempt_models d = rd_chosen_model d # rd_fallback_chain d"

locale routing_strategy =
  fixes pick :: "catalog \<Rightarrow> router_request \<Rightarrow> task_signals \<Rightarrow> routing_decision result"
  assumes chosen: "wf_catalog cat \<Longrightarrow> pick cat r s = Inr d \<Longrightarrow> decision_ok cat d"
begin

text \<open>The attempts of a decision all resolve in the catalog, are distinct and at most four.\<close>

lemma attempts_resolve:
  assumes "wf_catalog cat" "pick cat r s = Inr d" "m \<in> set (attempt_models d)"
  shows "\<exists>c. map_of cat m = Some c"
  using chosen [OF assms(1,2)] assms(3)
  by (auto simp: decision_ok_def attempt_models_def weak_map_of_SomeI split: option.splits)

lemma attempts_distinct:
  assumes "wf_catalog cat" "pick cat r s = Inr d"
  shows "distinct (attempt_models d)" "length (attempt_models d) \<le> 4"
  using chosen [OF assms] by (auto simp: decision_ok_def attempt_models_def)

end

locale total_strategy = routing_strategy +
  assumes total: "wf_catalog cat \<Longrightarrow> \<exists>d. pick cat r s = Inr d"
begin

lemma decides: "wf_catalog cat \<Longrightarrow> \<exists>d. pick cat r s = Inr d \<and> decision_ok cat d"
  using total chosen by blast

end

subsection \<open>Lemmas for the strategies\<close>

lemma or_else_Nil [simp]: "or_else xs ys = [] \<longleftrightarrow> xs = [] \<and> ys = []"
  by (simp add: or_else_def)

lemma set_or_else: "set xs \<subseteq> set ys \<Longrightarrow> set (or_else xs ys) \<subseteq> set ys"
  by (simp add: or_else_def)

lemma eligible_sub: "set (eligible cat s) \<subseteq> set (catalog_values cat)"
  by (auto simp: eligible_def supporting_domain_def or_else_def)

lemma eligible_nonempty [simp]: "wf_catalog cat \<Longrightarrow> eligible cat s \<noteq> []"
  by (simp add: eligible_def values_nonempty)

lemma distinct_filter_models:
  "distinct (map mc_model xs) \<Longrightarrow> distinct (map mc_model (filter P xs))"
  by (rule distinct_map_filter)

lemma eligible_distinct [simp]: "wf_catalog cat \<Longrightarrow> distinct (map mc_model (eligible cat s))"
  by (simp add: eligible_def or_else_def supporting_domain_def values_distinct distinct_filter_models)

lemma by_model_pool [simp]:
  assumes "distinct (map mc_model pool)" "c \<in> set pool" shows "by_model f pool c = f c"
proof -
  obtain d where d: "find (\<lambda>d. mc_model d = mc_model c) (rev pool) = Some d"
    using assms(2) by (cases "find (\<lambda>d. mc_model d = mc_model c) (rev pool)") (auto simp: find_None_iff)
  then have "d \<in> set pool" "mc_model d = mc_model c" by (auto simp: find_Some_iff) (metis length_rev nth_mem set_rev)
  with assms have "d = c" by (auto simp: distinct_map inj_on_def)
  then show ?thesis by (simp add: by_model_def d)
qed

lemma distinct_mset_models: "mset xs = mset ys \<Longrightarrow> distinct (map mc_model xs) = distinct (map mc_model ys)"
  by (metis mset_map mset_eq_imp_distinct_iff)

lemma first_models_ok:
  assumes "set cs \<subseteq> set (catalog_values cat)" "wf_catalog cat"
  shows "set (first_models cs) \<subseteq> fst ` set cat" "length (first_models cs) \<le> 3"
proof -
  have "mc_model ` set (catalog_values cat) \<subseteq> fst ` set cat"
    using models_of_values [OF assms(2)] by (metis set_map order_refl)
  then show "set (first_models cs) \<subseteq> fst ` set cat"
    using assms(1) set_take_subset [of 3 "map mc_model cs"] by (fastforce simp: first_models_def)
qed (simp add: first_models_def)

lemma distinct_first_models: "distinct (map mc_model cs) \<Longrightarrow> distinct (first_models cs)"
  by (simp add: first_models_def)

lemma first_models_without: "m \<notin> set (first_models (without m cs))"
  by (auto simp: first_models_def without_def dest: in_set_takeD)

lemma sorted_rev_models: "distinct (map mc_model (sorted_rev_by f xs)) = distinct (map mc_model xs)"
  by (rule distinct_mset_models) simp

lemma sorted_models: "distinct (map mc_model (sorted_by f xs)) = distinct (map mc_model xs)"
  by (rule distinct_mset_models) simp

lemma fallback_chain_ok:
  assumes "wf_catalog cat"
  shows "m \<notin> set (fallback_chain cat m)" "set (fallback_chain cat m) \<subseteq> fst ` set cat"
    "distinct (fallback_chain cat m)" "length (fallback_chain cat m) \<le> 3"
  unfolding fallback_chain_def
  by (simp add: first_models_without,
      intro first_models_ok assms, force simp: without_def,
      intro distinct_first_models,
      simp add: without_def distinct_filter_models sorted_rev_models values_distinct assms,
      simp add: first_models_def)

lemma decision_Inr:
  "wf_catalog cat \<Longrightarrow> decision name cat m ra = Inr d \<Longrightarrow> decision_ok cat d"
  using fallback_chain_ok [of cat m]
  by (auto simp: decision_def bind_result_Inr catalog_get_def decision_ok_def)

lemma decision_total: "m \<in> fst ` set cat \<Longrightarrow> \<exists>d. decision name cat m ra = Inr d"
  by (cases "map_of cat m") (auto simp: decision_def bind_result_Inr catalog_get_def map_of_eq_None_iff)

lemma decision_chosen: "decision name cat m ra = Inr d \<Longrightarrow> rd_chosen_model d = m"
  by (auto simp: decision_def bind_result_Inr)

lemma value_model_in: "wf_catalog cat \<Longrightarrow> c \<in> set (catalog_values cat) \<Longrightarrow> mc_model c \<in> fst ` set cat"
  using models_of_values by (metis image_eqI image_set)

lemma decide_ok:
  assumes "wf_catalog cat" "c \<in> set (catalog_values cat)" "set cs \<subseteq> set (catalog_values cat)"
    "distinct (map mc_model cs)" "mc_model c \<notin> mc_model ` set cs"
  shows "decision_ok cat (decide name c ra cs)"
  using first_models_ok [OF assms(3,1)] distinct_first_models [OF assms(4)] map_of_values [OF assms(1,2)] assms(5)
  by (auto simp: decision_ok_def decide_def first_models_def dest: in_set_takeD)

lemma decide_sorted_ok:
  assumes "wf_catalog cat" "c \<in> set pool" "set pool \<subseteq> set (catalog_values cat)" "distinct (map mc_model pool)"
  shows "decision_ok cat (decide name c ra (sorted_by f (without (mc_model c) pool)))"
proof (rule decide_ok)
  show "distinct (map mc_model (sorted_by f (without (mc_model c) pool)))"
    using assms(4) by (simp add: sorted_models without_def distinct_filter_models)
qed (use assms in \<open>auto simp: without_def\<close>)

lemma decide_tail_ok:
  assumes "wf_catalog cat" "set (c # cs) \<subseteq> set (catalog_values cat)" "distinct (map mc_model (c # cs))"
  shows "decision_ok cat (decide name c ra cs)"
  using assms by (intro decide_ok) auto

end
