(* ===== verification/Circuit_Breaker.thy ===== *)
theory Circuit_Breaker
  imports PyFloat PyStr
begin

text \<open>
  The circuit breaker of \<open>src/safety/circuit_breaker.py\<close>: one \<open>CircuitState\<close> per provider, opened
  by \<open>failure_threshold\<close> consecutive failures and closed by a success or by the first
  \<open>assert_available\<close> after the recovery window. \<open>time.monotonic()\<close> is the argument \<open>now\<close>. The
  locale \<open>availability\<close> is what routing (which reads \<open>is_available\<close>) and dispatch (which calls
  \<open>assert_available\<close>) rely on together.
\<close>

subsection \<open>State and operations\<close>

record circuit_state =
  cs_consecutive_failures :: int
  cs_opened_at :: "rat option"

record circuit_registry =
  cb_failure_threshold :: int
  cb_recovery_window_seconds :: rat
  cb_states :: "string \<rightharpoonup> circuit_state"

definition new_circuit :: circuit_state where
  "new_circuit = \<lparr> cs_consecutive_failures = 0, cs_opened_at = None \<rparr>"

definition new_registry :: "int \<Rightarrow> rat \<Rightarrow> circuit_registry" where
  "new_registry threshold recovery =
     \<lparr> cb_failure_threshold = threshold, cb_recovery_window_seconds = recovery, cb_states = Map.empty \<rparr>"

text \<open>\<open>self._states.setdefault(provider, CircuitState())\<close>\<close>

definition circuit_of :: "string \<Rightarrow> circuit_registry \<Rightarrow> circuit_state" where
  "circuit_of p cb = (case cb_states cb p of None \<Rightarrow> new_circuit | Some s \<Rightarrow> s)"

definition put_circuit :: "string \<Rightarrow> circuit_state \<Rightarrow> circuit_registry \<Rightarrow> circuit_registry" where
  "put_circuit p s cb = cb\<lparr> cb_states := (cb_states cb)(p \<mapsto> s) \<rparr>"

definition assert_available :: "rat \<Rightarrow> string \<Rightarrow> circuit_registry \<Rightarrow> unit result \<times> circuit_registry" where
  "assert_available now p cb = (let state = circuit_of p cb in
     (case cs_opened_at state of
        None \<Rightarrow> (Inr (), put_circuit p state cb)
      | Some opened \<Rightarrow>
          if fsub now opened < cb_recovery_window_seconds cb
          then (Inl (CircuitOpenError p), put_circuit p state cb)
          else (Inr (), put_circuit p (state\<lparr> cs_consecutive_failures := 0, cs_opened_at := None \<rparr>) cb)))"

definition is_available :: "rat \<Rightarrow> string \<Rightarrow> circuit_registry \<Rightarrow> bool" where
  "is_available now p cb = (case cb_states cb p of
      None \<Rightarrow> True
    | Some state \<Rightarrow> (case cs_opened_at state of
        None \<Rightarrow> True | Some opened \<Rightarrow> cb_recovery_window_seconds cb \<le> fsub now opened))"

definition is_half_open :: "rat \<Rightarrow> string \<Rightarrow> circuit_registry \<Rightarrow> bool" where
  "is_half_open now p cb = (case cb_states cb p of
      None \<Rightarrow> False
    | Some state \<Rightarrow> (case cs_opened_at state of
        None \<Rightarrow> False | Some opened \<Rightarrow> cb_recovery_window_seconds cb \<le> fsub now opened))"

definition cb_record_success :: "string \<Rightarrow> circuit_registry \<Rightarrow> circuit_registry" where
  "cb_record_success p cb = put_circuit p new_circuit cb"

definition cb_record_failure :: "rat \<Rightarrow> string \<Rightarrow> circuit_registry \<Rightarrow> circuit_registry" where
  "cb_record_failure now p cb = (let state = circuit_of p cb;
      state1 = state\<lparr> cs_consecutive_failures := cs_consecutive_failures state + 1 \<rparr>
    in put_circuit p
         (if cb_failure_threshold cb \<le> cs_consecutive_failures state1
          then state1\<lparr> cs_opened_at := Some now \<rparr> else state1) cb)"

lemma circuit_put [simp]:
  "circuit_of q (put_circuit p s cb) = (if q = p then s else circuit_of q cb)"
  "cb_failure_threshold (put_circuit p s cb) = cb_failure_threshold cb"
  "cb_recovery_window_seconds (put_circuit p s cb) = cb_recovery_window_seconds cb"
  by (simp_all add: circuit_of_def put_circuit_def)

lemma circuit_new [simp]:
  "circuit_of p (new_registry t w) = new_circuit"
  "cb_failure_threshold (new_registry t w) = t"
  "cb_recovery_window_seconds (new_registry t w) = w"
  "cs_consecutive_failures new_circuit = 0" "cs_opened_at new_circuit = None"
  by (simp_all add: circuit_of_def new_registry_def new_circuit_def)

lemma is_available_iff:
  "is_available now p cb \<longleftrightarrow> (case cs_opened_at (circuit_of p cb) of None \<Rightarrow> True
     | Some opened \<Rightarrow> cb_recovery_window_seconds cb \<le> fsub now opened)"
  by (auto simp: is_available_def circuit_of_def split: option.splits)

lemma is_half_open_iff:
  "is_half_open now p cb \<longleftrightarrow> cs_opened_at (circuit_of p cb) \<noteq> None \<and> is_available now p cb"
  by (auto simp: is_half_open_def is_available_def circuit_of_def split: option.splits)

lemma assert_available_cases:
  "fst (assert_available now p cb) = (if is_available now p cb then Inr () else Inl (CircuitOpenError p))"
  by (auto simp: assert_available_def is_available_iff Let_def split: option.splits)

subsection \<open>What routing and dispatch rely on\<close>

text \<open>
  \<open>check\<close> is the guard before a dispatch, \<open>available\<close> the side-effect free read of the routing
  strategies.
\<close>

locale availability =
  fixes available :: "rat \<Rightarrow> string \<Rightarrow> 's \<Rightarrow> bool"
    and check :: "rat \<Rightarrow> string \<Rightarrow> 's \<Rightarrow> unit result \<times> 's"
  assumes check_iff: "fst (check now p s) = Inr () \<longleftrightarrow> available now p s"
    and check_keeps: "available now q (snd (check now p s)) = available now q s"
begin

fun check_all :: "rat \<Rightarrow> string list \<Rightarrow> 's \<Rightarrow> string list \<times> 's" where
  "check_all now [] s = ([], s)"
| "check_all now (p # ps) s =
     (let (r, s') = check now p s; (passed, s'') = check_all now ps s'
      in ((if r = Inr () then p # passed else passed), s''))"

text \<open>Checking a chain provider by provider lets through exactly those the read reported.\<close>

lemma check_all_filter: "fst (check_all now ps s) = filter (\<lambda>p. available now p s) ps"
proof (induction ps arbitrary: s)
  case (Cons p ps)
  then show ?case using check_iff [of now p s] check_keeps [of now _ p s]
    by (auto simp: case_prod_beta Let_def)
qed simp

lemma check_all_keeps: "available now q (snd (check_all now ps s)) = available now q s"
  by (induction ps arbitrary: s) (simp_all add: case_prod_beta Let_def check_keeps)

end

interpretation breaker: availability is_available assert_available
proof
  show "fst (assert_available now p s) = Inr () \<longleftrightarrow> is_available now p s" for now p s
    by (simp add: assert_available_cases)
  show "is_available now q (snd (assert_available now p s)) = is_available now q s" for now p q s
    by (auto simp: assert_available_def is_available_iff Let_def split: option.splits)
qed

subsection \<open>Runs\<close>

datatype breaker_event = Success | Failure | Probe

fun breaker_apply :: "rat \<times> string \<times> breaker_event \<Rightarrow> circuit_registry \<Rightarrow> circuit_registry" where
  "breaker_apply (now, p, Success) cb = cb_record_success p cb"
| "breaker_apply (now, p, Failure) cb = cb_record_failure now p cb"
| "breaker_apply (now, p, Probe) cb = snd (assert_available now p cb)"

definition breaker_run :: "(rat \<times> string \<times> breaker_event) list \<Rightarrow> circuit_registry \<Rightarrow> circuit_registry" where
  "breaker_run es cb = foldl (\<lambda>cb e. breaker_apply e cb) cb es"

lemma breaker_run_snoc: "breaker_run (es @ [e]) cb = breaker_apply e (breaker_run es cb)"
  by (simp add: breaker_run_def)

lemma breaker_run_Nil [simp]: "breaker_run [] cb = cb"
  by (simp add: breaker_run_def)

lemma apply_config [simp]:
  "cb_failure_threshold (breaker_apply e cb) = cb_failure_threshold cb"
  "cb_recovery_window_seconds (breaker_apply e cb) = cb_recovery_window_seconds cb"
  by (cases "(e, cb)" rule: breaker_apply.cases;
      simp add: cb_record_success_def cb_record_failure_def assert_available_def Let_def split: option.splits)+

lemma run_config [simp]:
  "cb_failure_threshold (breaker_run es cb) = cb_failure_threshold cb"
  "cb_recovery_window_seconds (breaker_run es cb) = cb_recovery_window_seconds cb"
  by (induction es rule: rev_induct) (simp_all add: breaker_run_snoc)

lemma apply_other: "p \<noteq> q \<Longrightarrow> circuit_of q (breaker_apply (now, p, k) cb) = circuit_of q cb"
  by (cases k) (simp_all add: cb_record_success_def cb_record_failure_def assert_available_def Let_def
      split: option.splits)

text \<open>An open circuit has seen the threshold of consecutive failures.\<close>

definition circuit_ok :: "int \<Rightarrow> circuit_state \<Rightarrow> bool" where
  "circuit_ok threshold s \<longleftrightarrow> 0 \<le> cs_consecutive_failures s \<and>
     (cs_opened_at s \<noteq> None \<longleftrightarrow> threshold \<le> cs_consecutive_failures s)"

lemma apply_ok:
  assumes "1 \<le> cb_failure_threshold cb" "circuit_ok (cb_failure_threshold cb) (circuit_of q cb)"
  shows "circuit_ok (cb_failure_threshold cb) (circuit_of q (breaker_apply e cb))"
proof -
  obtain now p k where e: "e = (now, p, k)" by (cases e)
  show ?thesis
  proof (cases "p = q")
    case True
    then show ?thesis using assms unfolding e
      by (cases k) (auto simp: circuit_ok_def cb_record_success_def cb_record_failure_def
          assert_available_def Let_def split: option.splits)
  next
    case False
    with assms show ?thesis by (simp add: e apply_other)
  qed
qed

lemma run_ok:
  assumes "1 \<le> threshold"
  shows "circuit_ok threshold (circuit_of q (breaker_run es (new_registry threshold w)))"
proof (induction es rule: rev_induct)
  case Nil
  then show ?case using assms by (simp add: circuit_ok_def)
next
  case (snoc e es)
  then show ?case
    using apply_ok [of "breaker_run es (new_registry threshold w)" q e] assms by (simp add: breaker_run_snoc)
qed

text \<open>The trailing failures of one provider, newest first, in a history of recorded outcomes.\<close>

definition failure_streak :: "string \<Rightarrow> (rat \<times> string \<times> breaker_event) list \<Rightarrow> rat list" where
  "failure_streak p es = map fst (takeWhile (\<lambda>(_, _, k). k = Failure)
     (rev (filter (\<lambda>(_, q, _). q = p) es)))"

lemma failure_streak_snoc:
  "failure_streak p (es @ [(now, q, k)]) =
    (if q \<noteq> p then failure_streak p es else if k = Failure then now # failure_streak p es else [])"
  by (simp add: failure_streak_def)

lemma run_streak:
  assumes "1 \<le> threshold" "\<forall>(_, _, k) \<in> set es. k \<noteq> Probe"
  shows "circuit_of p (breaker_run es (new_registry threshold w)) =
    \<lparr> cs_consecutive_failures = int (length (failure_streak p es)),
      cs_opened_at = (if threshold \<le> int (length (failure_streak p es))
                      then Some (hd (failure_streak p es)) else None) \<rparr>"
  using assms(2)
proof (induction es rule: rev_induct)
  case Nil
  then show ?case using assms(1) by (simp add: failure_streak_def new_circuit_def)
next
  case (snoc e es)
  obtain now q k where e: "e = (now, q, k)" by (cases e)
  show ?case
  proof (cases "q = p")
    case True
    with snoc assms(1) show ?thesis
      by (cases k) (auto simp: e breaker_run_snoc failure_streak_snoc cb_record_success_def
          cb_record_failure_def new_circuit_def Let_def)
  next
    case False
    with snoc show ?thesis by (simp add: e breaker_run_snoc failure_streak_snoc apply_other)
  qed
qed

subsection \<open>Properties\<close>



text \<open>
  C5. Routing and dispatch agree: at one instant, whatever happened before, the dispatch guard
  lets through exactly the providers of a chain that the routing read reports available, although
  each passing guard resets a recovered circuit.
\<close>

fun guard_chain :: "rat \<Rightarrow> string list \<Rightarrow> circuit_registry \<Rightarrow> string list" where
  "guard_chain now [] cb = []"
| "guard_chain now (p # ps) cb = (case assert_available now p cb of
      (Inr _, cb') \<Rightarrow> p # guard_chain now ps cb'
    | (Inl _, cb') \<Rightarrow> guard_chain now ps cb')"

lemma guard_chain_eq: "guard_chain now ps cb = fst (breaker.check_all now ps cb)"
  by (induction now ps cb rule: guard_chain.induct) (auto split: prod.splits sum.splits)

theorem guard_agrees_with_routing:
  "guard_chain now ps (breaker_run es cb) = filter (\<lambda>p. is_available now p (breaker_run es cb)) ps"
  by (simp add: guard_chain_eq breaker.check_all_filter)

text \<open>
  A guard that passes a recovered circuit closes it and clears the streak: the provider stays
  available until the full threshold of new failures is reached, and then opens at the newest one.
\<close>

theorem recovered_circuit_starts_over:
  assumes "is_half_open now p cb" "1 \<le> cb_failure_threshold cb"
  shows "is_available later p
    (breaker_run (map (\<lambda>t. (t, p, Failure)) ts) (snd (assert_available now p cb)))
    \<longleftrightarrow> length ts < nat (cb_failure_threshold cb) \<or>
        cb_recovery_window_seconds cb \<le> fsub later (last ts)"
proof -
  let ?cb = "snd (assert_available now p cb)"
  have cfg: "cb_failure_threshold ?cb = cb_failure_threshold cb"
    "cb_recovery_window_seconds ?cb = cb_recovery_window_seconds cb"
    by (auto simp: assert_available_def Let_def split: option.splits)
  have fresh: "circuit_of p ?cb = new_circuit"
    using assms(1) by (auto simp: assert_available_def is_half_open_iff is_available_iff Let_def new_circuit_def
        split: option.splits)
  have "circuit_of p (breaker_run (map (\<lambda>t. (t, p, Failure)) ts) ?cb) =
    \<lparr> cs_consecutive_failures = int (length ts),
      cs_opened_at = (if cb_failure_threshold cb \<le> int (length ts) then Some (last ts) else None) \<rparr>"
  proof (induction ts rule: rev_induct)
    case Nil
    then show ?case using assms(2) fresh by (simp add: new_circuit_def)
  next
    case (snoc t ts)
    then show ?case by (auto simp: breaker_run_snoc cb_record_failure_def Let_def cfg)
  qed
  then show ?thesis using assms(2) by (auto simp: is_available_iff cfg)
qed

theorem recovered_circuit_starts_over_witness:
  "is_available 100 ''x'' (breaker_run (map (\<lambda>t. (t, ''x'', Failure)) [90])
     (snd (assert_available 80 ''x'' (breaker_run [(1, ''x'', Failure), (2, ''x'', Failure)] (new_registry 2 60)))))"
  by (subst recovered_circuit_starts_over)
     (simp_all add: is_half_open_iff is_available_iff breaker_run_def cb_record_failure_def Let_def
        fsub_def fl_numeral)

end
