(* ===== verification/Windows.thy ===== *)
theory Windows
  imports Schemas
begin

text \<open>
  The rolling statistics the routing strategies read (\<open>src/router/strategies.py\<close>) and the
  sliding-window error budget of \<open>src/safety/provider_error_budget.py\<close>. Two interfaces cover them:
  \<open>keyed_windows\<close>, a bounded number of recent samples per key, and \<open>timed_windows\<close>, the samples of
  the last \<open>span\<close> seconds per key, pruned lazily from the front when a key is written or read.
  Clients may assume that a window holds the last samples of the key's history, which the
  locales prove from the one-step laws.
\<close>

subsection \<open>Bounded windows\<close>

text \<open>\<open>dict.setdefault(key, [])\<close> and \<open>dict.get(key, [])\<close>\<close>

definition get_list :: "('k \<rightharpoonup> 'a list) \<Rightarrow> 'k \<Rightarrow> 'a list" where
  "get_list m k = (case m k of None \<Rightarrow> [] | Some xs \<Rightarrow> xs)"

lemma get_list_simps [simp]:
  "get_list (m(k \<mapsto> xs)) k' = (if k' = k then xs else get_list m k')"
  "get_list (m(k := None)) k' = (if k' = k then [] else get_list m k')"
  "get_list Map.empty k = []"
  by (simp_all add: get_list_def)

locale keyed_windows =
  fixes window :: "'s \<Rightarrow> 'k \<Rightarrow> 'a list"
    and put :: "'k \<Rightarrow> 'a \<Rightarrow> 's \<Rightarrow> 's"
    and size :: "'s \<Rightarrow> nat"
  assumes put_own: "length (window s k) \<le> size s \<Longrightarrow>
      window (put k x s) k = drop (length (window s k) + 1 - size s) (window s k @ [x])"
    and put_other: "k' \<noteq> k \<Longrightarrow> window (put k x s) k' = window s k'"
    and put_size: "size (put k x s) = size s"
begin

definition puts :: "('k \<times> 'a) list \<Rightarrow> 's \<Rightarrow> 's" where
  "puts h s = foldl (\<lambda>s (k, x). put k x s) s h"

lemma puts_snoc: "puts (h @ [(k, x)]) s = put k x (puts h s)"
  by (simp add: puts_def)

lemma puts_size: "size (puts h s) = size s"
  by (induction h rule: rev_induct) (auto simp: puts_snoc put_size, simp add: puts_def)

text \<open>The window of a key is the end of the key's history.\<close>

lemma window_puts:
  assumes "length (window s k) \<le> size s"
  defines "w h \<equiv> window s k @ map snd (filter (\<lambda>(k', _). k' = k) h)"
  shows "window (puts h s) k = drop (length (w h) - size s) (w h)"
proof (induction h rule: rev_induct)
  case Nil
  then show ?case using assms by (simp add: puts_def w_def)
next
  case (snoc e h)
  obtain k' x where e: "e = (k', x)" by (cases e)
  show ?case
  proof (cases "k' = k")
    case True
    have len: "length (window (puts h s) k) \<le> size (puts h s)"
      unfolding snoc by (simp add: puts_size)
    have "window (puts (h @ [e]) s) k =
        drop (length (window (puts h s) k) + 1 - size s) (window (puts h s) k @ [x])"
      using put_own [OF len] by (simp add: e True puts_snoc puts_size)
    also have "\<dots> = drop (length (w h @ [x]) - size s) (w h @ [x])"
      unfolding snoc by (cases "size s \<le> length (w h)") (simp_all add: Suc_diff_le)
    finally show ?thesis by (simp add: e True w_def)
  next
    case False
    with snoc show ?thesis by (simp add: e puts_snoc put_other w_def)
  qed
qed

lemma window_bounded: "length (window s k) \<le> size s \<Longrightarrow> length (window (puts h s) k) \<le> size s"
  by (simp add: window_puts)

end

subsection \<open>Windows of bounded length\<close>

text \<open>\<open>xs.append(x); if len(xs) > n: del xs[0]\<close>, also what \<open>deque(maxlen=n).append(x)\<close> leaves.\<close>

definition push :: "nat \<Rightarrow> 'a \<Rightarrow> 'a list \<Rightarrow> 'a list" where
  "push n x xs = (let ys = xs @ [x] in if length ys > n then drop 1 ys else ys)"

lemma push_drop: "length xs \<le> n \<Longrightarrow> push n x xs = drop (length xs + 1 - n) (xs @ [x])"
  by (cases "length xs = n") (auto simp: push_def Let_def)

text \<open>\<open>LatencyStats\<close>\<close>

record latency_stats = ls_observations :: "string \<rightharpoonup> rat list"

definition ls_observe :: "string \<Rightarrow> rat \<Rightarrow> latency_stats \<Rightarrow> latency_stats" where
  "ls_observe p latency_ms ls =
     ls\<lparr> ls_observations := (ls_observations ls)(p \<mapsto> push 100 latency_ms (get_list (ls_observations ls) p)) \<rparr>"

text \<open>\<open>sorted(obs)[min(len - 1, int(q * (len - 1)))]\<close>, and 0.0 without observations.\<close>

definition percentile :: "rat \<Rightarrow> rat list \<Rightarrow> rat" where
  "percentile q obs = (let xs = sort obs; n = int (length xs) in
     if xs = [] then 0 else xs ! nat (min (n - 1) \<lfloor>fmul q (fint (n - 1))\<rfloor>))"

definition p95 :: "latency_stats \<Rightarrow> string \<Rightarrow> rat" where
  "p95 ls p = percentile (fl (95/100)) (get_list (ls_observations ls) p)"

definition p50 :: "latency_stats \<Rightarrow> string \<Rightarrow> rat" where
  "p50 ls p = percentile (fl (1/2)) (get_list (ls_observations ls) p)"

definition p99 :: "latency_stats \<Rightarrow> string \<Rightarrow> rat" where
  "p99 ls p = percentile (fl (99/100)) (get_list (ls_observations ls) p)"

text \<open>\<open>RateLimitStats\<close>\<close>

record rate_limit_stats =
  rs_max_observations :: nat
  rs_observations :: "string \<rightharpoonup> bool list"

definition make_rate_limit_stats :: "int \<Rightarrow> rate_limit_stats result" where
  "make_rate_limit_stats n = (if n < 1 then Inl ValueError
     else Inr \<lparr> rs_max_observations = nat n, rs_observations = Map.empty \<rparr>)"

definition rs_observe :: "string \<Rightarrow> bool \<Rightarrow> rate_limit_stats \<Rightarrow> rate_limit_stats" where
  "rs_observe p rate_limited rs = rs\<lparr> rs_observations := (rs_observations rs)(p \<mapsto>
     push (rs_max_observations rs) rate_limited (get_list (rs_observations rs) p)) \<rparr>"

definition rate_limit_count :: "rate_limit_stats \<Rightarrow> string \<Rightarrow> int" where
  "rate_limit_count rs p = int (length (filter id (get_list (rs_observations rs) p)))"

definition rate_limit_rate :: "rate_limit_stats \<Rightarrow> string \<Rightarrow> rat" where
  "rate_limit_rate rs p = (let obs = get_list (rs_observations rs) p in
     if obs = [] then 0 else idiv (rate_limit_count rs p) (int (length obs)))"

text \<open>\<open>CostAnomalyStats\<close> and \<open>ProviderRequestShareStats\<close>: one window for all requests\<close>

record cost_anomaly_stats =
  ca_observations :: "rat list"
  ca_max_observations :: nat

definition ca_observe :: "rat \<Rightarrow> cost_anomaly_stats \<Rightarrow> cost_anomaly_stats" where
  "ca_observe cost ca = ca\<lparr> ca_observations := push (ca_max_observations ca) cost (ca_observations ca) \<rparr>"

definition ca_mean :: "cost_anomaly_stats \<Rightarrow> rat" where
  "ca_mean ca = (if ca_observations ca = [] then 0
     else fdiv (fsum (ca_observations ca)) (fint (int (length (ca_observations ca)))))"

record request_share_stats =
  sh_lookback :: nat
  sh_observations :: "string list"

definition make_request_share_stats :: "int \<Rightarrow> request_share_stats result" where
  "make_request_share_stats lookback = (if lookback < 1 then Inl ValueError
     else Inr \<lparr> sh_lookback = nat lookback, sh_observations = [] \<rparr>)"

definition sh_observe :: "string \<Rightarrow> request_share_stats \<Rightarrow> request_share_stats" where
  "sh_observe p sh = sh\<lparr> sh_observations := push (sh_lookback sh) p (sh_observations sh) \<rparr>"

definition observation_count :: "request_share_stats \<Rightarrow> string set \<Rightarrow> int" where
  "observation_count sh eligible = int (length (filter (\<lambda>p. p \<in> eligible) (sh_observations sh)))"

definition request_share :: "request_share_stats \<Rightarrow> string \<Rightarrow> string set \<Rightarrow> rat" where
  "request_share sh p eligible = (let obs = filter (\<lambda>q. q \<in> eligible) (sh_observations sh) in
     if obs = [] then 0 else idiv (int (count_list obs p)) (int (length obs)))"

text \<open>\<open>LatencySlopeStats\<close>\<close>

record latency_slope_stats =
  lw_window :: nat
  lw_alpha :: rat
  lw_samples :: "string \<rightharpoonup> rat list"

definition make_latency_slope_stats :: "int \<Rightarrow> rat \<Rightarrow> latency_slope_stats result" where
  "make_latency_slope_stats window alpha =
     (if window < 2 then Inl ValueError
      else if \<not> (0 < alpha \<and> alpha \<le> 1) then Inl ValueError
      else Inr \<lparr> lw_window = nat window, lw_alpha = alpha, lw_samples = Map.empty \<rparr>)"

definition lw_observe :: "string \<Rightarrow> rat \<Rightarrow> latency_slope_stats \<Rightarrow> latency_slope_stats" where
  "lw_observe p latency_ms lw = lw\<lparr> lw_samples := (lw_samples lw)(p \<mapsto>
     push (lw_window lw) latency_ms (get_list (lw_samples lw) p)) \<rparr>"

definition mean_latency :: "latency_slope_stats \<Rightarrow> string \<Rightarrow> rat" where
  "mean_latency lw p = (let samples = get_list (lw_samples lw) p in
     if samples = [] then 0 else fdiv (fsum samples) (fint (int (length samples))))"

fun ewma_series :: "rat \<Rightarrow> rat \<Rightarrow> rat list \<Rightarrow> rat list" where
  "ewma_series alpha ewma [] = [ewma]"
| "ewma_series alpha ewma (x # xs) =
     ewma # ewma_series alpha (fadd (fmul alpha x) (fmul (fsub 1 alpha) ewma)) xs"

definition ewma_slope :: "latency_slope_stats \<Rightarrow> string \<Rightarrow> rat" where
  "ewma_slope lw p = (let samples = get_list (lw_samples lw) p in
     if length samples < 2 then 0
     else let series = ewma_series (lw_alpha lw) (hd samples) (List.tl samples)
       in fdiv (fsub (last series) (hd series)) (fint (int (length series) - 1)))"

text \<open>\<open>ProviderErrorBudgetShed\<close>\<close>

record error_budget =
  eb_window_size :: nat
  eb_error_budget_rate :: rat
  eb_min_samples :: int
  eb_hard_gate :: bool
  eb_outcomes :: "string \<rightharpoonup> bool list"

record error_budget_snapshot =
  es_provider :: string
  es_successes :: int
  es_failures :: int
  es_error_rate :: rat
  es_shed :: bool

definition make_error_budget :: "int \<Rightarrow> rat \<Rightarrow> int \<Rightarrow> bool \<Rightarrow> error_budget result" where
  "make_error_budget window_size rate min_samples hard_gate =
     (if window_size < 1 then Inl ValueError
      else if \<not> (0 \<le> rate \<and> rate \<le> 1) then Inl ValueError
      else if min_samples < 1 then Inl ValueError
      else Inr \<lparr> eb_window_size = nat window_size, eb_error_budget_rate = rate,
                 eb_min_samples = min_samples, eb_hard_gate = hard_gate, eb_outcomes = Map.empty \<rparr>)"

definition eb_snapshot_locked :: "error_budget \<Rightarrow> string \<Rightarrow> bool list \<Rightarrow> error_budget_snapshot" where
  "eb_snapshot_locked eb p window =
     (let successes = int (length (filter id window)); failures = int (length window) - successes;
          total = int (length window);
          error_rate = (if total \<noteq> 0 then idiv failures total else 0)
      in \<lparr> es_provider = p, es_successes = successes, es_failures = failures,
           es_error_rate = error_rate,
           es_shed = (eb_min_samples eb \<le> total \<and> eb_error_budget_rate eb < error_rate) \<rparr>)"

definition eb_append :: "string \<Rightarrow> bool \<Rightarrow> error_budget \<Rightarrow> error_budget" where
  "eb_append p success eb = eb\<lparr> eb_outcomes := (eb_outcomes eb)(p \<mapsto>
     push (eb_window_size eb) success (get_list (eb_outcomes eb) p)) \<rparr>"

definition eb_record :: "string \<Rightarrow> bool \<Rightarrow> error_budget \<Rightarrow> error_budget_snapshot result \<times> error_budget" where
  "eb_record p success eb =
     (if p = [] then (Inl ValueError, eb)
      else let eb' = eb_append p success eb
        in (Inr (eb_snapshot_locked eb' p (get_list (eb_outcomes eb') p)), eb'))"

definition eb_record_success :: "string \<Rightarrow> error_budget \<Rightarrow> error_budget_snapshot result \<times> error_budget" where
  "eb_record_success p eb = eb_record p True eb"

definition eb_record_failure :: "string \<Rightarrow> error_budget \<Rightarrow> error_budget_snapshot result \<times> error_budget" where
  "eb_record_failure p eb = eb_record p False eb"

definition eb_snapshot :: "error_budget \<Rightarrow> string \<Rightarrow> error_budget_snapshot option result" where
  "eb_snapshot eb p =
     (if p = [] then Inl ValueError
      else Inr (let window = get_list (eb_outcomes eb) p in
        if window = [] then None else Some (eb_snapshot_locked eb p window)))"

definition eb_should_shed :: "error_budget \<Rightarrow> string \<Rightarrow> bool result" where
  "eb_should_shed eb p = bind_result (eb_snapshot eb p)
     (\<lambda>snap. Inr (case snap of None \<Rightarrow> False | Some s \<Rightarrow> es_shed s))"

definition eb_assert_within_budget :: "error_budget \<Rightarrow> string \<Rightarrow> error_budget_snapshot option result" where
  "eb_assert_within_budget eb p = bind_result (eb_snapshot eb p)
     (\<lambda>snap. case snap of
        Some s \<Rightarrow> if eb_hard_gate eb \<and> es_shed s then Inl (ErrorBudgetExceededError (es_provider s)) else Inr snap
      | None \<Rightarrow> Inr snap)"

definition eb_clear :: "string option \<Rightarrow> error_budget \<Rightarrow> error_budget" where
  "eb_clear p eb = (case p of
      None \<Rightarrow> eb\<lparr> eb_outcomes := Map.empty \<rparr>
    | Some q \<Rightarrow> eb\<lparr> eb_outcomes := (eb_outcomes eb)(q := None) \<rparr>)"

text \<open>They all keep the end of each key's history.\<close>

interpretation latency: keyed_windows "\<lambda>ls. get_list (ls_observations ls)" ls_observe "\<lambda>_. 100"
  by unfold_locales (auto simp: ls_observe_def push_drop)

interpretation limited: keyed_windows "\<lambda>rs. get_list (rs_observations rs)" rs_observe rs_max_observations
  by unfold_locales (auto simp: rs_observe_def push_drop)

interpretation anomaly: keyed_windows "\<lambda>ca (_ :: unit). ca_observations ca" "\<lambda>_. ca_observe" ca_max_observations
  by unfold_locales (auto simp: ca_observe_def push_drop)

interpretation share: keyed_windows "\<lambda>sh (_ :: unit). sh_observations sh" "\<lambda>_. sh_observe" sh_lookback
  by unfold_locales (auto simp: sh_observe_def push_drop)

interpretation lslope: keyed_windows "\<lambda>lw. get_list (lw_samples lw)" lw_observe lw_window
  by unfold_locales (auto simp: lw_observe_def push_drop)

interpretation errors: keyed_windows "\<lambda>eb. get_list (eb_outcomes eb)" eb_append eb_window_size
  by unfold_locales (auto simp: eb_append_def push_drop)

subsection \<open>Properties\<close>

text \<open>The last \<open>n\<close> samples of a key in a history.\<close>

definition recent :: "nat \<Rightarrow> 'k \<Rightarrow> ('k \<times> 'a) list \<Rightarrow> 'a list" where
  "recent n k h = (let w = map snd (filter (\<lambda>(k', _). k' = k) h) in drop (length w - n) w)"

definition observe_latencies :: "(string \<times> rat) list \<Rightarrow> latency_stats" where
  "observe_latencies h = foldl (\<lambda>ls (p, ms). ls_observe p ms ls) \<lparr> ls_observations = Map.empty \<rparr> h"

lemma observe_latencies_window: "get_list (ls_observations (observe_latencies h)) p = recent 100 p h"
  using latency.window_puts [of "\<lparr> ls_observations = Map.empty \<rparr>" p h]
  by (simp add: latency.puts_def observe_latencies_def recent_def Let_def)

lemma length_recent: "length (recent n k h) \<le> n"
  by (simp add: recent_def Let_def)

lemma percentile_index:
  assumes "0 \<le> q" "q \<le> 1" "0 < n" "n < 2 ^ 53"
  shows "0 \<le> \<lfloor>fmul q (fint (n - 1))\<rfloor>" "\<lfloor>fmul q (fint (n - 1))\<rfloor> \<le> n - 1"
proof -
  have e: "fl (of_int (n - 1)) = of_int (n - 1)" by (rule fl_of_int) (use assms in simp)
  then have f: "fint (n - 1) = of_int (n - 1)" by (simp only: fint_def)
  show "0 \<le> \<lfloor>fmul q (fint (n - 1))\<rfloor>" using assms by (simp add: fmul_nonneg fint_nonneg)
  have "fmul q (fint (n - 1)) \<le> of_int (n - 1)"
    unfolding f fmul_def using assms fl_of_int [of "n - 1"] by (intro dbl.capped mult_left_le_one_le) auto
  then show "\<lfloor>fmul q (fint (n - 1))\<rfloor> \<le> n - 1"
    using floor_mono [of _ "of_int (n - 1) :: rat"] by (simp only: floor_of_int)
qed

lemma percentile_eq:
  assumes "0 \<le> q" "q \<le> 1" "xs \<noteq> []" "int (length xs) < 2 ^ 53"
  defines "i \<equiv> nat \<lfloor>fmul q (fint (int (length xs) - 1))\<rfloor>"
  shows "percentile q xs = sort xs ! i" "i < length (sort xs)"
proof -
  note b = percentile_index [of q "int (length xs)"]
  have "sort xs \<noteq> []" using assms(3) by (metis length_sort length_0_conv)
  moreover have "min (int (length xs) - 1) \<lfloor>fmul q (fint (int (length xs) - 1))\<rfloor> = \<lfloor>fmul q (fint (int (length xs) - 1))\<rfloor>"
    using b(2) assms by simp
  ultimately show "percentile q xs = sort xs ! i" by (simp add: percentile_def Let_def i_def)
  show "i < length (sort xs)" using b assms by (simp add: i_def nat_less_iff)
qed

lemma percentile_mem:
  "0 \<le> q \<Longrightarrow> q \<le> 1 \<Longrightarrow> xs \<noteq> [] \<Longrightarrow> int (length xs) < 2 ^ 53 \<Longrightarrow> percentile q xs \<in> set xs"
  using percentile_eq [of q xs] nth_mem [of _ "sort xs"] by (metis set_sort)

lemma percentile_mono:
  assumes "0 \<le> q" "q \<le> r" "r \<le> 1" "int (length xs) < 2 ^ 53"
  shows "percentile q xs \<le> percentile r xs"
proof (cases "xs = []")
  case False
  let ?n = "int (length xs)"
  have "fmul q (fint (?n - 1)) \<le> fmul r (fint (?n - 1))"
    using assms False by (intro fmul_mono fint_nonneg) (auto simp: Suc_le_eq)
  then have le: "nat \<lfloor>fmul q (fint (?n - 1))\<rfloor> \<le> nat \<lfloor>fmul r (fint (?n - 1))\<rfloor>"
    by (simp add: floor_mono nat_mono)
  have qr: "q \<le> 1" "0 \<le> r" using assms by linarith+
  note q = percentile_eq [OF assms(1) qr(1) False assms(4)]
    and r = percentile_eq [OF qr(2) assms(3) False assms(4)]
  show ?thesis unfolding q(1) r(1) using le r(2) by (intro sorted_nth_mono) auto
qed (simp add: percentile_def)

text \<open>
  C6. The latency percentiles of a provider are samples among its last 100 latencies, whatever was
  observed before and for other providers, and they are ordered: p50, p95, p99.
\<close>

theorem latency_percentiles:
  assumes "recent 100 p h \<noteq> []"
  shows "p50 (observe_latencies h) p \<le> p95 (observe_latencies h) p \<and>
    p95 (observe_latencies h) p \<le> p99 (observe_latencies h) p \<and>
    {p50 (observe_latencies h) p, p95 (observe_latencies h) p, p99 (observe_latencies h) p}
      \<subseteq> set (recent 100 p h)"
proof -
  have n: "int (length (recent 100 p h)) < 2 ^ 53" using length_recent [of 100 p h] by simp
  have q: "0 \<le> fl (1/2)" "fl (1/2) \<le> fl (95/100)" "fl (95/100) \<le> fl (99/100)" "fl (99/100) \<le> 1"
    by (auto intro!: fl_mono dbl.le_one dbl.nonneg)
  note q' = order.trans [OF q(1,2)] order.trans [OF q(2,3)] order.trans [OF q(3,4)]
  show ?thesis unfolding p50_def p95_def p99_def observe_latencies_window
    using q q' n assms by (auto intro!: percentile_mono percentile_mem)
qed

theorem latency_percentiles_witness:
  "p95 (observe_latencies [(''a'', 10), (''b'', 99), (''a'', 30)]) ''a'' \<in> {10, 30}"
proof -
  have "recent 100 ''a'' [(''a'', 10), (''b'', 99), (''a'', 30)] = [10, 30 :: rat]"
    by (simp add: recent_def)
  with latency_percentiles [of "''a''" "[(''a'', 10), (''b'', 99), (''a'', 30)]"] show ?thesis by simp
qed

definition record_outcomes :: "(string \<times> bool) list \<Rightarrow> error_budget \<Rightarrow> error_budget" where
  "record_outcomes h eb = foldl (\<lambda>eb (p, ok). snd (if ok then eb_record_success p eb else eb_record_failure p eb)) eb h"

lemma record_outcomes_eq:
  "\<forall>(p, _) \<in> set h. p \<noteq> [] \<Longrightarrow> record_outcomes h eb = errors.puts h eb"
  by (induction h rule: rev_induct)
     (auto simp: record_outcomes_def errors.puts_def eb_record_success_def eb_record_failure_def
        eb_record_def Let_def)

lemma eb_append_config [simp]:
  "eb_min_samples (eb_append p x eb) = eb_min_samples eb"
  "eb_error_budget_rate (eb_append p x eb) = eb_error_budget_rate eb"
  by (simp_all add: eb_append_def)

lemma eb_puts_config [simp]:
  "eb_min_samples (errors.puts h eb) = eb_min_samples eb"
  "eb_error_budget_rate (errors.puts h eb) = eb_error_budget_rate eb"
  by (induction h rule: rev_induct) (auto simp: errors.puts_snoc, simp_all add: errors.puts_def)

text \<open>
  Error-budget shedding is decided by the last \<open>window_size\<close> outcomes of the provider alone: it
  sheds exactly when they are at least \<open>min_samples\<close> and the rounded failure rate among them is
  above the budget, for every history of outcomes of any providers.
\<close>

theorem error_budget_sheds_on_recent_rate:
  assumes "make_error_budget window_size rate min_samples hard_gate = Inr eb"
    and "\<forall>(q, _) \<in> set h. q \<noteq> []" "p \<noteq> []"
  shows "eb_should_shed (record_outcomes h eb) p = Inr
    (let w = recent (nat window_size) p h; bad = int (length (filter Not w)) in
      min_samples \<le> int (length w) \<and> rate < idiv bad (int (length w)))"
proof -
  have eb: "eb_outcomes eb = Map.empty" "eb_window_size eb = nat window_size" "1 \<le> min_samples"
    "eb_min_samples eb = min_samples" "eb_error_budget_rate eb = rate"
    using assms(1) by (auto simp: make_error_budget_def split: if_splits)
  let ?w = "recent (nat window_size) p h"
  have "get_list (eb_outcomes (errors.puts h eb)) p = ?w"
    using errors.window_puts [of eb p h] by (simp add: eb recent_def Let_def)
  moreover have "int (length ?w) - int (length (filter id ?w)) = int (length (filter Not ?w))"
    using sum_length_filter_compl [of id ?w] by (simp add: o_def)
  ultimately show ?thesis using eb assms
    by (auto simp: record_outcomes_eq eb_should_shed_def eb_snapshot_def eb_snapshot_locked_def Let_def)
qed

theorem error_budget_sheds_on_recent_rate_witness:
  "eb_should_shed (record_outcomes [(''a'', False), (''b'', True), (''a'', False), (''a'', True)]
     \<lparr> eb_window_size = 3, eb_error_budget_rate = 1/2, eb_min_samples = 2, eb_hard_gate = False,
       eb_outcomes = Map.empty \<rparr>) ''a'' = Inr True"
proof -
  have "1/2 < idiv 2 3" by code_simp
  then show ?thesis
    by (subst error_budget_sheds_on_recent_rate [of 3 "1/2" 2 False])
       (simp_all add: make_error_budget_def recent_def)
qed

end
