(* ===== verification/Timed_Stats.thy ===== *)
theory Timed_Stats
  imports Windows
begin

text \<open>
  The statistics of \<open>src/router/strategies.py\<close> that depend on the clock or count without a window:
  the rolling spend, token and request windows, in-flight counters, success rates, decaying
  provider weights and Retry-After cooldowns. The locale \<open>timed_windows\<close> gives what a lazily pruned
  window contains in terms of the history of the key.
\<close>

subsection \<open>Lazily pruned windows\<close>

text \<open>Drop the oldest entries beyond a cap, if there is one.\<close>

definition trim :: "nat option \<Rightarrow> 'a list \<Rightarrow> 'a list" where
  "trim cap xs = (case cap of None \<Rightarrow> xs | Some n \<Rightarrow> drop (length xs - n) xs)"

definition prune_front :: "rat \<Rightarrow> (rat \<times> 'a) list \<Rightarrow> (rat \<times> 'a) list" where
  "prune_front cutoff es = dropWhile (\<lambda>(t, _). t < cutoff) es"

lemma sorted_takeWhile_less:
  "sorted (map fst h) \<Longrightarrow> c \<le> c' \<Longrightarrow>
   length (takeWhile (\<lambda>(t, _). t < c) h) \<le> length (takeWhile (\<lambda>(t, _). t < (c' :: rat)) h)"
  by (induction h) auto

lemma prune_front_drop:
  "sorted (map fst h) \<Longrightarrow>
   prune_front c (drop k h) = drop (max k (length (takeWhile (\<lambda>(t, _). t < c) h))) h"
proof (induction h arbitrary: k)
  case (Cons e es)
  show ?case
  proof (cases k)
    case 0
    then show ?thesis unfolding prune_front_def by (simp only: dropWhile_eq_drop drop_0 max_0L)
  next
    case (Suc j)
    have "takeWhile (\<lambda>(t, _). t < c) es = []" if "\<not> fst e < c"
      using that Cons.prems by (cases es) auto
    with Suc Cons show ?thesis by (auto simp: case_prod_beta')
  qed
qed (simp add: prune_front_def)

lemma prune_front_sorted:
  "sorted (map fst h) \<Longrightarrow> prune_front c h = filter (\<lambda>(t, _). c \<le> t) h"
proof (induction h)
  case (Cons e es)
  then show ?case by (cases "fst e < c") (auto simp: prune_front_def case_prod_beta' intro!: filter_True [symmetric])
qed (simp add: prune_front_def)

definition cap_start :: "nat option \<Rightarrow> nat \<Rightarrow> nat" where
  "cap_start cap n = (case cap of None \<Rightarrow> 0 | Some k \<Rightarrow> n - k)"

lemma trim_drop: "m \<le> length h \<Longrightarrow> trim cap (drop m h) = drop (max m (cap_start cap (length h))) h"
proof (cases cap)
  case (Some n)
  assume m: "m \<le> length h"
  show ?thesis
  proof (cases "m \<le> length h - n")
    case True
    then have "length h - m - n + m = length h - n" by simp
    with Some True show ?thesis by (simp add: trim_def cap_start_def)
  next
    case False
    with Some show ?thesis by (simp add: trim_def cap_start_def)
  qed
qed (simp add: trim_def cap_start_def)

text \<open>On a sorted history, pruning and trimming a trimmed suffix loses nothing.\<close>

lemma prune_trim:
  assumes "sorted (map fst h)" "c \<le> c'"
  shows "trim cap (prune_front c' (trim cap (prune_front c h))) = trim cap (prune_front c' h)"
proof -
  define m where "m x = length (takeWhile (\<lambda>(t, _). t < (x :: rat)) h)" for x
  define a where "a = cap_start cap (length h)"
  have pf: "prune_front x (drop k h) = drop (max k (m x)) h" for x k
    using prune_front_drop [OF assms(1)] by (simp add: m_def)
  have le: "m x \<le> length h" "a \<le> length h" for x
    by (simp_all add: m_def a_def cap_start_def length_takeWhile_le split: option.splits)
  have tr: "k \<le> length h \<Longrightarrow> trim cap (drop k h) = drop (max k a) h" for k
    by (simp add: trim_drop a_def)
  have "m c \<le> m c'" using assms by (simp add: m_def sorted_takeWhile_less)
  then have "trim cap (prune_front c' (trim cap (prune_front c (drop 0 h)))) = drop (max (m c') a) h"
    using le by (simp only: pf tr max_0L) (simp add: pf tr max_def)
  moreover have "trim cap (prune_front c' (drop 0 h)) = drop (max (m c') a) h"
    using le by (simp only: pf tr max_0L)
  ultimately show ?thesis by simp
qed

lemma trim_snoc:
  assumes "sorted (map fst (h @ [e]))" "c \<le> c'"
  shows "trim cap (prune_front c' (trim cap (prune_front c h) @ [e])) = trim cap (prune_front c' (h @ [e]))"
proof -
  define m where "m x l = length (takeWhile (\<lambda>(t, _). t < (x :: rat)) l)" for x and l :: "(rat \<times> 'a) list"
  define k where "k = max (m c h) (cap_start cap (length h))"
  have s: "sorted (map fst h)" using assms(1) by (simp add: sorted_append)
  have m: "m c h \<le> length h" "m c' (h @ [e]) \<le> length (h @ [e])" "m c h \<le> m c' (h @ [e])"
  proof -
    show "m c h \<le> length h" "m c' (h @ [e]) \<le> length (h @ [e])" by (simp_all only: m_def length_takeWhile_le)
    have "m c h \<le> m c' h" using s assms(2) by (simp add: m_def sorted_takeWhile_less)
    also have "m c' h \<le> m c' (h @ [e])" using length_takeWhile_le [of _ h] by (auto simp: m_def takeWhile_append le_SucI)
    finally show "m c h \<le> m c' (h @ [e])" .
  qed
  have "prune_front c h = drop (m c h) h" using prune_front_drop [OF s, of c 0] by (simp add: m_def)
  then have "trim cap (prune_front c h) @ [e] = drop k (h @ [e])"
    using m(1) by (simp add: trim_drop k_def cap_start_def split: option.splits)
  then have "trim cap (prune_front c' (trim cap (prune_front c h) @ [e])) =
      drop (max (max k (m c' (h @ [e]))) (cap_start cap (length (h @ [e])))) (h @ [e])"
    using m prune_front_drop [OF assms(1), of c' k]
    by (simp only: m_def [symmetric]) (rule trim_drop, simp add: k_def cap_start_def split: option.splits)
  also have "max (max k (m c' (h @ [e]))) (cap_start cap (length (h @ [e]))) =
      max (m c' (h @ [e])) (cap_start cap (length (h @ [e])))"
    using m(3) by (auto simp: k_def cap_start_def split: option.splits)
  also have "drop \<dots> (h @ [e]) = trim cap (prune_front c' (h @ [e]))"
    using prune_front_drop [OF assms(1), of c' 0]
    by (simp only: m_def [symmetric] drop_0 max_0L) (rule trim_drop [OF m(2), symmetric])
  finally show ?thesis .
qed

text \<open>
  \<open>entries s k\<close> is the window of \<open>k\<close>; an event writes a sample or only reads, at an instant.
\<close>

locale timed_windows =
  fixes entries :: "'s \<Rightarrow> string \<Rightarrow> (rat \<times> 'a) list"
    and store :: "rat \<Rightarrow> string \<Rightarrow> 'a \<Rightarrow> 's \<Rightarrow> 's"
    and read :: "rat \<Rightarrow> string \<Rightarrow> 's \<Rightarrow> 's"
    and span :: "'s \<Rightarrow> rat"
    and cap :: "'s \<Rightarrow> nat option"
  assumes store_own: "entries (store now k x s) k =
      trim (cap s) (prune_front (fsub now (span s)) (entries s k @ [(now, x)]))"
    and read_own: "entries (read now k s) k = trim (cap s) (prune_front (fsub now (span s)) (entries s k))"
    and store_other: "k' \<noteq> k \<Longrightarrow> entries (store now k x s) k' = entries s k'"
    and read_other: "k' \<noteq> k \<Longrightarrow> entries (read now k s) k' = entries s k'"
    and store_config: "span (store now k x s) = span s" "cap (store now k x s) = cap s"
    and read_config: "span (read now k s) = span s" "cap (read now k s) = cap s"
begin

fun event :: "rat \<times> string \<times> 'a option \<Rightarrow> 's \<Rightarrow> 's" where
  "event (now, k, Some x) s = store now k x s"
| "event (now, k, None) s = read now k s"

definition events :: "(rat \<times> string \<times> 'a option) list \<Rightarrow> 's \<Rightarrow> 's" where
  "events es s = foldl (\<lambda>s e. event e s) s es"

definition written :: "string \<Rightarrow> (rat \<times> string \<times> 'a option) list \<Rightarrow> (rat \<times> 'a) list" where
  "written k es = concat (map (\<lambda>(t, k', x). case x of
     Some y \<Rightarrow> if k' = k then [(t, y)] else [] | None \<Rightarrow> []) es)"

lemma events_snoc: "events (es @ [e]) s = event e (events es s)"
  by (simp add: events_def)

lemma events_config: "span (events es s) = span s \<and> cap (events es s) = cap s"
proof (induction es rule: rev_induct)
  case (snoc e es)
  then show ?case by (cases "(e, events es s)" rule: event.cases) (simp_all add: events_snoc store_config read_config)
qed (simp add: events_def)

lemma written_snoc: "written k (es @ [(t, k', x)]) =
  written k es @ (case x of Some y \<Rightarrow> if k' = k then [(t, y)] else [] | None \<Rightarrow> [])"
  by (simp add: written_def)

lemma written_times: "u \<in> set (map fst (written k es)) \<Longrightarrow> u \<in> set (map fst es)"
  by (induction es) (auto simp: written_def split: option.splits if_splits)

lemma written_sorted: "sorted (map fst es) \<Longrightarrow> sorted (map fst (written k es))"
proof (induction es rule: rev_induct)
  case (snoc e es)
  obtain t k' x where e: "e = (t, k', x)" by (cases e)
  have "\<forall>u \<in> set (map fst es). u \<le> t" using snoc.prems by (auto simp: e sorted_append)
  then have "\<forall>u \<in> set (map fst (written k es)). u \<le> t" using written_times by blast
  with snoc show ?case by (auto simp: e written_snoc sorted_append split: option.splits)
qed (simp add: written_def)

text \<open>Every window is the pruned history at some cutoff no later than the last event's.\<close>

lemma entries_events:
  assumes "sorted (map fst es)" "entries s k = []"
  shows "\<exists>c. (\<forall>t. (\<forall>u \<in> set (map fst es). u \<le> t) \<longrightarrow> es \<noteq> [] \<longrightarrow> c \<le> fsub t (span s)) \<and>
    (written k es = [] \<or> es \<noteq> []) \<and>
    entries (events es s) k = (if written k es = [] then [] else trim (cap s) (prune_front c (written k es)))"
  using assms(1)
proof (induction es rule: rev_induct)
  case Nil
  then show ?case using assms(2) by (auto simp: events_def written_def)
next
  case (snoc e es)
  obtain t k' x where e: "e = (t, k', x)" by (cases e)
  from snoc have srt: "sorted (map fst es)" by (simp add: sorted_append)
  from snoc.IH [OF this] obtain c where c:
    "\<forall>u. (\<forall>v \<in> set (map fst es). v \<le> u) \<longrightarrow> es \<noteq> [] \<longrightarrow> c \<le> fsub u (span s)"
    "entries (events es s) k = (if written k es = [] then [] else trim (cap s) (prune_front c (written k es)))"
    by blast
  have last: "\<forall>v \<in> set (map fst es). v \<le> t" using snoc.prems by (auto simp: e sorted_append)
  have ct: "es \<noteq> [] \<Longrightarrow> c \<le> fsub t (span s)" using c(1) last by blast
  have late: "fsub t (span s) \<le> fsub u (span s)" if "t \<le> u" for u
    using that by (simp add: fsub_def fl_mono)
  note cfg = events_config [of es s]
  have wsort: "sorted (map fst (written k (es @ [e])))" using snoc.prems by (rule written_sorted)
  have ne: "written k es \<noteq> [] \<Longrightarrow> es \<noteq> []" by (auto simp: written_def)
  show ?case
  proof (cases "k' = k")
    case False
    then have "entries (events (es @ [e]) s) k = entries (events es s) k" "written k (es @ [e]) = written k es"
      by (cases x; simp add: e events_snoc store_other read_other written_snoc)+
    moreover have "c \<le> fsub u (span s)" if "\<forall>v \<in> set (map fst (es @ [e])). v \<le> u" "es \<noteq> []" for u
      using that c(1) by auto
    ultimately show ?thesis using c(2) ne
      by (cases "written k es = []") (auto intro: exI [of _ c] exI [of _ "fsub t (span s)"] simp: late e)
  next
    case True
    let ?c = "fsub t (span s)"
    have "entries (events (es @ [e]) s) k =
        (if written k (es @ [e]) = [] then [] else trim (cap s) (prune_front ?c (written k (es @ [e]))))"
    proof (cases x)
      case None
      then show ?thesis using c(2) cfg ct ne prune_trim [OF written_sorted [OF srt], of c ?c "cap s"]
        by (auto simp: e True events_snoc read_own written_snoc prune_front_def trim_def split: option.splits)
    next
      case (Some y)
      then have w: "written k (es @ [e]) = written k es @ [(t, y)]" by (simp add: e True written_snoc)
      show ?thesis
      proof (cases "written k es = []")
        case True
        with c(2) w Some \<open>k' = k\<close> cfg show ?thesis by (simp add: e events_snoc store_own)
      next
        case False
        with trim_snoc [OF wsort [unfolded w] ct, of "cap s"] ne c(2) Some w \<open>k' = k\<close> cfg
        show ?thesis by (simp add: e events_snoc store_own)
      qed
    qed
    then show ?thesis using late by (auto simp: e intro!: exI [of _ ?c])
  qed
qed

text \<open>A read now finds exactly the samples that are not older than the span, newest \<open>cap\<close> of them.\<close>

lemma read_window:
  assumes "sorted (map fst es @ [now])" "entries s k = []"
  shows "entries (read now k (events es s)) k =
    trim (cap s) (filter (\<lambda>(t, _). fsub now (span s) \<le> t) (written k es))"
proof -
  have "sorted (map fst (es @ [(now, k, None :: 'a option)]))" using assms(1) by simp
  then have srt: "sorted (map fst es)" by (simp add: sorted_append)
  from entries_events [OF this assms(2)] obtain c where c:
    "\<forall>t. (\<forall>u \<in> set (map fst es). u \<le> t) \<longrightarrow> es \<noteq> [] \<longrightarrow> c \<le> fsub t (span s)"
    "entries (events es s) k = (if written k es = [] then [] else trim (cap s) (prune_front c (written k es)))"
    by blast
  show ?thesis
  proof (cases "written k es = []")
    case True
    then show ?thesis using c events_config [of es s]
      by (auto simp: read_own prune_front_def trim_def split: option.splits)
  next
    case False
    then have "es \<noteq> []" by (auto simp: written_def)
    with c(1) assms(1) have "c \<le> fsub now (span s)" by (auto simp: sorted_append)
    with False c(2) events_config [of es s] prune_trim [OF written_sorted [OF srt], of c "fsub now (span s)" "cap s"]
    show ?thesis by (simp add: read_own prune_front_sorted [OF written_sorted [OF srt]])
  qed
qed

end

subsection \<open>The windows of the program\<close>

text \<open>\<open>FamilySpendWindow\<close>, \<open>ProviderHourlySpendWindow\<close> and \<open>TokenRpmWindow\<close> keep the same state.\<close>

record 'a entry_window =
  ew_window_seconds :: rat
  ew_entries :: "string \<rightharpoonup> (rat \<times> 'a) list"

text \<open>\<open>_prune\<close>: an emptied window is removed from the dict.\<close>

definition prune_entries :: "string \<Rightarrow> rat \<Rightarrow> 'a entry_window \<Rightarrow> 'a entry_window" where
  "prune_entries key now ew =
     (let cutoff = fsub now (ew_window_seconds ew);
          es = prune_front cutoff (get_list (ew_entries ew) key)
      in ew\<lparr> ew_entries := (if es = [] then (ew_entries ew)(key := None) else (ew_entries ew)(key \<mapsto> es)) \<rparr>)"

definition append_entry :: "rat \<Rightarrow> string \<Rightarrow> 'a \<Rightarrow> 'a entry_window \<Rightarrow> 'a entry_window" where
  "append_entry now key x ew =
     ew\<lparr> ew_entries := (ew_entries ew)(key \<mapsto> get_list (ew_entries ew) key @ [(now, x)]) \<rparr>"

definition make_family_spend_window :: "rat \<Rightarrow> rat entry_window result" where
  "make_family_spend_window seconds = (if seconds \<le> 0 then Inl ValueError
     else Inr \<lparr> ew_window_seconds = seconds, ew_entries = Map.empty \<rparr>)"

definition fam_prune :: "string \<Rightarrow> rat \<Rightarrow> rat entry_window \<Rightarrow> rat entry_window" where
  "fam_prune family now ew = prune_entries family now ew"

definition fam_record :: "rat \<Rightarrow> string \<Rightarrow> rat \<Rightarrow> rat entry_window \<Rightarrow> rat entry_window" where
  "fam_record now family amount ew = fam_prune family now (append_entry now family amount ew)"

definition family_spend :: "rat \<Rightarrow> string \<Rightarrow> rat entry_window \<Rightarrow> rat \<times> rat entry_window" where
  "family_spend now family ew =
     (let ew' = fam_prune family now ew in (fsum (map snd (get_list (ew_entries ew') family)), ew'))"

definition fam_is_over_budget :: "rat \<Rightarrow> string \<Rightarrow> rat \<Rightarrow> rat entry_window \<Rightarrow> bool \<times> rat entry_window" where
  "fam_is_over_budget now family budget ew =
     (let (spend, ew') = family_spend now family ew in (budget < spend, ew'))"

definition make_hourly_spend_window :: "rat \<Rightarrow> rat entry_window result" where
  "make_hourly_spend_window seconds = (if seconds \<le> 0 then Inl ValueError
     else Inr \<lparr> ew_window_seconds = seconds, ew_entries = Map.empty \<rparr>)"

definition hourly_prune :: "string \<Rightarrow> rat \<Rightarrow> rat entry_window \<Rightarrow> rat entry_window" where
  "hourly_prune provider now ew = prune_entries provider now ew"

definition hourly_record :: "rat \<Rightarrow> string \<Rightarrow> rat \<Rightarrow> rat entry_window \<Rightarrow> rat entry_window" where
  "hourly_record now provider amount ew = hourly_prune provider now (append_entry now provider amount ew)"

definition provider_spend :: "rat \<Rightarrow> string \<Rightarrow> rat entry_window \<Rightarrow> rat \<times> rat entry_window" where
  "provider_spend now provider ew =
     (let ew' = hourly_prune provider now ew in (fsum (map snd (get_list (ew_entries ew') provider)), ew'))"

definition is_over_ceiling :: "rat \<Rightarrow> string \<Rightarrow> rat \<Rightarrow> rat entry_window \<Rightarrow> bool \<times> rat entry_window" where
  "is_over_ceiling now provider limit ew =
     (let (spend, ew') = provider_spend now provider ew in (limit < spend, ew'))"

definition make_token_rpm_window :: "rat \<Rightarrow> int entry_window result" where
  "make_token_rpm_window seconds = (if seconds \<le> 0 then Inl ValueError
     else Inr \<lparr> ew_window_seconds = seconds, ew_entries = Map.empty \<rparr>)"

definition rpm_prune :: "string \<Rightarrow> rat \<Rightarrow> int entry_window \<Rightarrow> int entry_window" where
  "rpm_prune provider now ew = prune_entries provider now ew"

definition rpm_record :: "rat \<Rightarrow> string \<Rightarrow> int \<Rightarrow> int entry_window \<Rightarrow> unit result \<times> int entry_window" where
  "rpm_record now provider tokens ew =
     (if tokens < 0 then (Inl ValueError, ew)
      else (Inr (), rpm_prune provider now (append_entry now provider tokens ew)))"

definition provider_tokens :: "rat \<Rightarrow> string \<Rightarrow> int entry_window \<Rightarrow> int \<times> int entry_window" where
  "provider_tokens now provider ew =
     (let ew' = rpm_prune provider now ew in (sum_list (map snd (get_list (ew_entries ew') provider)), ew'))"

definition would_exceed :: "rat \<Rightarrow> string \<Rightarrow> int \<Rightarrow> int \<Rightarrow> int entry_window \<Rightarrow> bool \<times> int entry_window" where
  "would_exceed now provider tokens limit ew =
     (let (used, ew') = provider_tokens now provider ew in (limit < used + tokens, ew'))"

text \<open>\<open>TierRequestStats\<close>: timestamps only, and at most \<open>max_timestamps\<close> of them.\<close>

record tier_request_stats =
  tr_window_seconds :: rat
  tr_max_timestamps :: nat
  tr_timestamps :: "string \<rightharpoonup> rat list"

definition make_tier_request_stats :: "rat \<Rightarrow> int \<Rightarrow> tier_request_stats result" where
  "make_tier_request_stats seconds max_ts =
     (if seconds \<le> 0 then Inl ValueError
      else if max_ts < 1 then Inl ValueError
      else Inr \<lparr> tr_window_seconds = seconds, tr_max_timestamps = nat max_ts, tr_timestamps = Map.empty \<rparr>)"

definition tier_prune :: "string \<Rightarrow> rat \<Rightarrow> tier_request_stats \<Rightarrow> tier_request_stats" where
  "tier_prune p now tr = (case tr_timestamps tr p of
      None \<Rightarrow> tr
    | Some ts \<Rightarrow>
        (let cutoff = fsub now (tr_window_seconds tr);
             kept = dropWhile (\<lambda>t. t < cutoff) ts;
             n = tr_max_timestamps tr
         in tr\<lparr> tr_timestamps := (tr_timestamps tr)(p \<mapsto>
              if length kept > n then drop (length kept - n) kept else kept) \<rparr>))"

definition tier_record :: "rat \<Rightarrow> string \<Rightarrow> tier_request_stats \<Rightarrow> tier_request_stats" where
  "tier_record now p tr =
     tier_prune p now (tr\<lparr> tr_timestamps := (tr_timestamps tr)(p \<mapsto> get_list (tr_timestamps tr) p @ [now]) \<rparr>)"

definition request_count :: "rat \<Rightarrow> string \<Rightarrow> tier_request_stats \<Rightarrow> int \<times> tier_request_stats" where
  "request_count now p tr =
     (let tr' = tier_prune p now tr in (int (length (get_list (tr_timestamps tr') p)), tr'))"

definition saturation_fraction :: "rat \<Rightarrow> string \<Rightarrow> int \<Rightarrow> tier_request_stats \<Rightarrow> rat result \<times> tier_request_stats" where
  "saturation_fraction now p rpm_limit tr =
     (if rpm_limit < 1 then (Inl ValueError, tr)
      else let (n, tr') = request_count now p tr in (Inr (idiv n rpm_limit), tr'))"

definition is_under_limit :: "rat \<Rightarrow> string \<Rightarrow> int \<Rightarrow> tier_request_stats \<Rightarrow> bool \<times> tier_request_stats" where
  "is_under_limit now p rpm_limit tr = (let (n, tr') = request_count now p tr in (n < rpm_limit, tr'))"

lemma prune_entries_get:
  "get_list (ew_entries (prune_entries k now ew)) k' =
    (if k' = k then prune_front (fsub now (ew_window_seconds ew)) (get_list (ew_entries ew) k)
     else get_list (ew_entries ew) k')"
  "ew_window_seconds (prune_entries k now ew) = ew_window_seconds ew"
  by (simp_all add: prune_entries_def Let_def)

lemma append_entry_get:
  "get_list (ew_entries (append_entry now k x ew)) k' =
    (if k' = k then get_list (ew_entries ew) k @ [(now, x)] else get_list (ew_entries ew) k')"
  "ew_window_seconds (append_entry now k x ew) = ew_window_seconds ew"
  by (simp_all add: append_entry_def)

lemmas entry_window_get = prune_entries_get append_entry_get trim_def

interpretation fam: timed_windows "\<lambda>ew. get_list (ew_entries ew)" fam_record
  "\<lambda>now k. fam_prune k now" ew_window_seconds "\<lambda>_. None"
  by unfold_locales (simp_all add: fam_record_def fam_prune_def entry_window_get)

interpretation hourly: timed_windows "\<lambda>ew. get_list (ew_entries ew)" hourly_record
  "\<lambda>now k. hourly_prune k now" ew_window_seconds "\<lambda>_. None"
  by unfold_locales (simp_all add: hourly_record_def hourly_prune_def entry_window_get)

interpretation rpm: timed_windows "\<lambda>ew. get_list (ew_entries ew)"
  "\<lambda>now k x ew. rpm_prune k now (append_entry now k x ew)" "\<lambda>now k. rpm_prune k now"
  ew_window_seconds "\<lambda>_. None"
  by unfold_locales (simp_all add: rpm_prune_def entry_window_get)

definition stamped :: "tier_request_stats \<Rightarrow> string \<Rightarrow> (rat \<times> unit) list" where
  "stamped tr p = map (\<lambda>t. (t, ())) (get_list (tr_timestamps tr) p)"

lemma dropWhile_stamped:
  "dropWhile (\<lambda>(t, _). t < c) (map (\<lambda>t. (t, ())) ts) = map (\<lambda>t. (t, ())) (dropWhile (\<lambda>t. t < c) ts)"
  by (simp add: dropWhile_map o_def)

lemma tier_prune_stamped:
  "stamped (tier_prune p now tr) q = (if q = p
    then trim (Some (tr_max_timestamps tr)) (prune_front (fsub now (tr_window_seconds tr)) (stamped tr p))
    else stamped tr q)"
  "tr_window_seconds (tier_prune p now tr) = tr_window_seconds tr"
  "tr_max_timestamps (tier_prune p now tr) = tr_max_timestamps tr"
  by (auto simp: tier_prune_def stamped_def prune_front_def trim_def dropWhile_stamped drop_map
      get_list_def Let_def split: option.splits)

interpretation tier: timed_windows stamped "\<lambda>now p (_ :: unit). tier_record now p"
  "\<lambda>now p. tier_prune p now" tr_window_seconds "\<lambda>tr. Some (tr_max_timestamps tr)"
  by unfold_locales (simp_all add: tier_record_def tier_prune_stamped, simp_all add: stamped_def)

subsection \<open>Counters, weights and cooldowns\<close>

text \<open>\<open>InflightStats\<close>\<close>

record inflight_stats = if_inflight :: "string \<rightharpoonup> int"

definition load_score :: "inflight_stats \<Rightarrow> string \<Rightarrow> int" where
  "load_score fs p = (case if_inflight fs p of None \<Rightarrow> 0 | Some n \<Rightarrow> n)"

definition if_begin :: "string \<Rightarrow> inflight_stats \<Rightarrow> inflight_stats" where
  "if_begin p fs = fs\<lparr> if_inflight := (if_inflight fs)(p \<mapsto> load_score fs p + 1) \<rparr>"

definition if_finish :: "string \<Rightarrow> inflight_stats \<Rightarrow> inflight_stats" where
  "if_finish p fs = (let current = load_score fs p in
     if current \<le> 1 then fs\<lparr> if_inflight := (if_inflight fs)(p := None) \<rparr>
     else fs\<lparr> if_inflight := (if_inflight fs)(p \<mapsto> current - 1) \<rparr>)"

definition tenant_provider_key :: "string \<Rightarrow> string \<Rightarrow> string" where
  "tenant_provider_key tenant p = ''tenant:'' @ tenant @ ''|provider:'' @ p"

definition begin_for_tenant :: "string \<Rightarrow> string \<Rightarrow> inflight_stats \<Rightarrow> inflight_stats" where
  "begin_for_tenant tenant p fs = if_begin (tenant_provider_key tenant p) fs"

definition finish_for_tenant :: "string \<Rightarrow> string \<Rightarrow> inflight_stats \<Rightarrow> inflight_stats" where
  "finish_for_tenant tenant p fs = if_finish (tenant_provider_key tenant p) fs"

definition tenant_load_score :: "inflight_stats \<Rightarrow> string \<Rightarrow> string \<Rightarrow> int" where
  "tenant_load_score fs tenant p = load_score fs (tenant_provider_key tenant p)"

text \<open>\<open>SuccessStats\<close>\<close>

record success_stats =
  ss_successes :: "(string \<times> int) list"
  ss_attempts :: "(string \<times> int) list"

definition get_count :: "(string \<times> int) list \<Rightarrow> string \<Rightarrow> int" where
  "get_count m p = (case map_of m p of None \<Rightarrow> 0 | Some n \<Rightarrow> n)"

definition ss_observe :: "string \<Rightarrow> bool \<Rightarrow> success_stats \<Rightarrow> success_stats" where
  "ss_observe p success ss =
     (let ss1 = ss\<lparr> ss_attempts := AList.update p (get_count (ss_attempts ss) p + 1) (ss_attempts ss) \<rparr>
      in if success
         then ss1\<lparr> ss_successes := AList.update p (get_count (ss_successes ss1) p + 1) (ss_successes ss1) \<rparr>
         else ss1)"

definition success_rate :: "success_stats \<Rightarrow> string \<Rightarrow> rat" where
  "success_rate ss p = (let attempts = get_count (ss_attempts ss) p in
     if attempts = 0 then 1 else idiv (get_count (ss_successes ss) p) attempts)"

definition total_successes :: "success_stats \<Rightarrow> int" where
  "total_successes ss = sum_list (map snd (ss_successes ss))"

text \<open>\<open>ProviderWeightStats\<close>\<close>

record weight_stats =
  ws_decay_factor :: rat
  ws_recover :: rat
  ws_weights :: "string \<rightharpoonup> rat"

definition make_weight_stats :: "rat \<Rightarrow> rat \<Rightarrow> weight_stats result" where
  "make_weight_stats decay recover =
     (if \<not> (0 < decay \<and> decay \<le> 1) then Inl ValueError
      else if recover < 0 then Inl ValueError
      else Inr \<lparr> ws_decay_factor = decay, ws_recover = recover, ws_weights = Map.empty \<rparr>)"

definition ws_weight :: "weight_stats \<Rightarrow> string \<Rightarrow> rat" where
  "ws_weight ws p = (case ws_weights ws p of None \<Rightarrow> 1 | Some w \<Rightarrow> w)"

definition ws_observe :: "string \<Rightarrow> bool \<Rightarrow> weight_stats \<Rightarrow> weight_stats" where
  "ws_observe p success ws = (let current = ws_weight ws p in
     ws\<lparr> ws_weights := (ws_weights ws)(p \<mapsto>
       if success then min 1 (fadd current (ws_recover ws)) else fmul current (ws_decay_factor ws)) \<rparr>)"

text \<open>\<open>ProviderRetryAfterCooldown\<close>\<close>

record retry_cooldown =
  rc_default_seconds :: rat
  rc_until :: "string \<rightharpoonup> rat"

definition make_retry_cooldown :: "rat \<Rightarrow> retry_cooldown result" where
  "make_retry_cooldown seconds = (if seconds < 0 then Inl ValueError
     else Inr \<lparr> rc_default_seconds = seconds, rc_until = Map.empty \<rparr>)"

definition set_cooldown :: "rat \<Rightarrow> string \<Rightarrow> rat option \<Rightarrow> retry_cooldown \<Rightarrow> retry_cooldown" where
  "set_cooldown now p seconds rc =
     (let wait = (case seconds of None \<Rightarrow> rc_default_seconds rc | Some s \<Rightarrow> max 0 s)
      in rc\<lparr> rc_until := (rc_until rc)(p \<mapsto> fadd now wait) \<rparr>)"

definition rc_clear :: "string \<Rightarrow> retry_cooldown \<Rightarrow> retry_cooldown" where
  "rc_clear p rc = rc\<lparr> rc_until := (rc_until rc)(p := None) \<rparr>"

definition remaining_seconds :: "rat \<Rightarrow> string \<Rightarrow> retry_cooldown \<Rightarrow> rat" where
  "remaining_seconds now p rc = (case rc_until rc p of
     None \<Rightarrow> 0 | Some until \<Rightarrow> max 0 (fsub until now))"

definition is_cooling_down :: "rat \<Rightarrow> string \<Rightarrow> retry_cooldown \<Rightarrow> bool" where
  "is_cooling_down now p rc \<longleftrightarrow> 0 < remaining_seconds now p rc"

subsection \<open>Properties\<close>

text \<open>
  C7. The hourly spend of a provider at any instant is the left-to-right float sum of exactly the
  amounts recorded for it in the last \<open>window_seconds\<close>, for any earlier interleaving of writes and
  reads of all providers with a non-decreasing clock: lazy pruning loses nothing and keeps nothing
  stale.
\<close>

fun spend_event :: "rat entry_window \<Rightarrow> rat \<times> string \<times> rat option \<Rightarrow> rat entry_window" where
  "spend_event ew (now, p, Some amount) = hourly_record now p amount ew"
| "spend_event ew (now, p, None) = snd (provider_spend now p ew)"

definition amounts_since :: "rat \<Rightarrow> string \<Rightarrow> (rat \<times> string \<times> rat option) list \<Rightarrow> rat list" where
  "amounts_since cutoff p es = concat (map (\<lambda>(t, q, a). case a of
     Some x \<Rightarrow> if q = p \<and> cutoff \<le> t then [x] else [] | None \<Rightarrow> []) es)"

lemma amounts_since_eq:
  "map snd (filter (\<lambda>(t, _). c \<le> t) (hourly.written p es)) = amounts_since c p es"
  by (induction es) (auto simp: hourly.written_def amounts_since_def split: option.splits)

lemma spend_events_eq: "foldl spend_event ew es = hourly.events es ew"
proof (induction es rule: rev_induct)
  case (snoc e es)
  then show ?case
    by (cases "(ew, e)" rule: spend_event.cases) (auto simp: hourly.events_snoc provider_spend_def Let_def)
qed (simp add: hourly.events_def)

theorem hourly_spend_is_recent_spend:
  assumes "make_hourly_spend_window seconds = Inr ew" "sorted (map fst es @ [now])"
  shows "fst (provider_spend now p (foldl spend_event ew es)) =
    fsum (amounts_since (fsub now seconds) p es)"
proof -
  have ew: "ew_window_seconds ew = seconds" "get_list (ew_entries ew) p = []"
    using assms(1) by (auto simp: make_hourly_spend_window_def split: if_splits)
  show ?thesis using hourly.read_window [OF assms(2) ew(2)]
    by (simp add: provider_spend_def Let_def spend_events_eq ew trim_def amounts_since_eq)
qed

theorem hourly_spend_is_recent_spend_witness:
  "fst (provider_spend 20 ''a'' (foldl spend_event \<lparr> ew_window_seconds = 10, ew_entries = Map.empty \<rparr>
     [(5, ''a'', Some 3), (12, ''b'', Some 7), (14, ''a'', Some 2), (15, ''a'', None)])) = 2"
  by (subst hourly_spend_is_recent_spend [of 10])
     (simp_all add: make_hourly_spend_window_def amounts_since_def fsum_def fadd_def fsub_def fl_numeral)

text \<open>
  Tier rate limiting counts the requests of the last minute up to its cap: at any instant and
  after any non-decreasing interleaving, the count of a provider is the number of its requests in
  the window, or \<open>max_timestamps\<close> if there are more.
\<close>

fun tier_event :: "tier_request_stats \<Rightarrow> rat \<times> string \<times> unit option \<Rightarrow> tier_request_stats" where
  "tier_event tr (now, p, Some _) = tier_record now p tr"
| "tier_event tr (now, p, None) = snd (request_count now p tr)"

definition requests_since :: "rat \<Rightarrow> string \<Rightarrow> (rat \<times> string \<times> unit option) list \<Rightarrow> nat" where
  "requests_since cutoff p es = length (filter (\<lambda>(t, q, a). a \<noteq> None \<and> q = p \<and> cutoff \<le> t) es)"

lemma requests_since_eq:
  "length (filter (\<lambda>(t, _). c \<le> t) (tier.written p es)) = requests_since c p es"
  by (induction es) (auto simp: tier.written_def requests_since_def split: option.splits if_split_asm)

lemma tier_events_eq: "foldl tier_event tr es = tier.events es tr"
proof (induction es rule: rev_induct)
  case (snoc e es)
  then show ?case
    by (cases "(tr, e)" rule: tier_event.cases) (auto simp: tier.events_snoc request_count_def Let_def)
qed (simp add: tier.events_def)

theorem tier_count_is_recent_count:
  assumes "make_tier_request_stats seconds max_ts = Inr tr" "sorted (map fst es @ [now])"
  shows "fst (request_count now p (foldl tier_event tr es)) =
    min max_ts (int (requests_since (fsub now seconds) p es))"
proof -
  have tr: "tr_window_seconds tr = seconds" "stamped tr p = []" "tr_max_timestamps tr = nat max_ts" "1 \<le> max_ts"
    using assms(1) by (auto simp: make_tier_request_stats_def stamped_def split: if_splits)
  have "length (stamped (tier_prune p now (tier.events es tr)) p) =
      min (nat max_ts) (requests_since (fsub now seconds) p es)"
    unfolding tier.read_window [OF assms(2) tr(2)]
    by (simp add: tr trim_def requests_since_eq min_def)
  with tr(4) show ?thesis
    by (simp add: request_count_def Let_def tier_events_eq stamped_def)
qed

theorem tier_count_is_recent_count_witness:
  "fst (request_count 100 ''a'' (foldl tier_event
     \<lparr> tr_window_seconds = 60, tr_max_timestamps = 500, tr_timestamps = Map.empty \<rparr>
     [(5, ''a'', Some ()), (50, ''a'', Some ()), (60, ''b'', Some ()), (70, ''a'', None)])) = 1"
  by (subst tier_count_is_recent_count [of 60 500])
     (simp_all add: make_tier_request_stats_def requests_since_def fsub_def fl_numeral)

text \<open>Begins minus finishes of a key, defined while no finish comes before its begin.\<close>

fun balance :: "string \<Rightarrow> (string \<times> bool) list \<Rightarrow> int option" where
  "balance p [] = Some 0"
| "balance p ((q, is_begin) # h) = (case balance p h of
      None \<Rightarrow> None
    | Some n \<Rightarrow> if q \<noteq> p then Some n else if is_begin then Some (n + 1)
               else if 0 < n then Some (n - 1) else None)"

definition inflight_run :: "(string \<times> bool) list \<Rightarrow> inflight_stats" where
  "inflight_run h = foldr (\<lambda>(p, is_begin) fs. if is_begin then if_begin p fs else if_finish p fs) h
     \<lparr> if_inflight = Map.empty \<rparr>"

lemma load_score_begin [simp]: "load_score (if_begin p fs) q = (if q = p then load_score fs p + 1 else load_score fs q)"
  by (simp add: load_score_def if_begin_def)

lemma load_score_finish [simp]:
  "load_score (if_finish p fs) q =
    (if q = p then if load_score fs p \<le> 1 then 0 else load_score fs p - 1 else load_score fs q)"
  by (auto simp: load_score_def if_finish_def Let_def)

text \<open>
  C8. The in-flight counter of a provider is the number of its attempts that have begun and not
  finished, for every interleaving of all providers in which a finish follows its begin (the
  history is newest first).
\<close>

theorem inflight_counts_open_attempts:
  assumes "balance p h = Some n" shows "load_score (inflight_run h) p = n"
proof -
  have "balance p h = Some n \<Longrightarrow> 0 \<le> n \<and> load_score (inflight_run h) p = n" for n
    by (induction h arbitrary: n rule: balance.induct)
       (auto simp: inflight_run_def load_score_def [of "\<lparr> if_inflight = Map.empty \<rparr>"]
          split: option.splits if_splits)
  with assms show ?thesis by blast
qed

theorem inflight_counts_open_attempts_witness:
  "load_score (inflight_run [(''a'', False), (''b'', True), (''a'', True), (''a'', True)]) ''a'' = 1"
  by (rule inflight_counts_open_attempts) simp

text \<open>The weights of any reachable state stay usable as selection weights.\<close>

definition weights_ok :: "weight_stats \<Rightarrow> bool" where
  "weights_ok ws \<longleftrightarrow> 0 < ws_decay_factor ws \<and> ws_decay_factor ws \<le> 1 \<and> 0 \<le> ws_recover ws \<and>
     (\<forall>p. 0 \<le> ws_weight ws p \<and> ws_weight ws p \<le> 1)"

lemma ws_observe_weight:
  "ws_weight (ws_observe q success ws) p = (if p = q
    then if success then min 1 (fadd (ws_weight ws p) (ws_recover ws)) else fmul (ws_weight ws p) (ws_decay_factor ws)
    else ws_weight ws p)"
  by (simp add: ws_observe_def Let_def ws_weight_def)

lemma weights_ok_observe [inv_intros]: "weights_ok ws \<Longrightarrow> weights_ok (ws_observe q success ws)"
proof -
  assume ok: "weights_ok ws"
  have "fmul (ws_weight ws p) (ws_decay_factor ws) \<le> 1" for p
    unfolding fmul_def using ok by (intro dbl.le_one mult_le_one) (auto simp: weights_ok_def)
  moreover have "ws_decay_factor (ws_observe q success ws) = ws_decay_factor ws"
    "ws_recover (ws_observe q success ws) = ws_recover ws" by (simp_all add: ws_observe_def Let_def)
  ultimately show ?thesis using ok
    by (auto simp: weights_ok_def ws_observe_weight fmul_nonneg fadd_nonneg less_imp_le)
qed

lemma make_weight_stats_ok [inv_intros]: "make_weight_stats d r = Inr ws \<Longrightarrow> weights_ok ws"
  by (auto simp: make_weight_stats_def weights_ok_def ws_weight_def split: if_splits)

end
