(* ===== verification/Strategies.thy ===== *)
theory Strategies
  imports Strategy_Base Circuit_Breaker Timed_Stats
begin

text \<open>
  Routing strategies of \<open>src/router/strategies.py\<close> that decide from the request, the catalog and the
  statistics without changing them. The statistics objects a strategy holds are arguments, and the
  health view is the predicate \<open>healthy\<close> on providers (\<open>is_available\<close> of the circuit breaker at the
  instant of the decision). Each strategy keeps the contract of \<open>Strategy_Base\<close> by interpretation.
\<close>

subsection \<open>Rule based and classifier\<close>

definition rule_based_choose :: "catalog \<Rightarrow> router_request \<Rightarrow> task_signals \<Rightarrow> routing_decision result" where
  "rule_based_choose cat r s = (let pick = decision ''rule-based'' cat in
     if ts_domain_tag s = Medical
     then pick ANTHROPIC_SAFETY_MODEL [Lit ''medical domain requires highest safety prior'']
     else if ts_domain_tag s = Legal
     then pick ANTHROPIC_SAFETY_MODEL [Lit ''legal domain favors Claude policy reasoning'']
     else if ts_domain_tag s = Code \<and> fl (55/100) \<le> ts_complexity_score s
     then pick OPENAI_FRONTIER_MODEL [Lit ''complex code prompt favors GPT-6 Astra quality'']
     else if ts_complexity_score s \<le> fl (35/100) \<and> ts_latency_requirement s = Realtime
     then pick GEMINI_FLASH_MODEL [Lit ''simple realtime prompt favors low latency'']
     else (case rq_requested_model r of
         Some m \<Rightarrow> if m \<noteq> [] \<and> m \<in> fst ` set cat
                  then pick m [Lit ''explicit compatible model request honored'']
                  else pick OPENAI_BALANCED_MODEL [Lit ''general prompt routed to balanced low-cost model'']
       | None \<Rightarrow> pick OPENAI_BALANCED_MODEL [Lit ''general prompt routed to balanced low-cost model'']))"

definition classifier_choose :: "catalog \<Rightarrow> router_request \<Rightarrow> task_signals \<Rightarrow> routing_decision result" where
  "classifier_choose cat r s = (let pick = decision ''classifier'' cat in
     if fl (8/10) \<le> ts_complexity_score s
     then pick ANTHROPIC_SAFETY_MODEL [Lit ''classifier marked task high complexity'']
     else if ts_domain_tag s = Code
     then pick OPENAI_FRONTIER_MODEL [Lit ''classifier detected code domain'']
     else if ts_complexity_score s \<le> fl (4/10)
     then pick MOONSHOT_BALANCED_MODEL [Lit ''classifier marked task simple and cost-sensitive'']
     else pick OPENAI_BALANCED_MODEL [Lit ''classifier selected balanced middle tier''])"

subsection \<open>Cost, latency and their Pareto front\<close>

definition cost_optimal_feasible :: "rat \<Rightarrow> catalog \<Rightarrow> task_signals \<Rightarrow> model_candidate list" where
  "cost_optimal_feasible quality_floor cat s = filter (\<lambda>c. quality_floor \<le> mc_quality_score c \<and>
      ts_domain_tag s \<in> mc_supports_domains c \<and>
      (mc_supports_realtime c \<or> ts_latency_requirement s = Batch)) (catalog_values cat)"

definition cost_optimal_choose ::
  "rat \<Rightarrow> catalog \<Rightarrow> router_request \<Rightarrow> task_signals \<Rightarrow> routing_decision result" where
  "cost_optimal_choose quality_floor cat r s =
     (case min_by (cost_of r s) (cost_optimal_feasible quality_floor cat s) of
        None \<Rightarrow> bind_result (of_opt ValueError (max_by mc_quality_score (catalog_values cat)))
          (\<lambda>best. decision ''cost-optimal'' cat (mc_model best)
             [Lit ''quality floor forced highest-quality fallback''])
      | Some c \<Rightarrow> decision ''cost-optimal'' cat (mc_model c)
          [Lit ''LP objective minimized estimated cost $'', Fixed 6 (cost_of r s c),
           Lit '' with quality floor '', Fixed 2 quality_floor])"

definition latency_aware_score :: "latency_stats \<Rightarrow> router_request \<Rightarrow> task_signals \<Rightarrow> model_candidate \<Rightarrow> rat" where
  "latency_aware_score ls r s c =
     fadd (fadd (p95 ls (mc_provider c)) (fmul (fsub 1 (mc_quality_score c)) 1000))
          (fmul (cost_of r s c) 1000)"

definition latency_aware_choose ::
  "latency_stats \<Rightarrow> catalog \<Rightarrow> router_request \<Rightarrow> task_signals \<Rightarrow> routing_decision result" where
  "latency_aware_choose ls cat r s =
     (case min_by (latency_aware_score ls r s) (supporting_domain cat s) of
        None \<Rightarrow> bind_result (of_opt ValueError (max_by mc_quality_score (catalog_values cat)))
          (\<lambda>best. decision ''latency-aware'' cat (mc_model best)
             [Lit ''no model supports requested domain; latency-aware fell back to highest-quality model''])
      | Some c \<Rightarrow> decision ''latency-aware'' cat (mc_model c)
          [Lit ''latency-aware score favored provider p95='', Fixed 1 (p95 ls (mc_provider c)), Lit ''ms''])"

text \<open>\<open>other\<close> is no worse in both objectives and better in one.\<close>

definition dominates :: "(model_candidate \<Rightarrow> rat) \<Rightarrow> (model_candidate \<Rightarrow> rat) \<Rightarrow>
    model_candidate \<Rightarrow> model_candidate \<Rightarrow> bool" where
  "dominates cost lat d c \<longleftrightarrow> mc_model d \<noteq> mc_model c \<and> cost d \<le> cost c \<and> lat d \<le> lat c \<and>
     (cost d < cost c \<or> lat d < lat c)"

definition pareto_front :: "(model_candidate \<Rightarrow> rat) \<Rightarrow> (model_candidate \<Rightarrow> rat) \<Rightarrow>
    model_candidate list \<Rightarrow> model_candidate list" where
  "pareto_front cost lat cs = filter (\<lambda>c. \<not> list_ex (\<lambda>d. dominates cost lat d c) cs) cs"

definition cost_latency_pareto_choose ::
  "latency_stats \<Rightarrow> catalog \<Rightarrow> router_request \<Rightarrow> task_signals \<Rightarrow> routing_decision result" where
  "cost_latency_pareto_choose ls cat r s =
     (let cs = eligible cat s;
          cost = by_model (cost_of r s) cs;
          lat = by_model (\<lambda>c. p95 ls (mc_provider c)) cs;
          front = pareto_front cost lat cs
      in bind_result (of_opt ValueError
           (min_by (\<lambda>c. (- mc_quality_score c, cost c, lat c, mc_model c)) front))
         (\<lambda>c. decision ''cost-latency-pareto'' cat (mc_model c)
           [Lit ''cost-latency-pareto selected non-dominated candidate '', Str (mc_model c),
            Lit '' (est $'', Fixed 6 (cost c), Lit '', provider p95 '', Fixed 1 (lat c),
            Lit ''ms, quality '', Fixed 2 (mc_quality_score c), Lit ''; front size '',
            IntF (int (length front)), Lit '')'']))"

subsection \<open>Load and concurrency\<close>

definition load_ordered_candidates :: "inflight_stats \<Rightarrow> catalog \<Rightarrow> router_request \<Rightarrow> task_signals \<Rightarrow> model_candidate list" where
  "load_ordered_candidates fs cat r s =
     sorted_by (\<lambda>c. (load_score fs (mc_provider c), - mc_quality_score c, cost_of r s c, mc_model c))
       (eligible cat s)"

definition least_busy_choose ::
  "inflight_stats \<Rightarrow> catalog \<Rightarrow> router_request \<Rightarrow> task_signals \<Rightarrow> routing_decision result" where
  "least_busy_choose fs cat r s =
     (case load_ordered_candidates fs cat r s of
        [] \<Rightarrow> Inl IndexError
      | c # cs \<Rightarrow> Inr (decide ''least-busy'' c
          [Lit ''least-busy selected provider '', Str (mc_provider c), Lit '' with load '',
           IntF (load_score fs (mc_provider c)), Lit ''; picked highest-quality eligible model '',
           Str (mc_model c), Lit '' (quality '', Fixed 2 (mc_quality_score c), Lit '', est $'',
           Fixed 6 (cost_of r s c), Lit '')''] cs))"

definition cap_fallback_candidates :: "inflight_stats \<Rightarrow> int \<Rightarrow> string \<Rightarrow> model_candidate list \<Rightarrow>
    router_request \<Rightarrow> task_signals \<Rightarrow> model_candidate list" where
  "cap_fallback_candidates fs cap chosen cs r s =
     sorted_by (\<lambda>c. (cap \<le> load_score fs (mc_provider c), - mc_quality_score c, cost_of r s c, mc_model c))
       (without chosen cs)"

definition concurrency_cap_choose ::
  "inflight_stats \<Rightarrow> int \<Rightarrow> catalog \<Rightarrow> router_request \<Rightarrow> task_signals \<Rightarrow> routing_decision result" where
  "concurrency_cap_choose fs cap cat r s =
     (let cs = eligible cat s;
          under = filter (\<lambda>c. load_score fs (mc_provider c) < cap) cs;
          load = (\<lambda>c. load_score fs (mc_provider c));
          finish = (\<lambda>c ra. decide ''concurrency-cap'' c ra (cap_fallback_candidates fs cap (mc_model c) cs r s))
      in case max_by (\<lambda>c. (mc_quality_score c, - cost_of r s c, mc_model c)) under of
           Some c \<Rightarrow> Inr (finish c
             [Lit ''concurrency-cap selected below cap '', IntF cap, Lit ''; '', Str (mc_provider c),
              Lit '' load '', IntF (load c), Lit ''/'', IntF cap,
              Lit '' with highest eligible quality '', Fixed 2 (mc_quality_score c)])
         | None \<Rightarrow> bind_result (of_opt ValueError
             (min_by (\<lambda>c. (load c, - mc_quality_score c, cost_of r s c, mc_model c)) cs))
             (\<lambda>c. Inr (finish c
                [Lit ''concurrency-cap found every eligible provider at or above cap '', IntF cap,
                 Lit ''; routed to least-loaded fallback '', Str (mc_provider c), Lit '' load '',
                 IntF (load c), Lit ''/'', IntF cap])))"

definition make_concurrency_cap :: "int \<Rightarrow> int result" where
  "make_concurrency_cap cap = (if cap < 1 then Inl ValueError else Inr cap)"

subsection \<open>Health and rate limits\<close>

text \<open>\<open>[c for c in pool if is_available(c.provider)] or pool\<close>\<close>

definition healthy_first :: "(string \<Rightarrow> bool) \<Rightarrow> model_candidate list \<Rightarrow> model_candidate list" where
  "healthy_first healthy cs = or_else (filter (\<lambda>c. healthy (mc_provider c)) cs) cs"

definition reliability_fallback_chain :: "(string \<Rightarrow> bool) \<Rightarrow> catalog \<Rightarrow> string \<Rightarrow> string list" where
  "reliability_fallback_chain healthy cat chosen =
     first_models (sorted_by (\<lambda>c. (\<not> healthy (mc_provider c), - mc_quality_score c))
       (without chosen (catalog_values cat)))"

definition reliability_aware_choose ::
  "(string \<Rightarrow> bool) \<Rightarrow> catalog \<Rightarrow> router_request \<Rightarrow> task_signals \<Rightarrow> routing_decision result" where
  "reliability_aware_choose healthy cat r s =
     (let domain_candidates = eligible cat s;
          healthy_candidates = filter (\<lambda>c. healthy (mc_provider c)) domain_candidates
      in bind_result (of_opt ValueError
           (max_by (\<lambda>c. (mc_quality_score c, - cost_of r s c)) (or_else healthy_candidates domain_candidates)))
         (\<lambda>c. bind_result (catalog_get cat (mc_model c)) (\<lambda>k. Inr
           \<lparr> rd_chosen_model = mc_model c, rd_provider = mc_provider k,
             rd_routing_strategy = ''reliability-aware'',
             rd_rationale = (if healthy_candidates \<noteq> []
               then [Lit ''reliability-aware selected healthy provider '', Str (mc_provider c),
                     Lit '' (quality '', Fixed 2 (mc_quality_score c), Lit '')'']
               else [Lit ''reliability-aware found no healthy provider for the domain; routed to the highest-quality candidate'']),
             rd_fallback_chain = reliability_fallback_chain healthy cat (mc_model c) \<rparr>)))"

definition rate_limit_ordered_candidates ::
  "(string \<Rightarrow> bool) \<Rightarrow> rate_limit_stats \<Rightarrow> router_request \<Rightarrow> task_signals \<Rightarrow> model_candidate list \<Rightarrow> model_candidate list" where
  "rate_limit_ordered_candidates healthy rs r s cs =
     (let primary = healthy_first healthy cs;
          rest = filter (\<lambda>c. c \<notin> set primary) cs;
          key = (\<lambda>c. (rate_limit_count rs (mc_provider c), rate_limit_rate rs (mc_provider c),
                      - mc_quality_score c, cost_of r s c, mc_model c))
      in sorted_by key primary @ sorted_by key rest)"

definition soft_rate_limit_choose ::
  "(string \<Rightarrow> bool) \<Rightarrow> rate_limit_stats \<Rightarrow> catalog \<Rightarrow> router_request \<Rightarrow> task_signals \<Rightarrow> routing_decision result" where
  "soft_rate_limit_choose healthy rs cat r s =
     (let ordered = rate_limit_ordered_candidates healthy rs r s (eligible cat s) in
      case ordered of
        [] \<Rightarrow> Inl IndexError
      | c # cs \<Rightarrow> Inr (decide ''soft-rate-limit'' c
          [Lit ''soft-rate-limit selected provider '', Str (mc_provider c), Lit '' with '',
           IntF (rate_limit_count rs (mc_provider c)), Lit '' recent rate-limit hit(s) ('',
           Percent 2 (rate_limit_rate rs (mc_provider c)), Lit ''); '',
           Lit (if list_ex (\<lambda>c. healthy (mc_provider c)) ordered
                then ''healthy providers considered first''
                else ''no healthy providers; using soft rate-limit ordering''),
           Lit ''; picked '', Str (mc_model c), Lit '' (quality '', Fixed 2 (mc_quality_score c),
           Lit '', est $'', Fixed 6 (cost_of r s c), Lit '')''] cs))"

subsection \<open>Every strategy keeps the contract\<close>

named_theorems strategy_defs \<open>definitions of the strategies\<close>

lemma eligible_value: "c \<in> set (eligible cat s) \<Longrightarrow> c \<in> set (catalog_values cat)"
  using eligible_sub by blast

lemma supporting_eligible: "supporting_domain cat s \<noteq> [] \<Longrightarrow> eligible cat s = supporting_domain cat s"
  by (simp add: eligible_def or_else_def)

lemma supporting_value: "c \<in> set (supporting_domain cat s) \<Longrightarrow> c \<in> set (catalog_values cat)"
  by (simp add: supporting_domain_def)

lemma min_by_Some: "xs \<noteq> [] \<Longrightarrow> \<exists>m. min_by f xs = Some m \<and> m \<in> set xs"
  by (metis min_by_None min_by_in not_None_eq)

lemma max_by_Some: "xs \<noteq> [] \<Longrightarrow> \<exists>m. max_by f xs = Some m \<and> m \<in> set xs"
  by (metis max_by_None max_by_in not_None_eq)

interpretation rule_based: routing_strategy rule_based_choose
  by unfold_locales (auto simp: rule_based_choose_def Let_def intro: decision_Inr split: if_splits option.splits)

interpretation classifier: routing_strategy classifier_choose
  by unfold_locales (auto simp: classifier_choose_def Let_def intro: decision_Inr split: if_splits)

text \<open>The decision of a selected value of the catalog always exists.\<close>

lemma decision_value:
  "wf_catalog cat \<Longrightarrow> c \<in> set (catalog_values cat) \<Longrightarrow> \<exists>d. decision name cat (mc_model c) ra = Inr d"
  by (intro decision_total value_model_in)

interpretation cost_optimal: total_strategy "cost_optimal_choose q" for q
proof
  fix cat r s d
  assume wf: "wf_catalog cat"
  show "cost_optimal_choose q cat r s = Inr d \<Longrightarrow> decision_ok cat d"
    using wf by (auto simp: cost_optimal_choose_def bind_result_Inr intro: decision_Inr split: option.splits)
  obtain best where best: "max_by mc_quality_score (catalog_values cat) = Some best" "best \<in> set (catalog_values cat)"
    using max_by_Some [OF values_nonempty [OF wf]] by blast
  show "\<exists>d. cost_optimal_choose q cat r s = Inr d"
  proof (cases "min_by (cost_of r s) (cost_optimal_feasible q cat s)")
    case None
    then show ?thesis using decision_value [OF wf best(2)] best(1) by (auto simp: cost_optimal_choose_def)
  next
    case (Some c)
    then have "c \<in> set (catalog_values cat)" by (auto dest: min_by_in simp: cost_optimal_feasible_def)
    with Some show ?thesis using decision_value [OF wf] by (simp add: cost_optimal_choose_def)
  qed
qed

interpretation latency_aware: total_strategy "latency_aware_choose ls" for ls
proof
  fix cat r s d
  assume wf: "wf_catalog cat"
  show "latency_aware_choose ls cat r s = Inr d \<Longrightarrow> decision_ok cat d"
    using wf by (auto simp: latency_aware_choose_def bind_result_Inr intro: decision_Inr split: option.splits)
  obtain best where best: "max_by mc_quality_score (catalog_values cat) = Some best" "best \<in> set (catalog_values cat)"
    using max_by_Some [OF values_nonempty [OF wf]] by blast
  show "\<exists>d. latency_aware_choose ls cat r s = Inr d"
  proof (cases "min_by (latency_aware_score ls r s) (supporting_domain cat s)")
    case None
    then show ?thesis using decision_value [OF wf best(2)] best(1) by (auto simp: latency_aware_choose_def)
  next
    case (Some c)
    then have "c \<in> set (catalog_values cat)" by (auto dest: min_by_in supporting_value)
    with Some show ?thesis using decision_value [OF wf] by (simp add: latency_aware_choose_def)
  qed
qed

text \<open>A candidate that is lexicographically least in cost and latency is on the front.\<close>

lemma pareto_front_nonempty:
  assumes "cs \<noteq> []" shows "pareto_front cost lat cs \<noteq> []"
proof -
  obtain m where m: "min_by (\<lambda>c. (cost c, lat c)) cs = Some m" "m \<in> set cs"
    using min_by_Some [OF assms] by blast
  have "\<not> dominates cost lat d m" if "d \<in> set cs" for d
    using min_by_le [OF m(1) that] by (auto simp: dominates_def)
  with m(2) have "m \<in> set (pareto_front cost lat cs)" by (auto simp: pareto_front_def list_ex_iff)
  then show ?thesis by auto
qed

lemma pareto_front_sub: "set (pareto_front cost lat cs) \<subseteq> set cs"
  by (simp add: pareto_front_def)

interpretation pareto: total_strategy "cost_latency_pareto_choose ls" for ls
proof
  fix cat r s d
  assume wf: "wf_catalog cat"
  show "cost_latency_pareto_choose ls cat r s = Inr d \<Longrightarrow> decision_ok cat d"
    using wf by (auto simp: cost_latency_pareto_choose_def Let_def bind_result_Inr intro: decision_Inr)
  let ?c = "by_model (cost_of r s) (eligible cat s)"
  let ?l = "by_model (\<lambda>c. p95 ls (mc_provider c)) (eligible cat s)"
  obtain c where c: "min_by (\<lambda>c. (- mc_quality_score c, ?c c, ?l c, mc_model c))
      (pareto_front ?c ?l (eligible cat s)) = Some c" "c \<in> set (pareto_front ?c ?l (eligible cat s))"
    using min_by_Some [OF pareto_front_nonempty [OF eligible_nonempty [OF wf]]] by blast
  from c(2) have "c \<in> set (catalog_values cat)" using pareto_front_sub eligible_sub by blast
  from decision_value [OF wf this] c(1)
  show "\<exists>d. cost_latency_pareto_choose ls cat r s = Inr d"
    by (simp add: cost_latency_pareto_choose_def Let_def)
qed

interpretation least_busy: total_strategy "least_busy_choose fs" for fs
proof
  fix cat r s d
  assume wf: "wf_catalog cat"
  have "set (load_ordered_candidates fs cat r s) \<subseteq> set (catalog_values cat)"
    "distinct (map mc_model (load_ordered_candidates fs cat r s))"
    using wf eligible_sub by (simp_all add: load_ordered_candidates_def sorted_models)
  then show "least_busy_choose fs cat r s = Inr d \<Longrightarrow> decision_ok cat d"
    using wf by (auto simp: least_busy_choose_def intro!: decide_tail_ok split: list.splits)
  have "load_ordered_candidates fs cat r s \<noteq> []" using wf by (simp add: load_ordered_candidates_def)
  then show "\<exists>d. least_busy_choose fs cat r s = Inr d" by (auto simp: least_busy_choose_def split: list.splits)
qed

lemma cap_decision_ok:
  "wf_catalog cat \<Longrightarrow> c \<in> set (eligible cat s) \<Longrightarrow>
   decision_ok cat (decide name c ra (cap_fallback_candidates fs cap (mc_model c) (eligible cat s) r s))"
  unfolding cap_fallback_candidates_def by (intro decide_sorted_ok eligible_sub) auto

interpretation concurrency_cap: total_strategy "concurrency_cap_choose fs cap" for fs cap
proof
  fix cat r s d
  assume wf: "wf_catalog cat"
  show "concurrency_cap_choose fs cap cat r s = Inr d \<Longrightarrow> decision_ok cat d"
    by (auto simp: concurrency_cap_choose_def Let_def bind_result_Inr intro!: cap_decision_ok [OF wf]
        dest: max_by_in min_by_in split: option.splits)
  show "\<exists>d. concurrency_cap_choose fs cap cat r s = Inr d"
    using min_by_Some [OF eligible_nonempty [OF wf]]
    by (auto simp: concurrency_cap_choose_def Let_def bind_result_Inr split: option.splits)
qed

lemma healthy_first_sub: "set (healthy_first healthy cs) \<subseteq> set cs"
  by (auto simp: healthy_first_def or_else_def)

lemma reliability_fallback_ok:
  assumes "wf_catalog cat"
  shows "m \<notin> set (reliability_fallback_chain h cat m)" "set (reliability_fallback_chain h cat m) \<subseteq> fst ` set cat"
    "distinct (reliability_fallback_chain h cat m)" "length (reliability_fallback_chain h cat m) \<le> 3"
proof -
  let ?cs = "sorted_by (\<lambda>c. (\<not> h (mc_provider c), - mc_quality_score c)) (without m (catalog_values cat))"
  have sub: "set ?cs \<subseteq> set (catalog_values cat)" by (auto simp: without_def)
  show "m \<notin> set (reliability_fallback_chain h cat m)"
    by (auto simp: reliability_fallback_chain_def first_models_def without_def dest: in_set_takeD)
  show "set (reliability_fallback_chain h cat m) \<subseteq> fst ` set cat" "length (reliability_fallback_chain h cat m) \<le> 3"
    unfolding reliability_fallback_chain_def using first_models_ok [OF sub assms] by auto
  show "distinct (reliability_fallback_chain h cat m)" unfolding reliability_fallback_chain_def
    using assms by (intro distinct_first_models) (simp add: sorted_models without_def distinct_filter_models values_distinct)
qed

interpretation reliability: total_strategy "reliability_aware_choose h" for h
proof
  fix cat r s d
  assume wf: "wf_catalog cat"
  show "decision_ok cat d" if d: "reliability_aware_choose h cat r s = Inr d"
  proof -
    from d obtain m k where "map_of cat m = Some k" "rd_chosen_model d = m" "rd_provider d = mc_provider k"
      "rd_fallback_chain d = reliability_fallback_chain h cat m"
      by (auto simp: reliability_aware_choose_def Let_def bind_result_Inr catalog_get_def)
    with reliability_fallback_ok [OF wf, where m = m and h = h] show ?thesis
      by (simp add: decision_ok_def)
  qed
  let ?pool = "or_else (filter (\<lambda>c. h (mc_provider c)) (eligible cat s)) (eligible cat s)"
  have "?pool \<noteq> []" using wf by simp
  then obtain c where c: "max_by (\<lambda>c. (mc_quality_score c, - cost_of r s c)) ?pool = Some c" "c \<in> set ?pool"
    using max_by_Some by blast
  have "c \<in> set (catalog_values cat)" using c(2) eligible_sub by (auto simp: or_else_def split: if_splits)
  from map_of_values [OF wf this] c(1) show "\<exists>d. reliability_aware_choose h cat r s = Inr d"
    by (simp add: reliability_aware_choose_def Let_def catalog_get_def)
qed

lemma rate_limit_ordered_mset:
  "mset (rate_limit_ordered_candidates h rs r s cs) = mset (healthy_first h cs)
     + mset (filter (\<lambda>c. c \<notin> set (healthy_first h cs)) cs)"
  by (simp add: rate_limit_ordered_candidates_def Let_def)

lemma healthy_first_rest: "mset (healthy_first h cs) + mset (filter (\<lambda>c. c \<notin> set (healthy_first h cs)) cs) = mset cs"
proof (cases "filter (\<lambda>c. h (mc_provider c)) cs = []")
  case True
  then show ?thesis by (simp add: healthy_first_def or_else_def)
next
  case False
  then have "healthy_first h cs = filter (\<lambda>c. h (mc_provider c)) cs" by (simp add: healthy_first_def or_else_def)
  moreover have "filter (\<lambda>c. c \<notin> set (filter (\<lambda>c. h (mc_provider c)) cs)) cs = filter (\<lambda>c. \<not> h (mc_provider c)) cs"
    by (rule filter_cong) auto
  moreover have "mset (filter P cs) + mset (filter (\<lambda>c. \<not> P c) cs) = mset cs" for P
    by (induction cs) auto
  ultimately show ?thesis by (simp only:)
qed

lemma rate_limit_ordered_perm: "mset (rate_limit_ordered_candidates h rs r s cs) = mset cs"
  by (simp only: rate_limit_ordered_mset healthy_first_rest)

interpretation soft_rate_limit: total_strategy "soft_rate_limit_choose h rs" for h rs
proof
  fix cat r s d
  assume wf: "wf_catalog cat"
  let ?o = "rate_limit_ordered_candidates h rs r s (eligible cat s)"
  have perm: "mset ?o = mset (eligible cat s)" by (rule rate_limit_ordered_perm)
  have sub: "set ?o \<subseteq> set (catalog_values cat)" using mset_eq_setD [OF perm] eligible_sub by simp
  have dis: "distinct (map mc_model ?o)" using distinct_mset_models [OF perm] wf by simp
  show "soft_rate_limit_choose h rs cat r s = Inr d \<Longrightarrow> decision_ok cat d"
    using sub dis wf by (auto simp: soft_rate_limit_choose_def Let_def intro!: decide_tail_ok split: list.splits)
  have "?o \<noteq> []" using perm wf by (metis eligible_nonempty mset_zero_iff)
  then show "\<exists>d. soft_rate_limit_choose h rs cat r s = Inr d"
    by (auto simp: soft_rate_limit_choose_def Let_def split: list.splits)
qed

subsection \<open>Properties\<close>

lemma decision_of_value:
  assumes "wf_catalog cat" "c \<in> set (catalog_values cat)"
  shows "\<exists>d. decision name cat (mc_model c) ra = Inr d \<and> map_of cat (rd_chosen_model d) = Some c"
  using decision_value [OF assms, of name ra] map_of_values [OF assms] by (metis decision_chosen)

text \<open>What a model has to offer for cost-optimal routing\<close>

definition meets_requirements :: "rat \<Rightarrow> task_signals \<Rightarrow> model_candidate \<Rightarrow> bool" where
  "meets_requirements quality_floor s c \<longleftrightarrow> quality_floor \<le> mc_quality_score c \<and>
     ts_domain_tag s \<in> mc_supports_domains c \<and> (ts_latency_requirement s = Realtime \<longrightarrow> mc_supports_realtime c)"

lemma feasible_iff:
  assumes "wf_catalog cat"
  shows "c \<in> set (cost_optimal_feasible quality_floor cat s) \<longleftrightarrow>
    map_of cat (mc_model c) = Some c \<and> meets_requirements quality_floor s c"
  using map_of_values [OF assms] map_of_SomeD [of cat "mc_model c" c]
  by (cases "ts_latency_requirement s") (force simp: cost_optimal_feasible_def meets_requirements_def catalog_values_def)+

text \<open>
  C9. Cost-optimal routing solves its optimisation problem exactly: when some model of the catalog
  meets the quality floor, the domain and the latency requirement, the decision exists, names such a
  model, and no other model that meets them has a lower estimated cost.
\<close>

theorem cost_optimal_is_optimal:
  assumes "wf_catalog cat" "map_of cat (mc_model k) = Some k" "meets_requirements quality_floor s k"
  shows "\<exists>d c. cost_optimal_choose quality_floor cat r s = Inr d \<and>
    map_of cat (rd_chosen_model d) = Some c \<and> meets_requirements quality_floor s c \<and>
    estimate_cost c (ts_prompt_tokens_estimate s) (rq_max_tokens r)
      \<le> estimate_cost k (ts_prompt_tokens_estimate s) (rq_max_tokens r)"
proof -
  have k: "k \<in> set (cost_optimal_feasible quality_floor cat s)" using assms by (simp add: feasible_iff)
  then have "cost_optimal_feasible quality_floor cat s \<noteq> []" by auto
  then obtain c where c: "min_by (cost_of r s) (cost_optimal_feasible quality_floor cat s) = Some c"
    "c \<in> set (cost_optimal_feasible quality_floor cat s)" using min_by_Some by blast
  have "c \<in> set (catalog_values cat)" "meets_requirements quality_floor s c"
    using c(2) by (auto simp: cost_optimal_feasible_def meets_requirements_def)
  with decision_of_value [OF assms(1)] c(1) min_by_le [OF c(1) k] show ?thesis
    by (fastforce simp: cost_optimal_choose_def cost_of_def)
qed

definition demo_request :: router_request where
  "demo_request = \<lparr> rq_request_id = ''r'', rq_messages = [\<lparr> cm_role = ''user'', cm_content = ''hi'' \<rparr>],
     rq_api_key_id = ''k'', rq_user_id = ''u'', rq_session_id = ''s'', rq_requested_model = None,
     rq_strategy = None, rq_token_budget = 1000, rq_region = None, rq_max_tokens = 100,
     rq_stream = False, rq_metadata = [] \<rparr>"

definition demo_signals :: task_signals where
  "demo_signals = \<lparr> ts_complexity_score = 1/2, ts_domain_tag = General, ts_latency_requirement = Batch,
     ts_token_budget = 1000, ts_prompt_tokens_estimate = 50 \<rparr>"

lemma demo_eligible:
  "default_model_catalog \<noteq> []" "(k, c) \<in> set default_model_catalog \<Longrightarrow> c \<in> set (eligible default_model_catalog demo_signals)"
  by (auto simp: default_model_catalog_def eligible_def supporting_domain_def or_else_def catalog_values_def demo_signals_def)

lemma demo_feasible:
  obtains k where "map_of default_model_catalog (mc_model k) = Some k" "meets_requirements 0 demo_signals k"
proof -
  have "cost_optimal_feasible 0 default_model_catalog demo_signals \<noteq> []"
    by (simp add: cost_optimal_feasible_def default_model_catalog_def catalog_values_def demo_signals_def dbl.nonneg)
  then obtain k where "k \<in> set (cost_optimal_feasible 0 default_model_catalog demo_signals)" by (meson hd_in_set)
  then show thesis using that feasible_iff [OF default_catalog_wf] by blast
qed

theorem cost_optimal_is_optimal_witness:
  "\<exists>d. cost_optimal_choose 0 default_model_catalog demo_request demo_signals = Inr d"
  by (rule demo_feasible) (use cost_optimal_is_optimal [OF default_catalog_wf] in blast)

text \<open>\<open>k\<close> is at least as good as \<open>c\<close> in cost and latency, and better in one\<close>

definition pareto_better :: "latency_stats \<Rightarrow> router_request \<Rightarrow> task_signals \<Rightarrow> model_candidate \<Rightarrow> model_candidate \<Rightarrow> bool" where
  "pareto_better ls r s k c \<longleftrightarrow>
     (let cost = (\<lambda>m. estimate_cost m (ts_prompt_tokens_estimate s) (rq_max_tokens r));
          latency = (\<lambda>m. p95 ls (mc_provider m))
      in cost k \<le> cost c \<and> latency k \<le> latency c \<and> \<not> (cost c \<le> cost k \<and> latency c \<le> latency k))"

lemma dominates_iff:
  assumes "wf_catalog cat" "k \<in> set (eligible cat s)" "c \<in> set (eligible cat s)"
  shows "dominates (cost_of r s) (\<lambda>c. p95 ls (mc_provider c)) k c \<longleftrightarrow> pareto_better ls r s k c"
proof -
  have "k = c" if "mc_model k = mc_model c"
    using that map_of_values [OF assms(1)] assms(2,3) eligible_sub by (metis option.inject subsetD)
  then show ?thesis by (auto simp: dominates_def pareto_better_def cost_of_def Let_def)
qed

text \<open>
  C10. Cost-latency-Pareto routing always decides, never picks a model that another eligible model
  beats in both cost and latency, and among the eligible models that are not beaten it picks one of
  the highest quality.
\<close>

theorem pareto_choice_not_dominated:
  assumes wf: "wf_catalog cat"
  shows "\<exists>d c. cost_latency_pareto_choose ls cat r s = Inr d \<and> map_of cat (rd_chosen_model d) = Some c \<and>
    c \<in> set (eligible cat s) \<and>
    (\<forall>k \<in> set (eligible cat s). \<not> pareto_better ls r s k c) \<and>
    (\<forall>k \<in> set (eligible cat s). mc_quality_score c < mc_quality_score k \<longrightarrow>
       (\<exists>j \<in> set (eligible cat s). pareto_better ls r s j k))"
proof -
  let ?cs = "eligible cat s" and ?l = "\<lambda>c. p95 ls (mc_provider c)"
  have front: "pareto_front (by_model (cost_of r s) ?cs) (by_model ?l ?cs) ?cs = pareto_front (cost_of r s) ?l ?cs"
    unfolding pareto_front_def using wf
    by (intro filter_cong refl arg_cong [of _ _ Not] list_ex_cong) (auto simp: dominates_def)
  obtain c where c: "min_by (\<lambda>c. (- mc_quality_score c, by_model (cost_of r s) ?cs c, by_model ?l ?cs c, mc_model c))
      (pareto_front (cost_of r s) ?l ?cs) = Some c" "c \<in> set (pareto_front (cost_of r s) ?l ?cs)"
    using min_by_Some [OF pareto_front_nonempty [OF eligible_nonempty [OF wf]]] by blast
  have cv: "c \<in> set (catalog_values cat)" "c \<in> set ?cs" using c(2) pareto_front_sub eligible_sub by blast+
  have q: "mc_quality_score k \<le> mc_quality_score c" if "k \<in> set (pareto_front (cost_of r s) ?l ?cs)" for k
    using min_by_le [OF c(1) that] by (auto split: if_splits)
  have nd: "\<not> dominates (cost_of r s) ?l k c" if "k \<in> set ?cs" for k
    using c(2) that by (auto simp: pareto_front_def list_ex_iff)
  from decision_of_value [OF wf cv(1)] obtain d where
    "cost_latency_pareto_choose ls cat r s = Inr d" "map_of cat (rd_chosen_model d) = Some c"
    using c(1) by (auto simp: cost_latency_pareto_choose_def Let_def front)
  moreover have "\<exists>j \<in> set ?cs. pareto_better ls r s j k" if "k \<in> set ?cs" "mc_quality_score c < mc_quality_score k" for k
    using q [of k] that dominates_iff [OF wf] by (fastforce simp: pareto_front_def list_ex_iff)
  moreover have "\<not> pareto_better ls r s k c" if "k \<in> set ?cs" for k
    using nd [OF that] dominates_iff [OF wf that cv(2)] by simp
  ultimately show ?thesis using cv(2) by blast
qed

theorem pareto_choice_not_dominated_witness:
  "\<exists>d. cost_latency_pareto_choose \<lparr> ls_observations = Map.empty \<rparr> default_model_catalog demo_request demo_signals = Inr d"
  using pareto_choice_not_dominated [OF default_catalog_wf] by blast

text \<open>
  C11. Reliability-aware routing never starts on an open circuit while an eligible provider is
  healthy, and its fallback chain tries every healthy provider in it before an unhealthy one.
\<close>

lemma or_else_filter: "\<exists>c \<in> set cs. P c \<Longrightarrow> or_else (filter P cs) ds = filter P cs"
  by (auto simp: or_else_def filter_empty_conv)

theorem reliability_prefers_healthy:
  assumes wf: "wf_catalog cat" and "k \<in> set (eligible cat s)" "healthy (mc_provider k)"
  shows "\<exists>d c. reliability_aware_choose healthy cat r s = Inr d \<and> map_of cat (rd_chosen_model d) = Some c \<and>
    healthy (mc_provider c) \<and> mc_quality_score k \<le> mc_quality_score c \<and>
    sorted_wrt (\<lambda>m n. healthy (mc_provider (the (map_of cat n))) \<longrightarrow> healthy (mc_provider (the (map_of cat m))))
      (rd_fallback_chain d)"
proof -
  let ?pool = "filter (\<lambda>c. healthy (mc_provider c)) (eligible cat s)"
  have pool: "or_else ?pool (eligible cat s) = ?pool" using assms by (intro or_else_filter) auto
  have "?pool \<noteq> []" using assms by (auto simp: filter_empty_conv)
  then obtain c where c: "max_by (\<lambda>c. (mc_quality_score c, - cost_of r s c)) ?pool = Some c" "c \<in> set ?pool"
    using max_by_Some by blast
  have cv: "c \<in> set (catalog_values cat)" "healthy (mc_provider c)" using c(2) eligible_sub by auto
  have q: "mc_quality_score k \<le> mc_quality_score c"
    using max_by_ge [OF c(1), of k] assms by (auto split: if_splits)
  let ?key = "\<lambda>c. (\<not> healthy (mc_provider c), - mc_quality_score c)"
  let ?fs = "sorted_by ?key (without (mc_model c) (catalog_values cat))"
  have "sorted_wrt (\<lambda>x y. ?key x \<le> ?key y) ?fs" using sorted_sorted_by [of ?key] by (simp only: sorted_map)
  then have "sorted_wrt (\<lambda>x y. healthy (mc_provider y) \<longrightarrow> healthy (mc_provider x)) ?fs"
    by (rule sorted_wrt_mono_rel [rotated]) auto
  moreover have "map_of cat (mc_model x) = Some x" if "x \<in> set ?fs" for x
    using that map_of_values [OF wf] by (auto simp: without_def)
  ultimately have "sorted_wrt (\<lambda>x y. healthy (mc_provider (the (map_of cat (mc_model y)))) \<longrightarrow>
      healthy (mc_provider (the (map_of cat (mc_model x))))) ?fs"
    by (auto elim!: sorted_wrt_mono_rel [rotated])
  then have "sorted_wrt (\<lambda>m n. healthy (mc_provider (the (map_of cat n))) \<longrightarrow> healthy (mc_provider (the (map_of cat m))))
      (reliability_fallback_chain healthy cat (mc_model c))"
    by (simp add: reliability_fallback_chain_def first_models_def sorted_wrt_take sorted_wrt_map)
  with c(1) q cv(2) map_of_values [OF wf cv(1)] show ?thesis
    by (simp add: reliability_aware_choose_def Let_def pool catalog_get_def)
qed

theorem reliability_prefers_healthy_witness:
  "\<exists>d. reliability_aware_choose (\<lambda>p. p = ''google'') default_model_catalog demo_request demo_signals = Inr d \<and>
    (\<exists>c. map_of default_model_catalog (rd_chosen_model d) = Some c \<and> mc_provider c = ''google'')"
proof -
  obtain k where k: "k \<in> set (eligible default_model_catalog demo_signals)" "mc_provider k = ''google''"
    by (rule that [of "snd (default_model_catalog ! 4)"])
       (simp_all add: default_model_catalog_def eligible_def supporting_domain_def or_else_def catalog_values_def demo_signals_def)
  from reliability_prefers_healthy [OF default_catalog_wf k(1), of "\<lambda>p. p = ''google''" demo_request] k(2)
  show ?thesis by blast
qed

text \<open>
  Concurrency-cap routing respects the cap while it can: if an eligible provider is below
  it, the chosen one is, no eligible candidate below the cap has a higher quality, and the fallback
  chain tries providers below the cap first.
\<close>

theorem concurrency_cap_respected:
  assumes wf: "wf_catalog cat" and k: "k \<in> set (eligible cat s)" "load_score fs (mc_provider k) < cap"
  shows "\<exists>d c. concurrency_cap_choose fs cap cat r s = Inr d \<and> map_of cat (rd_chosen_model d) = Some c \<and>
    load_score fs (mc_provider c) < cap \<and> mc_quality_score k \<le> mc_quality_score c \<and>
    sorted_wrt (\<lambda>m n. load_score fs (mc_provider (the (map_of cat n))) < cap \<longrightarrow>
      load_score fs (mc_provider (the (map_of cat m))) < cap) (rd_fallback_chain d)"
proof -
  let ?load = "\<lambda>c. load_score fs (mc_provider c)"
  let ?under = "filter (\<lambda>c. ?load c < cap) (eligible cat s)"
  have "?under \<noteq> []" using k by (auto simp: filter_empty_conv)
  then obtain c where c: "max_by (\<lambda>c. (mc_quality_score c, - cost_of r s c, mc_model c)) ?under = Some c" "c \<in> set ?under"
    using max_by_Some by blast
  have cv: "c \<in> set (catalog_values cat)" "?load c < cap" using c(2) eligible_sub by auto
  have q: "mc_quality_score k \<le> mc_quality_score c"
    using max_by_ge [OF c(1), of k] k by (auto split: if_splits)
  let ?key = "\<lambda>c. (cap \<le> ?load c, - mc_quality_score c, cost_of r s c, mc_model c)"
  let ?fs = "sorted_by ?key (without (mc_model c) (eligible cat s))"
  have "sorted_wrt (\<lambda>x y. ?key x \<le> ?key y) ?fs" using sorted_sorted_by [of ?key] by (simp only: sorted_map)
  then have "sorted_wrt (\<lambda>x y. ?load y < cap \<longrightarrow> ?load x < cap) ?fs"
    by (rule sorted_wrt_mono_rel [rotated]) auto
  moreover have "map_of cat (mc_model x) = Some x" if "x \<in> set ?fs" for x
    using that map_of_values [OF wf] eligible_sub by (auto simp: without_def)
  ultimately have "sorted_wrt (\<lambda>x y. ?load (the (map_of cat (mc_model y))) < cap \<longrightarrow>
      ?load (the (map_of cat (mc_model x))) < cap) ?fs"
    by (auto elim!: sorted_wrt_mono_rel [rotated])
  then have "sorted_wrt (\<lambda>m n. ?load (the (map_of cat n)) < cap \<longrightarrow> ?load (the (map_of cat m)) < cap)
      (first_models (cap_fallback_candidates fs cap (mc_model c) (eligible cat s) r s))"
    by (simp add: cap_fallback_candidates_def first_models_def sorted_wrt_take sorted_wrt_map)
  with c(1) q cv(2) map_of_values [OF wf cv(1)] show ?thesis
    by (simp add: concurrency_cap_choose_def Let_def decide_def)
qed

theorem concurrency_cap_respected_witness:
  "\<exists>d. concurrency_cap_choose \<lparr> if_inflight = [''anthropic'' \<mapsto> 2, ''openai'' \<mapsto> 1] \<rparr> 2 default_model_catalog
     demo_request demo_signals = Inr d \<and>
    (\<exists>c. map_of default_model_catalog (rd_chosen_model d) = Some c \<and> mc_provider c \<noteq> ''anthropic'')"
proof -
  let ?fs = "\<lparr> if_inflight = [''anthropic'' \<mapsto> 2, ''openai'' \<mapsto> 1] \<rparr>"
  obtain k where k: "k \<in> set (eligible default_model_catalog demo_signals)" "mc_provider k = ''google''"
    by (rule that [of "snd (default_model_catalog ! 4)"])
       (simp_all add: default_model_catalog_def eligible_def supporting_domain_def or_else_def catalog_values_def demo_signals_def)
  have "load_score ?fs (mc_provider k) < 2" by (simp add: k(2) load_score_def)
  from concurrency_cap_respected [OF default_catalog_wf k(1) this, of demo_request] obtain d c where
    dc: "concurrency_cap_choose ?fs 2 default_model_catalog demo_request demo_signals = Inr d"
    "map_of default_model_catalog (rd_chosen_model d) = Some c" "load_score ?fs (mc_provider c) < 2" by blast
  from dc(3) have "mc_provider c \<noteq> ''anthropic''" by (auto simp: load_score_def)
  with dc show ?thesis by blast
qed

end
