(* ===== verification/Prefer.thy ===== *)
theory Prefer
  imports Strategies
begin

text \<open>
  The capability-prefer strategies of \<open>src/router/strategies.py\<close> (\<open>StructuredOutputPreferStrategy\<close> to
  \<open>MemoryToolPreferStrategy\<close>). Their \<open>choose\<close> methods are one algorithm, \<open>prefer_choose\<close>; a class is a
  \<open>prefer_policy\<close>: what metadata asks for the capability, how a model's support is resolved
  (allowlist, capability sets, name tokens) and its texts. \<open>healthy\<close> is \<open>is_available\<close> at the instant of
  the decision; \<open>caps\<close> is the capability map the strategy was built with. A metadata value that
  is not a string, list, tuple, set or dict counts as not iterable, as JSON scalars are.
\<close>

subsection \<open>Metadata\<close>

text \<open>\<open>_is_truthy\<close>\<close>

definition text_truthy :: "string \<Rightarrow> bool" where
  "text_truthy text0 = (let text = lower (strip text0) in
     if text \<in> {''false'', ''0'', ''no'', ''off'', []} then False
     else text \<in> {''true'', ''1'', ''yes'', ''on''} \<or> text \<noteq> [])"

fun is_truthy :: "py_val \<Rightarrow> bool" where
  "is_truthy VNone = False"
| "is_truthy (VBool b) = b"
| "is_truthy (VInt n) = (n \<noteq> 0)"
| "is_truthy (VFloat x _) = (x \<noteq> 0)"
| "is_truthy (VInf _) = True"
| "is_truthy VNan = True"
| "is_truthy (VList xs _) = (xs \<noteq> [])"
| "is_truthy (VDict kvs _) = (kvs \<noteq> [])"
| "is_truthy (VStr s) = text_truthy s"
| "is_truthy (VOther s) = text_truthy s"

definition truthy_any :: "string list \<Rightarrow> router_request \<Rightarrow> bool" where
  "truthy_any keys r = list_ex (\<lambda>k. is_truthy (metadata_get r k)) keys"

text \<open>\<open>ToolCallingPreferStrategy._wants_tools\<close>\<close>

definition wants_tools :: "router_request \<Rightarrow> bool" where
  "wants_tools r = (if is_truthy (metadata_get r ''requires_tools'') then True
     else (case metadata_get r ''tools'' of
        VNone \<Rightarrow> False
      | VList xs _ \<Rightarrow> xs \<noteq> []
      | VDict kvs _ \<Rightarrow> kvs \<noteq> []
      | v \<Rightarrow> is_truthy v))"

text \<open>\<open>frozenset(stripped.lower() for item in parts if (stripped := str(item).strip()))\<close>\<close>

definition name_set :: "py_val list \<Rightarrow> string set" where
  "name_set items = set (map lower (filter (\<lambda>s. s \<noteq> []) (map (\<lambda>v. strip (py_str v)) items)))"

definition comma_parts :: "string \<Rightarrow> py_val list" where
  "comma_parts s = map VStr (split_on (CHR '','') s)"

definition allowlist :: "string \<Rightarrow> router_request \<Rightarrow> string set option" where
  "allowlist key r = (case metadata_get r key of
      VNone \<Rightarrow> None
    | VStr s \<Rightarrow> Some (name_set (comma_parts s))
    | VList xs _ \<Rightarrow> Some (name_set xs)
    | VDict kvs _ \<Rightarrow> Some (name_set (map (VStr \<circ> fst) kvs))
    | _ \<Rightarrow> Some {})"

text \<open>\<open>_capabilities_for\<close>: a string override drops blank names, an iterable one keeps them.\<close>

definition override_set :: "py_val \<Rightarrow> string set" where
  "override_set v = (case v of
      VStr s \<Rightarrow> name_set (comma_parts s)
    | VList xs _ \<Rightarrow> set (map (\<lambda>x. lower (strip (py_str x))) xs)
    | VDict kvs _ \<Rightarrow> set (map (\<lambda>(k, _). lower (strip k)) kvs)
    | _ \<Rightarrow> {})"

definition capabilities_for :: "(string \<rightharpoonup> string set) \<Rightarrow> string \<Rightarrow> router_request \<Rightarrow> string set option" where
  "capabilities_for caps model r =
     (case (case metadata_get r ''model_capabilities'' of VDict kvs _ \<Rightarrow> map_of kvs model | _ \<Rightarrow> None) of
        Some v \<Rightarrow> Some (override_set v)
      | None \<Rightarrow> caps model)"

text \<open>\<open>_supports_*\<close>\<close>

definition prefer_supports ::
  "string \<Rightarrow> string set \<Rightarrow> string list \<Rightarrow> (string \<rightharpoonup> string set) \<Rightarrow> string \<Rightarrow> router_request \<Rightarrow> bool" where
  "prefer_supports allow_key capabilities name_tokens caps model r = (case allowlist allow_key r of
      Some allowed \<Rightarrow> lower model \<in> allowed
    | None \<Rightarrow> (case capabilities_for caps model r of
        Some cs \<Rightarrow> cs \<inter> capabilities \<noteq> {}
      | None \<Rightarrow> list_ex (\<lambda>token. contains token (lower model)) name_tokens))"

text \<open>\<open>_KNOWN_MODEL_CAPABILITIES\<close>, the default capability map\<close>

definition known_model_capabilities :: "string \<rightharpoonup> string set" where
  "known_model_capabilities = map_of [
    (OPENAI_FRONTIER_MODEL, {''agents_api'', ''background_mode'', ''deep_research'', ''json'', ''long_context'',
      ''mcp'', ''memory_tool'', ''parallel_tool_calls'', ''streaming'', ''tools'', ''vision'', ''webhook''}),
    (OPENAI_BALANCED_MODEL, {''json'', ''logprobs'', ''long_context'', ''parallel_tool_calls'', ''streaming'',
      ''tools'', ''vision''}),
    (ANTHROPIC_SAFETY_MODEL, {''deep_research'', ''json'', ''long_context'', ''mcp'', ''memory_tool'',
      ''parallel_tool_calls'', ''streaming'', ''tools'', ''vision'', ''webhook''}),
    (ANTHROPIC_FAST_MODEL, {''tools'', ''streaming'', ''long_context''}),
    (GEMINI_PRO_MODEL, {''vision'', ''tools'', ''long_context'', ''json'', ''streaming'', ''audio''}),
    (GEMINI_FLASH_MODEL, {''vision'', ''tools'', ''json'', ''streaming'', ''audio'', ''long_context''}),
    (MOONSHOT_BALANCED_MODEL, {''tools'', ''long_context'', ''json'', ''streaming'', ''vision''})]"

subsection \<open>The common decision\<close>

record prefer_policy =
  pp_name :: strategy_name
  pp_wants :: "router_request \<Rightarrow> bool"
  pp_supports :: "string \<Rightarrow> router_request \<Rightarrow> bool"
  pp_capable :: string
  pp_incapable :: string
  pp_no_signal :: string

definition prefer_active :: "(string \<Rightarrow> bool) \<Rightarrow> catalog \<Rightarrow> task_signals \<Rightarrow> model_candidate list" where
  "prefer_active healthy cat s = healthy_first healthy (eligible cat s)"

definition prefer_choose :: "prefer_policy \<Rightarrow> (string \<Rightarrow> bool) \<Rightarrow> catalog \<Rightarrow> router_request \<Rightarrow> task_signals \<Rightarrow>
    routing_decision result" where
  "prefer_choose pp healthy cat r s =
     (let active = prefer_active healthy cat s;
          cost = by_model (cost_of r s) active;
          flag = by_model (\<lambda>c. pp_supports pp (mc_model c) r) active;
          note = (if filter (\<lambda>c. healthy (mc_provider c)) (eligible cat s) \<noteq> []
                  then ''healthy'' else ''circuit-open emergency'')
      in if pp_wants pp r
         then bind_result (of_opt ValueError
             (max_by (\<lambda>c. (flag c, mc_quality_score c, - cost c, mc_model c)) active))
           (\<lambda>c. Inr (decide (pp_name pp) c
             [Lit (pp_name pp), Lit '' requested; selected '', Lit note, Lit '' '',
              Lit (if flag c then pp_capable pp else pp_incapable pp), Lit '' '', Str (mc_model c),
              Lit '' (quality '', Fixed 2 (mc_quality_score c), Lit '')'']
             (sorted_by (\<lambda>c. (\<not> flag c, - mc_quality_score c, cost c, mc_model c)) (without (mc_model c) active))))
         else bind_result (of_opt ValueError
             (max_by (\<lambda>c. (mc_quality_score c, - cost c, mc_model c)) active))
           (\<lambda>c. Inr (decide (pp_name pp) c
             [Lit (pp_name pp), Lit '' '', Lit (pp_no_signal pp), Lit ''; selected '', Lit note,
              Lit '' quality-first '', Str (mc_model c)]
             (sorted_by (\<lambda>c. (- mc_quality_score c, cost c, mc_model c)) (without (mc_model c) active)))))"

subsection \<open>The policies\<close>

definition structured_output_prefer :: "(string \<rightharpoonup> string set) \<Rightarrow> prefer_policy" where
  "structured_output_prefer caps = \<lparr> pp_name = ''structured-output-prefer'',
     pp_wants = truthy_any [''requires_json'', ''structured_output''],
     pp_supports = prefer_supports ''structured_models'' {''json'', ''json_mode'', ''structured''}
       [''gpt-5'', ''gpt-6'', ''claude'', ''gemini'', ''kimi''] caps,
     pp_capable = ''structured-capable'', pp_incapable = ''non-structured fallback'',
     pp_no_signal = ''no requires_json/structured_output signal'' \<rparr>"

definition tool_calling_prefer :: "(string \<rightharpoonup> string set) \<Rightarrow> prefer_policy" where
  "tool_calling_prefer caps = \<lparr> pp_name = ''tool-calling-prefer'',
     pp_wants = wants_tools,
     pp_supports = prefer_supports ''tool_capable_models'' {''tools''}
       [''gpt-5'', ''gpt-6'', ''claude'', ''gemini'', ''kimi''] caps,
     pp_capable = ''tool-capable'', pp_incapable = ''non-tool fallback'',
     pp_no_signal = ''no requires_tools/tools signal'' \<rparr>"

definition multimodal_input_prefer :: "(string \<rightharpoonup> string set) \<Rightarrow> prefer_policy" where
  "multimodal_input_prefer caps = \<lparr> pp_name = ''multimodal-input-prefer'',
     pp_wants = truthy_any [''has_images'', ''has_audio''],
     pp_supports = prefer_supports ''multimodal_models'' {''audio'', ''multimodal'', ''vision''}
       [''gpt-5'', ''gpt-6'', ''claude'', ''gemini'', ''kimi-k3'', ''vision''] caps,
     pp_capable = ''multimodal-capable'', pp_incapable = ''non-multimodal fallback'',
     pp_no_signal = ''no has_images/has_audio signal'' \<rparr>"

definition streaming_prefer :: "(string \<rightharpoonup> string set) \<Rightarrow> prefer_policy" where
  "streaming_prefer caps = \<lparr> pp_name = ''streaming-prefer'',
     pp_wants = truthy_any [''stream'', ''requires_streaming''],
     pp_supports = prefer_supports ''streaming_models'' {''streaming''}
       [''gpt-5'', ''gpt-6'', ''claude'', ''gemini'', ''kimi''] caps,
     pp_capable = ''streaming-capable'', pp_incapable = ''non-streaming fallback'',
     pp_no_signal = ''no stream/requires_streaming signal'' \<rparr>"

definition audio_input_prefer :: "(string \<rightharpoonup> string set) \<Rightarrow> prefer_policy" where
  "audio_input_prefer caps = \<lparr> pp_name = ''audio-input-prefer'',
     pp_wants = truthy_any [''requires_audio'', ''audio_input'', ''audio''],
     pp_supports = prefer_supports ''audio_models'' {''audio''}
       [''audio'', ''realtime'', ''gpt-4o-audio'', ''gemini''] caps,
     pp_capable = ''audio-capable'', pp_incapable = ''non-audio fallback'',
     pp_no_signal = ''no requires_audio/audio_input/audio signal'' \<rparr>"

definition web_search_prefer :: "(string \<rightharpoonup> string set) \<Rightarrow> prefer_policy" where
  "web_search_prefer caps = \<lparr> pp_name = ''web-search-prefer'',
     pp_wants = truthy_any [''requires_web_search'', ''web_search'', ''online''],
     pp_supports = prefer_supports ''web_search_models'' {''web_search''}
       [''search'', ''online'', ''browse''] caps,
     pp_capable = ''web-search-capable'', pp_incapable = ''non-web-search fallback'',
     pp_no_signal = ''no requires_web_search/web_search/online signal'' \<rparr>"

definition computer_use_prefer :: "(string \<rightharpoonup> string set) \<Rightarrow> prefer_policy" where
  "computer_use_prefer caps = \<lparr> pp_name = ''computer-use-prefer'',
     pp_wants = truthy_any [''requires_computer_use'', ''computer_use'', ''cua''],
     pp_supports = prefer_supports ''computer_use_models'' {''computer_use''}
       [''computer'', ''cua'', ''operator''] caps,
     pp_capable = ''computer-use-capable'', pp_incapable = ''non-computer-use fallback'',
     pp_no_signal = ''no requires_computer_use/computer_use/cua signal'' \<rparr>"

definition image_gen_prefer :: "(string \<rightharpoonup> string set) \<Rightarrow> prefer_policy" where
  "image_gen_prefer caps = \<lparr> pp_name = ''image-gen-prefer'',
     pp_wants = truthy_any [''requires_image_gen'', ''image_gen'', ''image_generation''],
     pp_supports = prefer_supports ''image_gen_models'' {''image_gen''}
       [''image-gen'', ''imagen'', ''dall-e'', ''flux'', ''gpt-image''] caps,
     pp_capable = ''image-gen-capable'', pp_incapable = ''non-image-gen fallback'',
     pp_no_signal = ''no requires_image_gen/image_gen/image_generation signal'' \<rparr>"

definition code_execution_prefer :: "(string \<rightharpoonup> string set) \<Rightarrow> prefer_policy" where
  "code_execution_prefer caps = \<lparr> pp_name = ''code-execution-prefer'',
     pp_wants = truthy_any [''requires_code_execution'', ''code_execution'', ''code_interpreter''],
     pp_supports = prefer_supports ''code_execution_models'' {''code_execution''}
       [''code-execution'', ''code_interpreter'', ''interpreter'', ''sandbox''] caps,
     pp_capable = ''code-execution-capable'', pp_incapable = ''non-code-execution fallback'',
     pp_no_signal = ''no signal'' \<rparr>"

definition video_input_prefer :: "(string \<rightharpoonup> string set) \<Rightarrow> prefer_policy" where
  "video_input_prefer caps = \<lparr> pp_name = ''video-input-prefer'',
     pp_wants = truthy_any [''requires_video'', ''video_input'', ''has_video''],
     pp_supports = prefer_supports ''video_models'' {''video''}
       [''video'', ''veo'', ''gemini-video''] caps,
     pp_capable = ''video-capable'', pp_incapable = ''non-video fallback'',
     pp_no_signal = ''no signal'' \<rparr>"

definition pdf_input_prefer :: "(string \<rightharpoonup> string set) \<Rightarrow> prefer_policy" where
  "pdf_input_prefer caps = \<lparr> pp_name = ''pdf-input-prefer'',
     pp_wants = truthy_any [''requires_pdf'', ''pdf_input'', ''has_pdf''],
     pp_supports = prefer_supports ''pdf_models'' {''pdf''}
       [''pdf'', ''document'', ''file-input''] caps,
     pp_capable = ''pdf-capable'', pp_incapable = ''non-pdf fallback'',
     pp_no_signal = ''no signal'' \<rparr>"

definition batch_api_prefer :: "(string \<rightharpoonup> string set) \<Rightarrow> prefer_policy" where
  "batch_api_prefer caps = \<lparr> pp_name = ''batch-api-prefer'',
     pp_wants = truthy_any [''requires_batch'', ''batch_api'', ''use_batch''],
     pp_supports = prefer_supports ''batch_models'' {''batch''}
       [''batch'', ''async-batch'', ''offline''] caps,
     pp_capable = ''batch-capable'', pp_incapable = ''non-batch fallback'',
     pp_no_signal = ''no signal'' \<rparr>"

definition reasoning_effort_prefer :: "(string \<rightharpoonup> string set) \<Rightarrow> prefer_policy" where
  "reasoning_effort_prefer caps = \<lparr> pp_name = ''reasoning-effort-prefer'',
     pp_wants = truthy_any [''requires_reasoning_effort'', ''reasoning_effort'', ''effort_control''],
     pp_supports = prefer_supports ''reasoning_effort_models'' {''reasoning_effort''}
       [''reasoning-effort'', ''o3-pro'', ''effort-control''] caps,
     pp_capable = ''effort-capable'', pp_incapable = ''non-effort fallback'',
     pp_no_signal = ''no signal'' \<rparr>"

definition transcription_prefer :: "(string \<rightharpoonup> string set) \<Rightarrow> prefer_policy" where
  "transcription_prefer caps = \<lparr> pp_name = ''transcription-prefer'',
     pp_wants = truthy_any [''requires_transcription'', ''transcription'', ''speech_to_text'', ''stt''],
     pp_supports = prefer_supports ''transcription_models'' {''transcription''}
       [''whisper'', ''transcription'', ''speech-to-text'', ''stt''] caps,
     pp_capable = ''transcription-capable'', pp_incapable = ''non-transcription fallback'',
     pp_no_signal = ''no signal'' \<rparr>"

definition moderation_prefer :: "(string \<rightharpoonup> string set) \<Rightarrow> prefer_policy" where
  "moderation_prefer caps = \<lparr> pp_name = ''moderation-prefer'',
     pp_wants = truthy_any [''requires_moderation'', ''moderation'', ''content_moderation''],
     pp_supports = prefer_supports ''moderation_models'' {''moderation''}
       [''moderation'', ''omni-moderation'', ''text-moderation''] caps,
     pp_capable = ''moderation-capable'', pp_incapable = ''non-moderation fallback'',
     pp_no_signal = ''no signal'' \<rparr>"

definition predicted_outputs_prefer :: "(string \<rightharpoonup> string set) \<Rightarrow> prefer_policy" where
  "predicted_outputs_prefer caps = \<lparr> pp_name = ''predicted-outputs-prefer'',
     pp_wants = truthy_any [''requires_predicted_outputs'', ''predicted_outputs'', ''prediction''],
     pp_supports = prefer_supports ''predicted_outputs_models'' {''predicted_outputs''}
       [''predicted-outputs'', ''prediction'', ''predicted''] caps,
     pp_capable = ''predicted-outputs-capable'', pp_incapable = ''non-predicted-outputs fallback'',
     pp_no_signal = ''no signal'' \<rparr>"

definition prompt_caching_prefer :: "(string \<rightharpoonup> string set) \<Rightarrow> prefer_policy" where
  "prompt_caching_prefer caps = \<lparr> pp_name = ''prompt-caching-prefer'',
     pp_wants = truthy_any [''requires_prompt_caching'', ''prompt_caching'', ''cache_prompt''],
     pp_supports = prefer_supports ''prompt_caching_models'' {''prompt_caching''}
       [''prompt-caching'', ''prompt-cache'', ''cached-tokens''] caps,
     pp_capable = ''prompt-caching-capable'', pp_incapable = ''non-prompt-cachings fallback'',
     pp_no_signal = ''no signal'' \<rparr>"

definition fine_tune_prefer :: "(string \<rightharpoonup> string set) \<Rightarrow> prefer_policy" where
  "fine_tune_prefer caps = \<lparr> pp_name = ''fine-tune-prefer'',
     pp_wants = truthy_any [''requires_fine_tune'', ''fine_tune'', ''ft_model''],
     pp_supports = prefer_supports ''fine_tune_models'' {''fine_tune''}
       [''fine-tune'', ''finetune'', ''ft:''] caps,
     pp_capable = ''fine-tune-capable'', pp_incapable = ''non-fine-tunes fallback'',
     pp_no_signal = ''no signal'' \<rparr>"

definition embeddings_prefer :: "(string \<rightharpoonup> string set) \<Rightarrow> prefer_policy" where
  "embeddings_prefer caps = \<lparr> pp_name = ''embeddings-prefer'',
     pp_wants = truthy_any [''requires_embeddings'', ''embeddings'', ''embedding''],
     pp_supports = prefer_supports ''embeddings_models'' {''embeddings''}
       [''embedding'', ''embeddings'', ''text-embedding''] caps,
     pp_capable = ''embeddings-capable'', pp_incapable = ''non-embeddingss fallback'',
     pp_no_signal = ''no signal'' \<rparr>"

definition responses_api_prefer :: "(string \<rightharpoonup> string set) \<Rightarrow> prefer_policy" where
  "responses_api_prefer caps = \<lparr> pp_name = ''responses-api-prefer'',
     pp_wants = truthy_any [''requires_responses_api'', ''responses_api'', ''responses''],
     pp_supports = prefer_supports ''responses_api_models'' {''responses_api''}
       [''responses-api'', ''responses_api'', ''/responses''] caps,
     pp_capable = ''responses_api-capable'', pp_incapable = ''non-responses_api fallback'',
     pp_no_signal = ''no signal'' \<rparr>"

definition file_search_prefer :: "(string \<rightharpoonup> string set) \<Rightarrow> prefer_policy" where
  "file_search_prefer caps = \<lparr> pp_name = ''file-search-prefer'',
     pp_wants = truthy_any [''requires_file_search'', ''file_search'', ''file-search''],
     pp_supports = prefer_supports ''file_search_models'' {''file_search''}
       [''file-search'', ''file_search'', ''retrieval''] caps,
     pp_capable = ''file_search-capable'', pp_incapable = ''non-file_search fallback'',
     pp_no_signal = ''no signal'' \<rparr>"

definition vector_store_prefer :: "(string \<rightharpoonup> string set) \<Rightarrow> prefer_policy" where
  "vector_store_prefer caps = \<lparr> pp_name = ''vector-store-prefer'',
     pp_wants = truthy_any [''requires_vector_store'', ''vector_store'', ''vector-store''],
     pp_supports = prefer_supports ''vector_store_models'' {''vector_store''}
       [''vector-store'', ''vector_store'', ''vectorstore''] caps,
     pp_capable = ''vector_store-capable'', pp_incapable = ''non-vector_store fallback'',
     pp_no_signal = ''no signal'' \<rparr>"

definition realtime_api_prefer :: "(string \<rightharpoonup> string set) \<Rightarrow> prefer_policy" where
  "realtime_api_prefer caps = \<lparr> pp_name = ''realtime-api-prefer'',
     pp_wants = truthy_any [''requires_realtime'', ''realtime_api'', ''websocket_streaming''],
     pp_supports = prefer_supports ''realtime_api_models'' {''realtime_api''}
       [''realtime''] caps,
     pp_capable = ''realtime_api-capable'', pp_incapable = ''non-realtime_api fallback'',
     pp_no_signal = ''no signal'' \<rparr>"

definition mcp_prefer :: "(string \<rightharpoonup> string set) \<Rightarrow> prefer_policy" where
  "mcp_prefer caps = \<lparr> pp_name = ''mcp-prefer'',
     pp_wants = truthy_any [''requires_mcp'', ''mcp_servers'', ''model_context_protocol''],
     pp_supports = prefer_supports ''mcp_models'' {''mcp''}
       [''mcp'', ''model-context-protocol'', ''model_context_protocol''] caps,
     pp_capable = ''mcp-capable'', pp_incapable = ''non-mcp fallback'',
     pp_no_signal = ''no signal'' \<rparr>"

definition logprobs_prefer :: "(string \<rightharpoonup> string set) \<Rightarrow> prefer_policy" where
  "logprobs_prefer caps = \<lparr> pp_name = ''logprobs-prefer'',
     pp_wants = truthy_any [''requires_logprobs'', ''logprobs'', ''top_logprobs''],
     pp_supports = prefer_supports ''logprobs_models'' {''logprobs''}
       [''logprobs'', ''log-probs'', ''top_logprobs''] caps,
     pp_capable = ''logprobs-capable'', pp_incapable = ''non-logprobs fallback'',
     pp_no_signal = ''no signal'' \<rparr>"

definition background_mode_prefer :: "(string \<rightharpoonup> string set) \<Rightarrow> prefer_policy" where
  "background_mode_prefer caps = \<lparr> pp_name = ''background-mode-prefer'',
     pp_wants = truthy_any [''requires_background_mode'', ''background_mode'', ''background_agent''],
     pp_supports = prefer_supports ''background_mode_models'' {''background_mode''}
       [''background_mode'', ''background-mode'', ''background''] caps,
     pp_capable = ''background_mode-capable'', pp_incapable = ''non-background_mode fallback'',
     pp_no_signal = ''no signal'' \<rparr>"

definition parallel_tool_prefer :: "(string \<rightharpoonup> string set) \<Rightarrow> prefer_policy" where
  "parallel_tool_prefer caps = \<lparr> pp_name = ''parallel-tool-prefer'',
     pp_wants = truthy_any [''requires_parallel_tool_calls'', ''parallel_tool_calls'', ''parallel_tools''],
     pp_supports = prefer_supports ''parallel_tool_models'' {''parallel_tool_calls''}
       [''parallel_tool'', ''parallel-tool'', ''parallel_tools''] caps,
     pp_capable = ''parallel_tool_calls-capable'', pp_incapable = ''non-parallel_tool_calls fallback'',
     pp_no_signal = ''no signal'' \<rparr>"

definition deep_research_prefer :: "(string \<rightharpoonup> string set) \<Rightarrow> prefer_policy" where
  "deep_research_prefer caps = \<lparr> pp_name = ''deep-research-prefer'',
     pp_wants = truthy_any [''requires_deep_research'', ''deep_research'', ''o_deep_research''],
     pp_supports = prefer_supports ''deep_research_models'' {''deep_research''}
       [''deep_research'', ''deep-research'', ''deepresearch''] caps,
     pp_capable = ''deep_research-capable'', pp_incapable = ''non-deep_research fallback'',
     pp_no_signal = ''no signal'' \<rparr>"

definition agents_api_prefer :: "(string \<rightharpoonup> string set) \<Rightarrow> prefer_policy" where
  "agents_api_prefer caps = \<lparr> pp_name = ''agents-api-prefer'',
     pp_wants = truthy_any [''requires_agents_api'', ''agents_api'', ''openai_agents''],
     pp_supports = prefer_supports ''agents_api_models'' {''agents_api''}
       [''agents_api'', ''agents-api'', ''agentsapi'', ''openai_agents''] caps,
     pp_capable = ''agents_api-capable'', pp_incapable = ''non-agents_api fallback'',
     pp_no_signal = ''no signal'' \<rparr>"

definition webhook_prefer :: "(string \<rightharpoonup> string set) \<Rightarrow> prefer_policy" where
  "webhook_prefer caps = \<lparr> pp_name = ''webhook-prefer'',
     pp_wants = truthy_any [''requires_webhook'', ''webhook_callbacks'', ''async_webhook''],
     pp_supports = prefer_supports ''webhook_models'' {''webhook''}
       [''webhook'', ''webhook_callback'', ''async_webhook'', ''webhook-callback''] caps,
     pp_capable = ''webhook-capable'', pp_incapable = ''non-webhook fallback'',
     pp_no_signal = ''no signal'' \<rparr>"

definition memory_tool_prefer :: "(string \<rightharpoonup> string set) \<Rightarrow> prefer_policy" where
  "memory_tool_prefer caps = \<lparr> pp_name = ''memory-tool-prefer'',
     pp_wants = truthy_any [''requires_memory_tool'', ''memory_tool'', ''agent_memory''],
     pp_supports = prefer_supports ''memory_tool_models'' {''memory_tool''}
       [''memory_tool'', ''memory-tool'', ''memorytool'', ''agent_memory''] caps,
     pp_capable = ''memory_tool-capable'', pp_incapable = ''non-memory_tool fallback'',
     pp_no_signal = ''no signal'' \<rparr>"

text \<open>The policies, as the engine registers them.\<close>

definition prefer_policies :: "(string \<rightharpoonup> string set) \<Rightarrow> prefer_policy list" where
  "prefer_policies caps = map (\<lambda>p. p caps) [
     structured_output_prefer, tool_calling_prefer, multimodal_input_prefer, streaming_prefer,
     audio_input_prefer, web_search_prefer, computer_use_prefer, image_gen_prefer,
     code_execution_prefer, video_input_prefer, pdf_input_prefer, batch_api_prefer,
     reasoning_effort_prefer, transcription_prefer, moderation_prefer, predicted_outputs_prefer,
     prompt_caching_prefer, fine_tune_prefer, embeddings_prefer, responses_api_prefer,
     file_search_prefer, vector_store_prefer, realtime_api_prefer, mcp_prefer,
     logprobs_prefer, background_mode_prefer, parallel_tool_prefer, deep_research_prefer,
     agents_api_prefer, webhook_prefer, memory_tool_prefer]"

subsection \<open>Correctness\<close>

lemma prefer_active_sub: "set (prefer_active h cat s) \<subseteq> set (catalog_values cat)"
  using healthy_first_sub eligible_sub unfolding prefer_active_def by blast

lemma prefer_active_distinct: "wf_catalog cat \<Longrightarrow> distinct (map mc_model (prefer_active h cat s))"
  by (simp add: prefer_active_def healthy_first_def or_else_def distinct_filter_models)

lemma prefer_active_nonempty: "wf_catalog cat \<Longrightarrow> prefer_active h cat s \<noteq> []"
  by (simp add: prefer_active_def healthy_first_def)

lemma prefer_decides:
  assumes wf: "wf_catalog cat" "c \<in> set (prefer_active h cat s)"
  shows "decision_ok cat (decide name c ra (sorted_by f (without (mc_model c) (prefer_active h cat s))))"
  using assms prefer_active_sub by (intro decide_sorted_ok prefer_active_distinct) auto

interpretation preferring: total_strategy "prefer_choose pp h" for pp h
proof
  fix cat r s d
  assume wf: "wf_catalog cat"
  show "prefer_choose pp h cat r s = Inr d \<Longrightarrow> decision_ok cat d"
    by (auto simp: prefer_choose_def Let_def bind_result_Inr intro!: prefer_decides [OF wf]
        dest: max_by_in split: if_splits)
  show "\<exists>d. prefer_choose pp h cat r s = Inr d"
    using prefer_active_nonempty [OF wf]
    by (auto simp: prefer_choose_def Let_def bind_result_Inr simp flip: not_None_eq)
qed

lemma decide_fields:
  "rd_chosen_model (decide name c ra cs) = mc_model c"
  "rd_fallback_chain (decide name c ra cs) = first_models cs"
  by (simp_all add: decide_def)

text \<open>
  C12. Every capability-prefer strategy always decides, and when the request asks for the
  capability and a routable candidate has it, the chosen model has it and no such candidate has a
  higher quality; the fallback chain then tries the capable models first.
\<close>

theorem prefer_finds_capable:
  assumes wf: "wf_catalog cat" and wants: "pp_wants pp r"
    and k: "k \<in> set (prefer_active h cat s)" "pp_supports pp (mc_model k) r"
  shows "\<exists>d c. prefer_choose pp h cat r s = Inr d \<and> decision_ok cat d \<and> map_of cat (rd_chosen_model d) = Some c \<and>
    pp_supports pp (rd_chosen_model d) r \<and> mc_quality_score k \<le> mc_quality_score c \<and>
    sorted_wrt (\<lambda>m n. pp_supports pp n r \<longrightarrow> pp_supports pp m r) (rd_fallback_chain d)"
proof -
  let ?a = "prefer_active h cat s"
  let ?flag = "by_model (\<lambda>c. pp_supports pp (mc_model c) r) ?a" and ?cost = "by_model (cost_of r s) ?a"
  have flag: "?flag c = pp_supports pp (mc_model c) r" if "c \<in> set ?a" for c
    using that prefer_active_distinct [OF wf] by simp
  obtain c where c: "max_by (\<lambda>c. (?flag c, mc_quality_score c, - ?cost c, mc_model c)) ?a = Some c" "c \<in> set ?a"
    using max_by_Some [OF prefer_active_nonempty [OF wf]] by blast
  have "(?flag k, mc_quality_score k, - ?cost k, mc_model k) \<le> (?flag c, mc_quality_score c, - ?cost c, mc_model c)"
    using max_by_ge [OF c(1) k(1)] .
  then have best: "pp_supports pp (mc_model c) r" "mc_quality_score k \<le> mc_quality_score c"
    using flag [OF k(1)] flag [OF c(2)] k(2) by (auto split: if_splits)
  let ?key = "\<lambda>c. (\<not> ?flag c, - mc_quality_score c, ?cost c, mc_model c)"
  let ?fs = "sorted_by ?key (without (mc_model c) ?a)"
  have "sorted_wrt (\<lambda>x y. ?key x \<le> ?key y) ?fs" using sorted_sorted_by [of ?key] by (simp only: sorted_map)
  moreover have "set ?fs \<subseteq> set ?a" by (auto simp: without_def)
  ultimately have "sorted_wrt (\<lambda>x y. pp_supports pp (mc_model y) r \<longrightarrow> pp_supports pp (mc_model x) r) ?fs"
    using flag by (elim sorted_wrt_mono_rel [rotated]) (auto simp: subset_iff)
  then have srt: "sorted_wrt (\<lambda>m n. pp_supports pp n r \<longrightarrow> pp_supports pp m r) (first_models ?fs)"
    by (simp add: first_models_def sorted_wrt_take sorted_wrt_map)
  have "c \<in> set (catalog_values cat)" using c(2) prefer_active_sub by blast
  note cat = map_of_values [OF wf this]
  obtain ra where "prefer_choose pp h cat r s = Inr (decide (pp_name pp) c ra ?fs)"
    using c(1) wants by (simp add: prefer_choose_def Let_def)
  with prefer_decides [OF wf c(2), of "pp_name pp" ra ?key] cat best srt show ?thesis
    by (simp add: decide_fields)
qed

lemma prefer_witness_request:
  "pp_wants (audio_input_prefer caps) (demo_request\<lparr> rq_metadata := [(''requires_audio'', VStr '' Yes'')] \<rparr>)"
  by (simp add: audio_input_prefer_def truthy_any_def metadata_get_def text_truthy_def strip_def is_space_def
      lower_def lower_char_def)

lemma prefer_witness_gemini:
  "snd (default_model_catalog ! 4) \<in> set (prefer_active (\<lambda>p. p \<noteq> ''openai'') default_model_catalog demo_signals)"
  by (simp add: prefer_active_def healthy_first_def eligible_def supporting_domain_def or_else_def
      catalog_values_def default_model_catalog_def demo_signals_def)

theorem prefer_finds_capable_witness:
  "\<exists>d. prefer_choose (audio_input_prefer known_model_capabilities) (\<lambda>p. p \<noteq> ''openai'') default_model_catalog
     (demo_request\<lparr> rq_metadata := [(''requires_audio'', VStr '' Yes'')] \<rparr>) demo_signals = Inr d \<and>
     pp_supports (audio_input_prefer known_model_capabilities) (rd_chosen_model d)
       (demo_request\<lparr> rq_metadata := [(''requires_audio'', VStr '' Yes'')] \<rparr>)"
proof -
  let ?r = "demo_request\<lparr> rq_metadata := [(''requires_audio'', VStr '' Yes'')] \<rparr>"
  have "pp_supports (audio_input_prefer known_model_capabilities) (mc_model (snd (default_model_catalog ! 4))) ?r"
    by (simp add: audio_input_prefer_def prefer_supports_def allowlist_def capabilities_for_def metadata_get_def
        known_model_capabilities_def default_model_catalog_def model_id_defs)
  from prefer_finds_capable [OF default_catalog_wf prefer_witness_request prefer_witness_gemini this]
  show ?thesis by blast
qed

end
