(* ===== verification/Strategies_Score.thy ===== *)
theory Strategies_Score
  imports Strategies
begin

text \<open>
  The strategies of \<open>src/router/strategies.py\<close> that score the eligible models: weighted blends of
  quality, cost, latency and health, the best model within a cost or latency limit, quality per
  dollar, complexity tiers, and the two that hash an id (sticky sessions and canary). Each keeps the
  contract of \<open>Strategy_Base\<close> by interpretation.
\<close>

subsection \<open>Shared pieces\<close>

text \<open>\<open>self._decision(selected.model, rationale)\<close> for a selected candidate; ValueError is what
  \<open>max\<close> and \<open>min\<close> raise on no candidates.\<close>

definition pick_by :: "strategy_name \<Rightarrow> catalog \<Rightarrow> model_candidate option \<Rightarrow> (model_candidate \<Rightarrow> fstring) \<Rightarrow>
    routing_decision result" where
  "pick_by name cat sel rationale =
     bind_result (of_opt ValueError sel) (\<lambda>c. decision name cat (mc_model c) (rationale c))"

definition inverse_min_max :: "rat list \<Rightarrow> rat \<Rightarrow> rat" where
  "inverse_min_max values v = (let lowest = Min (set values); highest = Max (set values) in
     if highest = lowest then 1 else fdiv (fsub highest v) (fsub highest lowest))"

text \<open>Weights divided by their sum, \<open>pure\<close> when all are zero, ValueError when one is negative\<close>

definition normalized_weights :: "rat list \<Rightarrow> rat list \<Rightarrow> rat list result" where
  "normalized_weights ws pure = (if list_ex (\<lambda>w. w < 0) ws then Inl ValueError
     else let total = fsum ws in if total \<le> 0 then Inr pure else Inr (map (\<lambda>w. fdiv w total) ws))"

subsection \<open>Tiers\<close>

datatype model_tier = Frontier | Mid | Economy

definition infer_model_tier :: "string \<Rightarrow> model_tier" where
  "infer_model_tier model_name = (let normalized = lower model_name in
     if list_ex (\<lambda>marker. contains marker normalized)
       [''-mini'', ''nano'', ''flash'', ''haiku-light'', ''-lite'', ''lite-'', ''-luna''] then Economy
     else if list_ex (\<lambda>marker. contains marker normalized)
       [''gpt-6-astra'', ''gpt-6-sol'', ''gpt-6.1-sol'', ''gpt-5'', ''claude-fable'', ''claude-opus'', ''claude-sonnet-5'',
        ''claude-sonnet-4'', ''gemini-4'', ''gemini-3'', ''kimi-k3'', ''kimi-k2'', ''o3''] then Frontier
     else Mid)"

definition infer_target_tier :: "rat \<Rightarrow> model_tier" where
  "infer_target_tier complexity_score = (if fl (7/10) \<le> complexity_score then Frontier
     else if fl (35/100) \<le> complexity_score then Mid else Economy)"

subsection \<open>Weighted blends\<close>

definition make_weighted_blend :: "rat \<Rightarrow> rat \<Rightarrow> rat \<Rightarrow> rat list result" where
  "make_weighted_blend quality cost latency = normalized_weights [quality, cost, latency] [1, 0, 0]"

definition weighted_blend_score :: "rat list \<Rightarrow> latency_stats \<Rightarrow> catalog \<Rightarrow> router_request \<Rightarrow> task_signals \<Rightarrow>
    model_candidate \<Rightarrow> rat" where
  "weighted_blend_score ws ls cat r s =
     (let cs = eligible cat s;
          cost = by_model (cost_of r s) cs;
          lat = by_model (\<lambda>c. p95 ls (mc_provider c)) cs
      in (\<lambda>c. fadd (fadd (fmul (ws ! 0) (mc_quality_score c))
                         (fmul (ws ! 1) (inverse_min_max (map cost cs) (cost c))))
                   (fmul (ws ! 2) (inverse_min_max (map lat cs) (lat c)))))"

definition weighted_blend_choose :: "rat list \<Rightarrow> latency_stats \<Rightarrow> catalog \<Rightarrow> router_request \<Rightarrow> task_signals \<Rightarrow>
    routing_decision result" where
  "weighted_blend_choose ws ls cat r s =
     (let cs = eligible cat s;
          cost = by_model (cost_of r s) cs;
          score = weighted_blend_score ws ls cat r s
      in pick_by ''weighted-blend'' cat (max_by (\<lambda>c. (score c, mc_quality_score c, - cost c)) cs)
        (\<lambda>c. [Lit ''weighted-blend score '', Fixed 3 (score c), Lit '' (quality='', Fixed 2 (ws ! 0),
          Lit '', cost='', Fixed 2 (ws ! 1), Lit '', latency='', Fixed 2 (ws ! 2), Lit '')'']))"

definition make_health_blend :: "rat \<Rightarrow> rat \<Rightarrow> rat \<Rightarrow> rat \<Rightarrow> rat list result" where
  "make_health_blend success latency quality cost =
     normalized_weights [success, latency, quality, cost] [0, 0, 1, 0]"

definition availability_score :: "(string \<Rightarrow> bool) \<Rightarrow> string \<Rightarrow> rat" where
  "availability_score healthy provider = (if healthy provider then 1 else 0)"

definition health_blend_choose :: "rat list \<Rightarrow> (string \<Rightarrow> bool) \<Rightarrow> success_stats \<Rightarrow> latency_stats \<Rightarrow>
    catalog \<Rightarrow> router_request \<Rightarrow> task_signals \<Rightarrow> routing_decision result" where
  "health_blend_choose ws healthy ss ls cat r s =
     (let cs = eligible cat s;
          avail = by_model (\<lambda>c. availability_score healthy (mc_provider c)) cs;
          healthy_cs = filter (\<lambda>c. 0 < avail c) cs;
          cost = by_model (cost_of r s) cs;
          lat = by_model (\<lambda>c. p95 ls (mc_provider c)) cs;
          rate = by_model (\<lambda>c. success_rate ss (mc_provider c)) cs;
          blended = (\<lambda>c. fadd (fadd (fadd (fmul (ws ! 0) (rate c))
              (fmul (ws ! 1) (inverse_min_max (map lat cs) (lat c))))
              (fmul (ws ! 2) (mc_quality_score c)))
              (fmul (ws ! 3) (inverse_min_max (map cost cs) (cost c))));
          score = (\<lambda>c. if healthy_cs \<noteq> [] then fmul (avail c) (blended c) else blended c)
      in bind_result (of_opt ValueError
           (max_by (\<lambda>c. (score c, rate c, mc_quality_score c, - cost c)) (or_else healthy_cs cs)))
         (\<lambda>c. Inr (decide ''provider-health-score-blend'' c
           [Lit ''provider-health-score-blend score '', Fixed 3 (score c), Lit '' for '', Str (mc_provider c), Lit '' ('',
            Lit (if healthy_cs \<noteq> [] then ''open circuits excluded from primary scoring''
                 else ''no closed circuits; scored all eligible candidates''),
            Lit ''; availability='', Fixed 0 (avail c), Lit '', success='', Percent 2 (rate c), Lit '', p95='', Fixed 1 (lat c),
            Lit ''ms, quality='', Fixed 2 (mc_quality_score c), Lit '', est_cost=$'', Fixed 6 (cost c),
            Lit ''; weights success='', Fixed 2 (ws ! 0), Lit '', latency='', Fixed 2 (ws ! 1),
            Lit '', quality='', Fixed 2 (ws ! 2), Lit '', cost='', Fixed 2 (ws ! 3), Lit '')'']
           (sorted_by (\<lambda>c. (avail c \<le> 0, - score c, - rate c, - mc_quality_score c, cost c))
             (without (mc_model c) cs)))))"

definition make_health_cost_latency :: "rat \<Rightarrow> rat \<Rightarrow> rat \<Rightarrow> rat list result" where
  "make_health_cost_latency health cost latency = normalized_weights [health, cost, latency] [1, 0, 0]"

definition health_cost_latency_choose :: "rat list \<Rightarrow> success_stats \<Rightarrow> latency_stats \<Rightarrow>
    catalog \<Rightarrow> router_request \<Rightarrow> task_signals \<Rightarrow> routing_decision result" where
  "health_cost_latency_choose ws ss ls cat r s =
     (let cs = eligible cat s;
          cost = by_model (cost_of r s) cs;
          lat = by_model (\<lambda>c. p95 ls (mc_provider c)) cs;
          rate = by_model (\<lambda>c. success_rate ss (mc_provider c)) cs;
          score = (\<lambda>c. fadd (fadd (fmul (ws ! 0) (rate c))
              (fmul (ws ! 1) (inverse_min_max (map cost cs) (cost c))))
              (fmul (ws ! 2) (inverse_min_max (map lat cs) (lat c))))
      in bind_result (of_opt ValueError (max_by (\<lambda>c. (score c, rate c, - cost c, - lat c)) cs))
         (\<lambda>c. Inr (decide ''health-cost-latency'' c
           [Lit ''health-cost-latency score '', Fixed 3 (score c), Lit '' for '', Str (mc_provider c), Lit '' (health='',
            Percent 2 (rate c), Lit '', p95='', Fixed 1 (lat c), Lit ''ms, est_cost=$'', Fixed 6 (cost c),
            Lit ''; weights health='', Fixed 2 (ws ! 0), Lit '', cost='', Fixed 2 (ws ! 1),
            Lit '', latency='', Fixed 2 (ws ! 2), Lit '')'']
           (sorted_by (\<lambda>c. (- score c, - rate c, cost c, lat c)) (without (mc_model c) cs)))))"

subsection \<open>The best model within a limit\<close>

definition make_budget_aware :: "rat \<Rightarrow> rat result" where
  "make_budget_aware cost_limit = (if cost_limit < 0 then Inl ValueError else Inr cost_limit)"

definition budget_aware_choose :: "rat \<Rightarrow> catalog \<Rightarrow> router_request \<Rightarrow> task_signals \<Rightarrow> routing_decision result" where
  "budget_aware_choose cost_limit cat r s =
     (let cs = eligible cat s;
          cost = by_model (cost_of r s) cs;
          affordable = filter (\<lambda>c. cost c \<le> cost_limit) cs
      in if affordable \<noteq> []
         then pick_by ''budget-aware'' cat (max_by (\<lambda>c. (mc_quality_score c, - cost c)) affordable)
           (\<lambda>c. [Lit ''budget-aware selected highest quality '', Fixed 2 (mc_quality_score c), Lit '' within $'',
             Fixed 4 cost_limit, Lit '' ceiling (est $'', Fixed 6 (cost c), Lit '')''])
         else pick_by ''budget-aware'' cat (min_by (\<lambda>c. (cost c, - mc_quality_score c)) cs)
           (\<lambda>c. [Lit ''budget-aware found no model within $'', Fixed 4 cost_limit,
             Lit '' ceiling; routed to cheapest eligible model (est $'', Fixed 6 (cost c), Lit '')'']))"

definition make_family_cost_ceiling :: "rat \<Rightarrow> (string \<times> rat) list \<Rightarrow> (rat \<times> (string \<times> rat) list) result" where
  "make_family_cost_ceiling default_limit overrides =
     (if default_limit < 0 \<or> list_ex (\<lambda>(f, v). v < 0) overrides then Inl ValueError else Inr (default_limit, overrides))"

definition family_limit :: "rat \<times> (string \<times> rat) list \<Rightarrow> string \<Rightarrow> rat" where
  "family_limit lims provider = (case map_of (snd lims) provider of Some v \<Rightarrow> v | None \<Rightarrow> fst lims)"

definition family_cost_ceiling_choose :: "rat \<times> (string \<times> rat) list \<Rightarrow> catalog \<Rightarrow> router_request \<Rightarrow> task_signals \<Rightarrow>
    routing_decision result" where
  "family_cost_ceiling_choose lims cat r s =
     (let cs = eligible cat s;
          cost = by_model (cost_of r s) cs;
          affordable = filter (\<lambda>c. cost c \<le> family_limit lims (mc_provider c)) cs
      in if affordable \<noteq> []
         then pick_by ''provider-family-cost-ceiling'' cat (max_by (\<lambda>c. (mc_quality_score c, - cost c)) affordable)
           (\<lambda>c. [Lit ''provider-family-cost-ceiling selected '', Str (mc_provider c), Lit '' family quality '',
             Fixed 2 (mc_quality_score c), Lit '' within $'', Fixed 4 (family_limit lims (mc_provider c)),
             Lit '' ceiling (est $'', Fixed 6 (cost c), Lit '')''])
         else pick_by ''provider-family-cost-ceiling'' cat (min_by (\<lambda>c. (cost c, - mc_quality_score c)) cs)
           (\<lambda>c. [Lit ''provider-family-cost-ceiling found no model within any family ceiling; fell back across families to cheapest eligible '',
             Str (mc_provider c), Lit ''/'', Str (mc_model c), Lit '' (est $'', Fixed 6 (cost c), Lit '')'']))"

definition make_latency_budget :: "rat \<Rightarrow> rat result" where
  "make_latency_budget sla_ms = (if sla_ms < 0 then Inl ValueError else Inr sla_ms)"

definition latency_budget_choose :: "latency_stats \<Rightarrow> rat \<Rightarrow> catalog \<Rightarrow> router_request \<Rightarrow> task_signals \<Rightarrow>
    routing_decision result" where
  "latency_budget_choose ls sla_ms cat r s =
     (let cs = eligible cat s;
          lat = by_model (\<lambda>c. p95 ls (mc_provider c)) cs;
          in_sla = filter (\<lambda>c. lat c \<le> sla_ms) cs
      in if in_sla \<noteq> []
         then pick_by ''latency-budget'' cat (max_by (\<lambda>c. (mc_quality_score c, - lat c)) in_sla)
           (\<lambda>c. [Lit ''latency-budget selected highest quality '', Fixed 2 (mc_quality_score c), Lit '' within '',
             Fixed 0 sla_ms, Lit ''ms SLA (provider p95 '', Fixed 1 (lat c), Lit ''ms)''])
         else pick_by ''latency-budget'' cat (min_by (\<lambda>c. (lat c, - mc_quality_score c)) cs)
           (\<lambda>c. [Lit ''latency-budget found no provider within '', Fixed 0 sla_ms,
             Lit ''ms SLA; routed to lowest-latency model (provider p95 '', Fixed 1 (lat c), Lit ''ms)'']))"

subsection \<open>Value and complexity\<close>

definition COST_EPSILON_USD :: rat where
  "COST_EPSILON_USD = fl (1 / 10 ^ 9)"

definition value_ratio :: "rat \<Rightarrow> rat \<Rightarrow> rat" where
  "value_ratio quality cost = fdiv quality (max cost COST_EPSILON_USD)"

definition value_choose :: "catalog \<Rightarrow> router_request \<Rightarrow> task_signals \<Rightarrow> routing_decision result" where
  "value_choose cat r s =
     (let cs = eligible cat s;
          cost = by_model (cost_of r s) cs
      in pick_by ''value'' cat
        (max_by (\<lambda>c. (value_ratio (mc_quality_score c) (cost c), mc_quality_score c, - cost c)) cs)
        (\<lambda>c. [Lit ''value routing selected best quality-per-dollar (quality '', Fixed 2 (mc_quality_score c),
          Lit '', est $'', Fixed 6 (cost c), Lit '')'']))"

definition complexity_tier_choose :: "catalog \<Rightarrow> router_request \<Rightarrow> task_signals \<Rightarrow> routing_decision result" where
  "complexity_tier_choose cat r s =
     (let cs = eligible cat s;
          required = ts_complexity_score s;
          cost = by_model (cost_of r s) cs;
          admitted = filter (\<lambda>c. required \<le> mc_quality_score c) cs
      in if admitted \<noteq> []
         then pick_by ''complexity-tier'' cat (min_by (\<lambda>c. (cost c, - mc_quality_score c)) admitted)
           (\<lambda>c. [Lit ''complexity-tier admitted quality>='', Fixed 2 required, Lit '' and picked cheapest (quality '',
             Fixed 2 (mc_quality_score c), Lit '', est $'', Fixed 6 (cost c), Lit '')''])
         else pick_by ''complexity-tier'' cat (max_by (\<lambda>c. (mc_quality_score c, - cost c)) cs)
           (\<lambda>c. [Lit ''complexity-tier found no model meeting quality>='', Fixed 2 required,
             Lit ''; routed to highest-quality candidate (quality '', Fixed 2 (mc_quality_score c), Lit '')'']))"

subsection \<open>Hashed ids\<close>

definition sticky_session_choose :: "catalog \<Rightarrow> router_request \<Rightarrow> task_signals \<Rightarrow> routing_decision result" where
  "sticky_session_choose cat r s =
     (let ordered = sorted_by mc_model (eligible cat s);
          bucket = nat (hash32 (rq_session_id r) mod int (length ordered))
      in if ordered = [] then Inl ZeroDivisionError
         else decision ''sticky-session'' cat (mc_model (ordered ! bucket))
           [Lit ''sticky-session pinned session '', Lit [CHR 0x27], Str (rq_session_id r), Lit [CHR 0x27], Lit '' to '',
            Str (mc_model (ordered ! bucket)), Lit '' (bucket '', IntF (int bucket), Lit ''/'',
            IntF (int (length ordered)), Lit '')''])"

record canary_config =
  cn_stable_model :: string
  cn_canary_model :: string
  cn_canary_weight :: rat

definition make_canary :: "catalog \<Rightarrow> string \<Rightarrow> string \<Rightarrow> rat \<Rightarrow> canary_config result" where
  "make_canary cat stable_model canary_model weight =
     (if list_ex (\<lambda>m. m \<notin> fst ` set cat) [stable_model, canary_model] \<or> \<not> (0 \<le> weight \<and> weight \<le> 1) then Inl ValueError
      else Inr \<lparr> cn_stable_model = stable_model, cn_canary_model = canary_model, cn_canary_weight = weight \<rparr>)"

definition canary_fallback_chain :: "canary_config \<Rightarrow> catalog \<Rightarrow> string \<Rightarrow> string list" where
  "canary_fallback_chain cn cat chosen =
     (let quality_ordered = fallback_chain cat chosen in
      if chosen = cn_canary_model cn \<and> cn_stable_model cn \<noteq> chosen
      then take 3 (cn_stable_model cn # filter (\<lambda>m. m \<noteq> cn_stable_model cn) quality_ordered)
      else quality_ordered)"

definition canary_decision :: "strategy_name \<Rightarrow> canary_config \<Rightarrow> catalog \<Rightarrow> string \<Rightarrow> fstring \<Rightarrow> routing_decision result" where
  "canary_decision name cn cat model rationale = bind_result (catalog_get cat model) (\<lambda>c.
     Inr \<lparr> rd_chosen_model = model, rd_provider = mc_provider c, rd_routing_strategy = name,
           rd_rationale = rationale, rd_fallback_chain = canary_fallback_chain cn cat model \<rparr>)"

definition hash_fraction :: "string \<Rightarrow> rat" where
  "hash_fraction key = idiv (hash32 key) 0xFFFFFFFF"

definition canary_choose :: "canary_config \<Rightarrow> (string \<Rightarrow> bool) \<Rightarrow> catalog \<Rightarrow> router_request \<Rightarrow> task_signals \<Rightarrow>
    routing_decision result" where
  "canary_choose cn healthy cat r s = bind_result (catalog_get cat (cn_canary_model cn)) (\<lambda>k.
     let bucket = hash_fraction (rq_request_id r); weight = cn_canary_weight cn in
     if \<not> healthy (mc_provider k)
     then canary_decision ''canary'' cn cat (cn_stable_model cn) [Lit ''canary paused: provider '', Str (mc_provider k),
       Lit '' is unhealthy; routed to stable model'']
     else if bucket < weight
     then canary_decision ''canary'' cn cat (cn_canary_model cn) [Lit ''canary bucket='', Fixed 4 bucket, Lit '' < weight '',
       Fixed 2 weight, Lit ''; routed to canary model'']
     else canary_decision ''canary'' cn cat (cn_stable_model cn) [Lit ''canary bucket='', Fixed 4 bucket, Lit '' >= weight '',
       Fixed 2 weight, Lit ''; routed to stable model''])"

subsection \<open>The contract\<close>

lemma pick_by_ok: "wf_catalog cat \<Longrightarrow> pick_by name cat sel ra = Inr d \<Longrightarrow> decision_ok cat d"
  by (auto simp: pick_by_def bind_result_Inr intro: decision_Inr)

lemma pick_max_total:
  assumes "wf_catalog cat" "xs \<noteq> []" "set xs \<subseteq> set (catalog_values cat)"
  shows "\<exists>d. pick_by name cat (max_by f xs) ra = Inr d"
  using max_by_Some [OF assms(2), of f] decision_value [OF assms(1)] assms(3) by (fastforce simp: pick_by_def)

lemma pick_min_total:
  assumes "wf_catalog cat" "xs \<noteq> []" "set xs \<subseteq> set (catalog_values cat)"
  shows "\<exists>d. pick_by name cat (min_by f xs) ra = Inr d"
  using min_by_Some [OF assms(2), of f] decision_value [OF assms(1)] assms(3) by (fastforce simp: pick_by_def)

lemma filter_eligible_values: "set (filter P (eligible cat s)) \<subseteq> set (catalog_values cat)"
  using eligible_sub by auto

lemmas pick_total = pick_max_total pick_min_total eligible_nonempty filter_eligible_values eligible_sub

lemma pick_if:
  "(P \<Longrightarrow> \<exists>d. a = Inr d) \<Longrightarrow> (\<not> P \<Longrightarrow> \<exists>d. b = Inr d) \<Longrightarrow> \<exists>d. (if P then a else b) = Inr d"
  by simp

lemma pick_if_ok:
  "wf_catalog cat \<Longrightarrow> (if P then pick_by n cat x ra else pick_by n cat y rb) = Inr d \<Longrightarrow> decision_ok cat d"
  by (cases P) (auto intro: pick_by_ok)

interpretation weighted_blend: total_strategy "weighted_blend_choose ws ls" for ws ls
  unfolding weighted_blend_choose_def Let_def
  by unfold_locales (erule pick_by_ok, assumption, intro pick_total, assumption+)

interpretation budget_aware: total_strategy "budget_aware_choose b" for b
  unfolding budget_aware_choose_def Let_def
  by unfold_locales (erule pick_if_ok, assumption, intro pick_if pick_total, assumption+)

interpretation family_cost_ceiling: total_strategy "family_cost_ceiling_choose lims" for lims
  unfolding family_cost_ceiling_choose_def Let_def
  by unfold_locales (erule pick_if_ok, assumption, intro pick_if pick_total, assumption+)

interpretation latency_budget: total_strategy "latency_budget_choose ls sla" for ls sla
  unfolding latency_budget_choose_def Let_def
  by unfold_locales (erule pick_if_ok, assumption, intro pick_if pick_total, assumption+)

interpretation value_routing: total_strategy value_choose
  unfolding value_choose_def Let_def
  by unfold_locales (erule pick_by_ok, assumption, intro pick_total, assumption+)

interpretation complexity_tier: total_strategy complexity_tier_choose
  unfolding complexity_tier_choose_def Let_def
  by unfold_locales (erule pick_if_ok, assumption, intro pick_if pick_total, assumption+)

text \<open>A decision whose fallbacks are the other eligible models in some order\<close>

lemma decide_rest_ok:
  assumes "wf_catalog cat" "c \<in> set (eligible cat s)"
  shows "decision_ok cat (decide name c ra (sorted_by f (without (mc_model c) (eligible cat s))))"
  using assms by (intro decide_sorted_ok) (auto simp: eligible_value)

lemma selected_ok:
  assumes "wf_catalog cat" "bind_result (of_opt ValueError (max_by f (or_else (filter P (eligible cat s)) (eligible cat s))))
      (\<lambda>c. Inr (decide name c (ra c) (sorted_by (g c) (without (mc_model c) (eligible cat s))))) = Inr d"
  shows "decision_ok cat d"
  using assms by (auto simp: bind_result_Inr or_else_def intro!: decide_rest_ok dest!: max_by_in split: if_splits)

lemma selected_total:
  assumes "xs \<noteq> []" shows "\<exists>d. bind_result (of_opt ValueError (max_by f xs)) (\<lambda>c. Inr (k c)) = Inr d"
  using max_by_Some [OF assms, of f] by auto

interpretation health_blend: total_strategy "health_blend_choose ws h ss ls" for ws h ss ls
  unfolding health_blend_choose_def Let_def
  by unfold_locales (erule selected_ok, assumption, rule selected_total, simp)

lemma selected_all_ok:
  assumes "wf_catalog cat" "bind_result (of_opt ValueError (max_by f (eligible cat s)))
      (\<lambda>c. Inr (decide name c (ra c) (sorted_by (g c) (without (mc_model c) (eligible cat s))))) = Inr d"
  shows "decision_ok cat d"
  using assms by (auto simp: bind_result_Inr intro!: decide_rest_ok dest!: max_by_in)

interpretation health_cost_latency: total_strategy "health_cost_latency_choose ws ss ls" for ws ss ls
  unfolding health_cost_latency_choose_def Let_def
  by unfold_locales (erule selected_all_ok, assumption, rule selected_total, simp)

lemma nth_sorted_by: "i < length (sorted_by f xs) \<Longrightarrow> sorted_by f xs ! i \<in> set xs"
  by (metis nth_mem set_sorted_by)

interpretation sticky_session: total_strategy sticky_session_choose
proof
  fix cat r s d
  assume wf: "wf_catalog cat"
  show "sticky_session_choose cat r s = Inr d \<Longrightarrow> decision_ok cat d"
    using wf by (auto simp: sticky_session_choose_def Let_def intro: decision_Inr split: if_splits)
  let ?o = "sorted_by mc_model (eligible cat s)"
  have ne: "?o \<noteq> []" using wf by simp
  then have "0 < int (length ?o)" by simp
  then have "nat (hash32 (rq_session_id r) mod int (length ?o)) < length ?o"
    by (metis nat_less_iff pos_mod_bound pos_mod_sign)
  from nth_sorted_by [OF this]
  have "?o ! nat (hash32 (rq_session_id r) mod int (length ?o)) \<in> set (catalog_values cat)"
    by (rule eligible_value)
  then show "\<exists>d. sticky_session_choose cat r s = Inr d"
    unfolding sticky_session_choose_def Let_def if_not_P [OF ne] by (rule decision_value [OF wf])
qed

text \<open>The canary keeps the contract once its constructor has accepted it for the catalog.\<close>

definition canary_ok :: "catalog \<Rightarrow> canary_config \<Rightarrow> bool" where
  "canary_ok cat cn \<longleftrightarrow> cn_stable_model cn \<in> fst ` set cat \<and> cn_canary_model cn \<in> fst ` set cat"

lemma make_canary_ok: "make_canary cat st ca w = Inr cn \<Longrightarrow> canary_ok cat cn"
  by (force simp: make_canary_def canary_ok_def split: if_splits)

lemma canary_fallback_ok:
  assumes "wf_catalog cat" "canary_ok cat cn"
  shows "m \<notin> set (canary_fallback_chain cn cat m)" "set (canary_fallback_chain cn cat m) \<subseteq> fst ` set cat"
    "distinct (canary_fallback_chain cn cat m)" "length (canary_fallback_chain cn cat m) \<le> 3"
proof -
  let ?c = "canary_fallback_chain cn cat m" and ?q = "filter (\<lambda>m. m \<noteq> cn_stable_model cn) (fallback_chain cat m)"
  note f = fallback_chain_ok [OF assms(1), of m]
  have "m \<notin> set ?c \<and> set ?c \<subseteq> fst ` set cat \<and> distinct ?c \<and> length ?c \<le> 3"
  proof (cases "m = cn_canary_model cn \<and> cn_stable_model cn \<noteq> m")
    case True
    then have c: "?c = cn_stable_model cn # take 2 ?q" by (auto simp: canary_fallback_chain_def Let_def)
    have "set (take 2 ?q) \<subseteq> set (fallback_chain cat m) - {cn_stable_model cn}" using set_take_subset [of 2 ?q] by auto
    then show ?thesis using f assms(2) True unfolding c canary_ok_def by auto
  next
    case False
    then have "?c = fallback_chain cat m" by (auto simp: canary_fallback_chain_def Let_def)
    then show ?thesis using f by simp
  qed
  then show "m \<notin> set ?c" "set ?c \<subseteq> fst ` set cat" "distinct ?c" "length ?c \<le> 3" by blast+
qed

lemma canary_decision_ok:
  "wf_catalog cat \<Longrightarrow> canary_ok cat cn \<Longrightarrow> canary_decision name cn cat m ra = Inr d \<Longrightarrow> decision_ok cat d"
  using canary_fallback_ok [of cat cn m] by (auto simp: canary_decision_def bind_result_Inr catalog_get_def decision_ok_def)

lemma canary_chosen_ok:
  "wf_catalog cat \<Longrightarrow> canary_ok cat cn \<Longrightarrow> canary_choose cn h cat r s = Inr d \<Longrightarrow> decision_ok cat d"
  by (auto simp: canary_choose_def bind_result_Inr Let_def intro: canary_decision_ok split: if_splits)

text \<open>An unhealthy canary gets no traffic; a healthy one gets the requests whose bucket is below the
  weight. The largest bucket is 1, so even the full weight leaves the last hash value on the stable
  model.\<close>

lemma canary_arm:
  assumes "canary_ok cat cn" "map_of cat (cn_canary_model cn) = Some k"
  shows "\<exists>d. canary_choose cn h cat r s = Inr d \<and> rd_chosen_model d =
    (if h (mc_provider k) \<and> hash_fraction (rq_request_id r) < cn_canary_weight cn
     then cn_canary_model cn else cn_stable_model cn)"
proof -
  have "\<exists>d. canary_decision name cn cat m ra = Inr d \<and> rd_chosen_model d = m" if "m \<in> fst ` set cat" for m ra and name :: strategy_name
    using that by (cases "map_of cat m") (auto simp: canary_decision_def catalog_get_def map_of_eq_None_iff)
  with assms show ?thesis by (auto simp: canary_choose_def catalog_get_def Let_def canary_ok_def)
qed

lemma full_weight_misses_the_last_bucket:
  assumes "hash32 (rq_request_id r) = 2 ^ 32 - 1" "cn_canary_weight cn = 1"
  shows "\<not> hash_fraction (rq_request_id r) < cn_canary_weight cn"
  using assms by (simp add: hash_fraction_def idiv_def)

subsection \<open>What the limits buy\<close>

text \<open>Scores are within 0 and 1, the least value scores 1 and the greatest 0.\<close>

lemma inverse_min_max_bounds:
  assumes "v \<in> set vs"
  shows "0 \<le> inverse_min_max vs v \<and> inverse_min_max vs v \<le> 1"
proof -
  have b: "Min (set vs) \<le> v" "v \<le> Max (set vs)" using assms by simp_all
  then have "fsub (Max (set vs)) v \<le> fsub (Max (set vs)) (Min (set vs))" "0 \<le> fsub (Max (set vs)) v"
    by (simp_all add: fsub_def fl_mono dbl.nonneg)
  then show ?thesis
    by (auto simp: inverse_min_max_def Let_def fdiv_def intro!: dbl.nonneg dbl.ratio_le_one)
qed

lemma pick_by_chosen:
  assumes "wf_catalog cat" "sel = Some c" "c \<in> set (catalog_values cat)"
  shows "\<exists>d. pick_by name cat sel ra = Inr d \<and> map_of cat (rd_chosen_model d) = Some c"
  using decision_of_value [OF assms(1,3)] assms(2) by (auto simp: pick_by_def)

text \<open>
  C27. Budget-aware routing always decides: if some eligible model fits the cost limit, it picks one
  that fits, and no eligible model of higher quality, nor an equally good cheaper one, fits; if none
  fits it picks a cheapest eligible model.
\<close>

theorem budget_aware_is_optimal:
  assumes wf: "wf_catalog cat"
  shows "\<exists>d c. budget_aware_choose cost_limit cat r s = Inr d \<and> map_of cat (rd_chosen_model d) = Some c \<and>
    c \<in> set (eligible cat s) \<and>
    (\<forall>k \<in> set (eligible cat s).
       if cost_of r s c \<le> cost_limit
       then cost_of r s k \<le> cost_limit \<longrightarrow> mc_quality_score k < mc_quality_score c \<or>
         mc_quality_score k = mc_quality_score c \<and> cost_of r s c \<le> cost_of r s k
       else cost_limit < cost_of r s k \<and> cost_of r s c \<le> cost_of r s k)"
proof -
  let ?cs = "eligible cat s" and ?cost = "by_model (cost_of r s) (eligible cat s)"
  let ?fit = "filter (\<lambda>c. ?cost c \<le> cost_limit) ?cs"
  have cost: "?cost k = cost_of r s k" if "k \<in> set ?cs" for k using that wf by simp
  show ?thesis
  proof (cases "?fit = []")
    case False
    then obtain c where c: "max_by (\<lambda>c. (mc_quality_score c, - ?cost c)) ?fit = Some c" "c \<in> set ?fit"
      using max_by_Some by blast
    obtain d where "budget_aware_choose cost_limit cat r s = Inr d" "map_of cat (rd_chosen_model d) = Some c"
      using pick_by_chosen [OF wf c(1) eligible_value] c(2) False
      by (simp add: budget_aware_choose_def Let_def) blast
    moreover have "mc_quality_score k < mc_quality_score c \<or> mc_quality_score k = mc_quality_score c \<and> cost_of r s c \<le> cost_of r s k"
      if "k \<in> set ?cs" "cost_of r s k \<le> cost_limit" for k
      using max_by_ge [OF c(1), of k] that c(2) by (auto simp: cost)
    moreover have "c \<in> set ?cs" "cost_of r s c \<le> cost_limit" using c(2) by (auto simp: cost)
    ultimately show ?thesis by auto
  next
    case True
    obtain c where c: "min_by (\<lambda>c. (?cost c, - mc_quality_score c)) ?cs = Some c" "c \<in> set ?cs"
      using min_by_Some [OF eligible_nonempty [OF wf]] by blast
    obtain d where "budget_aware_choose cost_limit cat r s = Inr d" "map_of cat (rd_chosen_model d) = Some c"
      using pick_by_chosen [OF wf c(1) eligible_value [OF c(2)]] True
      by (simp add: budget_aware_choose_def Let_def) blast
    moreover have dear: "cost_limit < cost_of r s k \<and> cost_of r s c \<le> cost_of r s k" if "k \<in> set ?cs" for k
    proof -
      have "\<not> ?cost k \<le> cost_limit" using True that by (simp add: filter_empty_conv)
      then show ?thesis using min_by_le [OF c(1) that] c(2) that by (auto simp: cost split: if_splits)
    qed
    moreover have "\<not> cost_of r s c \<le> cost_limit" using dear [OF c(2)] by simp
    ultimately show ?thesis using c(2) by auto
  qed
qed

theorem budget_aware_is_optimal_witness:
  "\<exists>d. budget_aware_choose 1 default_model_catalog demo_request demo_signals = Inr d"
  using budget_aware_is_optimal [OF default_catalog_wf] by blast

end
