(* ===== verification/Strategies_Spread.thy ===== *)
theory Strategies_Spread
  imports Strategies_Score
begin

text \<open>
  The strategies of \<open>src/router/strategies.py\<close> that spread or place traffic: round robin over the
  providers, cost cascades, epsilon-greedy exploration, A/B arms, context windows and token budgets,
  and regions. All of them are deterministic: what looks random is a hash of an id of the request.
\<close>

subsection \<open>Spreading by hash\<close>

definition round_robin_choose :: "catalog \<Rightarrow> router_request \<Rightarrow> task_signals \<Rightarrow> routing_decision result" where
  "round_robin_choose cat r s =
     (let cs = eligible cat s;
          providers = sorted_list_of_set (mc_provider ` set cs);
          bucket = nat (hash32 (rq_request_id r) mod int (length providers));
          provider = providers ! bucket
      in if providers = [] then Inl ZeroDivisionError
         else pick_by ''round-robin'' cat
           (max_by (\<lambda>c. (mc_quality_score c, - cost_of r s c)) (filter (\<lambda>c. mc_provider c = provider) cs))
           (\<lambda>c. [Lit ''round-robin balanced to provider '', Lit [CHR 0x27], Str provider, Lit [CHR 0x27], Lit '' (bucket '',
             IntF (int bucket), Lit ''/'', IntF (int (length providers)), Lit ''); picked its best eligible model '',
             Str (mc_model c), Lit '' (quality '', Fixed 2 (mc_quality_score c), Lit '')'']))"

definition make_epsilon_greedy :: "rat \<Rightarrow> rat result" where
  "make_epsilon_greedy epsilon = (if \<not> (0 \<le> epsilon \<and> epsilon \<le> 1) then Inl ValueError else Inr epsilon)"

definition epsilon_greedy_choose :: "rat \<Rightarrow> catalog \<Rightarrow> router_request \<Rightarrow> task_signals \<Rightarrow> routing_decision result" where
  "epsilon_greedy_choose epsilon cat r s =
     (let cs = eligible cat s;
          bucket = hash_fraction (rq_request_id r);
          ordered = sorted_by mc_model cs;
          index = nat (hash32 (rq_request_id r @ '':explore'') mod int (length cs));
          c = ordered ! index
      in if bucket < epsilon
         then (if cs = [] then Inl ZeroDivisionError
               else decision ''epsilon-greedy'' cat (mc_model c)
                 [Lit ''epsilon-greedy explore bucket='', Fixed 4 bucket, Lit '' < epsilon '', Fixed 2 epsilon,
                  Lit ''; uniform arm '', IntF (int index), Lit ''/'', IntF (int (length ordered)), Lit '' -> '',
                  Str (mc_model c), Lit '' (quality '', Fixed 2 (mc_quality_score c), Lit '')''])
         else pick_by ''epsilon-greedy'' cat (max_by (\<lambda>c. (mc_quality_score c, mc_model c)) cs)
           (\<lambda>c. [Lit ''epsilon-greedy exploit bucket='', Fixed 4 bucket, Lit '' >= epsilon '', Fixed 2 epsilon,
             Lit ''; routed to highest-quality eligible model '', Str (mc_model c), Lit '' (quality '',
             Fixed 2 (mc_quality_score c), Lit '')'']))"

record ab_config =
  ab_model_a :: string
  ab_model_b :: string
  ab_model_a_weight :: rat

definition make_ab :: "catalog \<Rightarrow> string \<Rightarrow> string \<Rightarrow> rat \<Rightarrow> ab_config result" where
  "make_ab cat a b weight =
     (if list_ex (\<lambda>m. m \<notin> fst ` set cat) [a, b] \<or> \<not> (0 \<le> weight \<and> weight \<le> 1) then Inl ValueError
      else Inr \<lparr> ab_model_a = a, ab_model_b = b, ab_model_a_weight = weight \<rparr>)"

definition ab_choose :: "ab_config \<Rightarrow> catalog \<Rightarrow> router_request \<Rightarrow> task_signals \<Rightarrow> routing_decision result" where
  "ab_choose ab cat r s =
     (let bucket = hash_fraction (rq_request_id r);
          m = (if bucket < ab_model_a_weight ab then ab_model_a ab else ab_model_b ab)
      in decision ''ab'' cat m [Lit ''A/B bucket='', Fixed 4 bucket, Lit '' routed to '', Str m])"

subsection \<open>Cost cascades and token budgets\<close>

text \<open>\<open>realtime_eligible or domain_eligible or list(catalog.values())\<close>\<close>

definition realtime_pool :: "catalog \<Rightarrow> task_signals \<Rightarrow> model_candidate list" where
  "realtime_pool cat s =
     or_else (filter (\<lambda>c. mc_supports_realtime c \<or> ts_latency_requirement s = Batch) (supporting_domain cat s))
       (or_else (supporting_domain cat s) (catalog_values cat))"

definition cost_ordered_candidates :: "catalog \<Rightarrow> router_request \<Rightarrow> task_signals \<Rightarrow> model_candidate list" where
  "cost_ordered_candidates cat r s =
     sorted_by (\<lambda>c. (cost_of r s c, - mc_quality_score c, mc_model c)) (realtime_pool cat s)"

definition ranked_decision :: "strategy_name \<Rightarrow> model_candidate list \<Rightarrow> (model_candidate \<Rightarrow> fstring) \<Rightarrow>
    routing_decision result" where
  "ranked_decision name ranked rationale = (case ranked of
      [] \<Rightarrow> Inl IndexError
    | c # cs \<Rightarrow> Inr (decide name c (rationale c) cs))"

definition cascade_choose :: "catalog \<Rightarrow> router_request \<Rightarrow> task_signals \<Rightarrow> routing_decision result" where
  "cascade_choose cat r s = ranked_decision ''cascade'' (cost_ordered_candidates cat r s)
     (\<lambda>c. [Lit ''cascade routed to cheapest eligible model '', Str (mc_model c), Lit '' (quality '',
       Fixed 2 (mc_quality_score c), Lit '', est $'', Fixed 6 (cost_of r s c),
       Lit ''); fallback escalates by ascending cost''])"

definition effective_capacity :: "router_request \<Rightarrow> model_candidate \<Rightarrow> int" where
  "effective_capacity r c = min (mc_context_window c) (rq_token_budget r)"

definition prompt_capacity :: "router_request \<Rightarrow> model_candidate \<Rightarrow> int" where
  "prompt_capacity r c = min (input_token_limit c) (mc_context_window c - rq_max_tokens r)"

definition token_budget_choose :: "catalog \<Rightarrow> router_request \<Rightarrow> task_signals \<Rightarrow> routing_decision result" where
  "token_budget_choose cat r s =
     (let cs = eligible cat s;
          needed = ts_prompt_tokens_estimate s + rq_max_tokens r;
          fitting = filter (\<lambda>c. needed \<le> effective_capacity r c \<and> ts_prompt_tokens_estimate s \<le> input_token_limit c) cs
      in if fitting \<noteq> []
         then ranked_decision ''token-budget'' (sorted_rev_by (\<lambda>c. (mc_quality_score c, mc_context_window c)) fitting)
           (\<lambda>c. [Lit ''token-budget selected highest quality '', Fixed 2 (mc_quality_score c), Lit '' fitting '', IntF needed,
             Lit '' tokens within min(context='', IntF (mc_context_window c), Lit '', budget='', IntF (rq_token_budget r), Lit '')''])
         else ranked_decision ''token-budget''
           (sorted_rev_by (\<lambda>c. (prompt_capacity r c, mc_context_window c, mc_quality_score c)) cs)
           (\<lambda>c. [Lit ''token-budget found no model fitting '', IntF needed, Lit '' tokens within budget '', IntF (rq_token_budget r),
             Lit ''; routed to largest prompt capacity '', IntF (prompt_capacity r c), Lit '' after reserving '',
             IntF (rq_max_tokens r), Lit '' completion tokens (context '', IntF (mc_context_window c), Lit '')'']))"

subsection \<open>Regions\<close>

definition requested_region :: "router_request \<Rightarrow> string" where
  "requested_region r = lower (strip (case rq_region r of None \<Rightarrow> ''global'' | Some x \<Rightarrow> if x = [] then ''global'' else x))"

definition matches_region :: "string \<Rightarrow> model_candidate \<Rightarrow> bool" where
  "matches_region region c \<longleftrightarrow> region \<in> lower ` mc_supported_regions c"

definition quality_key :: "router_request \<Rightarrow> task_signals \<Rightarrow> model_candidate \<Rightarrow> rat \<times> rat" where
  "quality_key r s c = (mc_quality_score c, - cost_of r s c)"

definition geo_region_choose :: "catalog \<Rightarrow> router_request \<Rightarrow> task_signals \<Rightarrow> routing_decision result" where
  "geo_region_choose cat r s =
     (let cs = eligible cat s; region = requested_region r; matching = filter (matches_region region) cs
      in if matching \<noteq> []
         then pick_by ''geo-region'' cat (max_by (quality_key r s) matching)
           (\<lambda>c. [Lit ''geo-region matched region '', Lit [CHR 0x27], Str region, Lit [CHR 0x27], Lit '' to '', Str (mc_model c),
             Lit '' (quality '', Fixed 2 (mc_quality_score c), Lit '')''])
         else pick_by ''geo-region'' cat (max_by (quality_key r s) cs)
           (\<lambda>c. [Lit ''geo-region found no model for region '', Lit [CHR 0x27], Str region, Lit [CHR 0x27],
             Lit ''; fell back to highest-quality eligible model '', Str (mc_model c)]))"

fun tier_value :: "model_tier \<Rightarrow> string" where
  "tier_value Frontier = ''frontier''" | "tier_value Mid = ''mid''" | "tier_value Economy = ''economy''"

definition region_tier_choose :: "catalog \<Rightarrow> router_request \<Rightarrow> task_signals \<Rightarrow> routing_decision result" where
  "region_tier_choose cat r s =
     (let cs = eligible cat s; region = requested_region r; tier = infer_target_tier (ts_complexity_score s);
          in_tier = (\<lambda>c. infer_model_tier (mc_model c) = tier);
          both = filter (\<lambda>c. matches_region region c \<and> in_tier c) cs;
          tier_matches = filter in_tier cs;
          region_matches = filter (matches_region region) cs;
          quoted = [Lit [CHR 0x27], Str region, Lit [CHR 0x27]]; tv = Str (tier_value tier);
          chosen = (\<lambda>c. [Str (mc_model c), Lit '' (quality '', Fixed 2 (mc_quality_score c), Lit '')''])
      in if both \<noteq> []
         then pick_by ''region-tier-affinity'' cat (max_by (quality_key r s) both)
           (\<lambda>c. [Lit ''region-tier-affinity matched region ''] @ quoted @ [Lit '' and '', tv, Lit '' tier to ''] @ chosen c)
         else if tier_matches \<noteq> []
         then pick_by ''region-tier-affinity'' cat (max_by (quality_key r s) tier_matches)
           (\<lambda>c. [Lit ''region-tier-affinity found no region+tier match for ''] @ quoted @ [Lit ''/'', tv, Lit ''; preferred '', tv,
             Lit '' tier model ''] @ chosen c)
         else if region_matches \<noteq> []
         then pick_by ''region-tier-affinity'' cat (max_by (quality_key r s) region_matches)
           (\<lambda>c. [Lit ''region-tier-affinity found no '', tv, Lit '' tier model; preferred region ''] @ quoted @
             [Lit '' model ''] @ chosen c)
         else pick_by ''region-tier-affinity'' cat (max_by (quality_key r s) cs)
           (\<lambda>c. [Lit ''region-tier-affinity found no region or tier match for ''] @ quoted @ [Lit ''/'', tv,
             Lit ''; fell back to highest-quality eligible model '', Str (mc_model c)]))"

definition region_preferences :: "string list \<Rightarrow> router_request \<Rightarrow> string list" where
  "region_preferences defaults r =
     (let requested = lower (strip (case rq_region r of None \<Rightarrow> [] | Some x \<Rightarrow> x));
          ordered = fold (\<lambda>region ordered. if region \<in> set ordered then ordered else ordered @ [region]) defaults
            (if requested = [] then [] else [requested])
      in if ordered = [] then [''global''] else ordered)"

definition make_sticky_region :: "string list option \<Rightarrow> string list" where
  "make_sticky_region preferences = map (\<lambda>region. lower (strip region))
     (case preferences of None \<Rightarrow> [''eu'', ''us'', ''cn'', ''global'']
      | Some ps \<Rightarrow> if ps = [] then [''eu'', ''us'', ''cn'', ''global''] else ps)"

definition sticky_pick :: "(string \<Rightarrow> bool) \<Rightarrow> catalog \<Rightarrow> router_request \<Rightarrow> model_candidate list \<Rightarrow> string \<Rightarrow> bool \<Rightarrow>
    routing_decision result" where
  "sticky_pick healthy cat r cs region_name healthy_only =
     (let filtered = filter (\<lambda>c. \<not> healthy_only \<or> healthy (mc_provider c)) cs;
          ordered = sorted_by mc_model (or_else filtered cs);
          bucket = nat (hash32 (rq_session_id r) mod int (length ordered));
          c = ordered ! bucket
      in if ordered = [] then Inl ZeroDivisionError
         else decision ''sticky-region-failover'' cat (mc_model c)
           [Lit ''sticky-region-failover pinned session '', Lit [CHR 0x27], Str (rq_session_id r), Lit [CHR 0x27], Lit '' to '',
            Str (mc_model c), Lit '' in region '', Lit [CHR 0x27], Str region_name, Lit [CHR 0x27], Lit '' ('',
            Lit (if healthy_only \<and> filtered \<noteq> [] then ''healthy providers in region'' else ''all providers in region''),
            Lit '', bucket '', IntF (int bucket), Lit ''/'', IntF (int (length ordered)), Lit '')''])"

fun sticky_region_loop :: "(string \<Rightarrow> bool) \<Rightarrow> catalog \<Rightarrow> router_request \<Rightarrow> model_candidate list \<Rightarrow> string list \<Rightarrow>
    routing_decision result" where
  "sticky_region_loop healthy cat r cs [] =
     sticky_pick healthy cat r cs ''fallback'' (filter (\<lambda>c. healthy (mc_provider c)) cs \<noteq> [])"
| "sticky_region_loop healthy cat r cs (region # regions) =
     (let region_cs = filter (matches_region region) cs in
      if filter (\<lambda>c. healthy (mc_provider c)) region_cs \<noteq> []
      then sticky_pick healthy cat r region_cs region True
      else sticky_region_loop healthy cat r cs regions)"

definition sticky_region_choose :: "(string \<Rightarrow> bool) \<Rightarrow> string list \<Rightarrow> catalog \<Rightarrow> router_request \<Rightarrow> task_signals \<Rightarrow>
    routing_decision result" where
  "sticky_region_choose healthy defaults cat r s =
     sticky_region_loop healthy cat r (eligible cat s) (region_preferences defaults r)"

subsection \<open>The contract\<close>

lemma hash_bucket: "(0 :: nat) < n \<Longrightarrow> nat (hash32 key mod int n) < n"
  by (metis nat_less_iff of_nat_0_less_iff pos_mod_bound pos_mod_sign)

lemma sorted_bucket:
  assumes "xs \<noteq> []" shows "sorted_by f xs ! nat (hash32 key mod int (length xs)) \<in> set xs"
  using nth_sorted_by [of "nat (hash32 key mod int (length xs))" f xs] hash_bucket [of "length xs"] assms by simp

interpretation round_robin: total_strategy round_robin_choose
proof
  fix cat r s d
  assume wf: "wf_catalog cat"
  show "round_robin_choose cat r s = Inr d \<Longrightarrow> decision_ok cat d"
    using wf by (auto simp: round_robin_choose_def Let_def intro: pick_by_ok split: if_splits)
  let ?ps = "sorted_list_of_set (mc_provider ` set (eligible cat s))"
  let ?b = "nat (hash32 (rq_request_id r) mod int (length ?ps))"
  have ne: "?ps \<noteq> []" using wf by simp
  then have "?ps ! ?b \<in> set ?ps" by (intro nth_mem hash_bucket iffD2 [OF length_greater_0_conv])
  then have "filter (\<lambda>c. mc_provider c = ?ps ! ?b) (eligible cat s) \<noteq> []" by (auto simp: filter_empty_conv)
  from pick_max_total [OF wf this filter_eligible_values]
  show "\<exists>d. round_robin_choose cat r s = Inr d" unfolding round_robin_choose_def Let_def if_not_P [OF ne] .
qed

interpretation epsilon_greedy: total_strategy "epsilon_greedy_choose e" for e
proof
  fix cat r s d
  assume wf: "wf_catalog cat"
  show "epsilon_greedy_choose e cat r s = Inr d \<Longrightarrow> decision_ok cat d"
    using wf by (auto simp: epsilon_greedy_choose_def Let_def intro: pick_by_ok decision_Inr split: if_splits)
  have ne: "eligible cat s \<noteq> []" using wf by simp
  show "\<exists>d. epsilon_greedy_choose e cat r s = Inr d"
    unfolding epsilon_greedy_choose_def Let_def if_not_P [OF ne]
    by (intro pick_if pick_total decision_value wf eligible_value [of _ cat s] sorted_bucket ne)
qed

text \<open>The arms of an A/B experiment are checked against the catalog by the constructor.\<close>

lemma ab_chosen_ok: "wf_catalog cat \<Longrightarrow> ab_choose ab cat r s = Inr d \<Longrightarrow> decision_ok cat d"
  by (auto simp: ab_choose_def Let_def intro: decision_Inr)

interpretation ab_test: routing_strategy "ab_choose ab" for ab
  by unfold_locales (rule ab_chosen_ok)

lemma ab_total: "make_ab cat a b w = Inr ab \<Longrightarrow> \<exists>d. ab_choose ab cat r s = Inr d"
  by (force simp: make_ab_def ab_choose_def Let_def intro: decision_total split: if_splits)

lemma ranked_ok:
  assumes "wf_catalog cat" "set xs \<subseteq> set (catalog_values cat)" "distinct (map mc_model xs)"
    "ranked_decision name xs ra = Inr d"
  shows "decision_ok cat d"
  using assms by (cases xs) (auto simp: ranked_decision_def intro!: decide_tail_ok)

lemma ranked_total: "xs \<noteq> [] \<Longrightarrow> \<exists>d. ranked_decision name xs ra = Inr d"
  by (cases xs) (simp_all add: ranked_decision_def)

lemma realtime_pool_ok:
  assumes "wf_catalog cat"
  shows "set (realtime_pool cat s) \<subseteq> set (catalog_values cat)" "distinct (map mc_model (realtime_pool cat s))"
    "realtime_pool cat s \<noteq> []"
  using assms values_nonempty [OF assms] values_distinct [OF assms]
  by (auto simp: realtime_pool_def or_else_def supporting_domain_def distinct_filter_models)

lemma cost_ordered_ok:
  assumes "wf_catalog cat"
  shows "set (cost_ordered_candidates cat r s) \<subseteq> set (catalog_values cat)"
    "distinct (map mc_model (cost_ordered_candidates cat r s))" "cost_ordered_candidates cat r s \<noteq> []"
  using realtime_pool_ok [OF assms] by (simp_all add: cost_ordered_candidates_def sorted_models)

interpretation cascade: total_strategy cascade_choose
  unfolding cascade_choose_def
  by unfold_locales (erule ranked_ok [rotated 3], assumption, erule cost_ordered_ok, erule cost_ordered_ok,
    rule ranked_total, erule cost_ordered_ok)

lemma sorted_rev_Nil [simp]: "sorted_rev_by f xs = [] \<longleftrightarrow> xs = []"
  by (metis mset_sorted_rev_by mset_zero_iff)

interpretation token_budget: total_strategy token_budget_choose
proof
  fix cat r s d
  assume wf: "wf_catalog cat"
  have ok: "set (sorted_rev_by f (filter P (eligible cat s))) \<subseteq> set (catalog_values cat)"
    "distinct (map mc_model (sorted_rev_by f (filter P (eligible cat s))))"
    "set (sorted_rev_by f (eligible cat s)) \<subseteq> set (catalog_values cat)"
    "distinct (map mc_model (sorted_rev_by f (eligible cat s)))" for f :: "model_candidate \<Rightarrow> 'k::linorder" and P
    using wf eligible_sub by (auto simp: sorted_rev_models distinct_filter_models)
  show "token_budget_choose cat r s = Inr d \<Longrightarrow> decision_ok cat d"
    unfolding token_budget_choose_def Let_def by (simp split: if_splits) (erule ranked_ok [OF wf ok(1,2)], erule ranked_ok [OF wf ok(3,4)])
  show "\<exists>d. token_budget_choose cat r s = Inr d"
    unfolding token_budget_choose_def Let_def using wf by (intro pick_if ranked_total) simp_all
qed

interpretation geo_region: total_strategy geo_region_choose
  unfolding geo_region_choose_def Let_def
  by unfold_locales (erule pick_if_ok, assumption, intro pick_if pick_total, assumption+)

lemma pick_if4_ok:
  "wf_catalog cat \<Longrightarrow> (if P then pick_by n cat x ra else if Q then pick_by n cat y rb else if R then pick_by n cat z rc
    else pick_by n cat u rd) = Inr d \<Longrightarrow> decision_ok cat d"
  by (auto intro: pick_by_ok split: if_splits)

interpretation region_tier: total_strategy region_tier_choose
  unfolding region_tier_choose_def Let_def
  by unfold_locales (erule pick_if4_ok, assumption, intro pick_if pick_total, assumption+)

lemma sticky_pick_ok: "wf_catalog cat \<Longrightarrow> sticky_pick h cat r cs n b = Inr d \<Longrightarrow> decision_ok cat d"
  by (auto simp: sticky_pick_def Let_def intro: decision_Inr split: if_splits)

lemma sticky_pick_total:
  assumes "wf_catalog cat" "cs \<noteq> []" "set cs \<subseteq> set (catalog_values cat)"
  shows "\<exists>d. sticky_pick h cat r cs n b = Inr d"
proof -
  let ?p = "or_else (filter (\<lambda>c. \<not> b \<or> h (mc_provider c)) cs) cs"
  have p: "?p \<noteq> []" "set ?p \<subseteq> set (catalog_values cat)" using assms(2,3) by (auto simp: or_else_def)
  have ne: "sorted_by mc_model ?p \<noteq> []" using p(1) by simp
  have "sorted_by mc_model ?p ! nat (hash32 (rq_session_id r) mod int (length (sorted_by mc_model ?p))) \<in> set (catalog_values cat)"
    using sorted_bucket [OF p(1)] p(2) by auto
  from decision_value [OF assms(1) this] show ?thesis unfolding sticky_pick_def Let_def if_not_P [OF ne] .
qed

lemma sticky_loop_ok: "wf_catalog cat \<Longrightarrow> sticky_region_loop h cat r cs regions = Inr d \<Longrightarrow> decision_ok cat d"
  by (induction h cat r cs regions rule: sticky_region_loop.induct)
     (auto simp: Let_def intro: sticky_pick_ok split: if_splits)

lemma sticky_loop_total:
  assumes "wf_catalog cat" "cs \<noteq> []" "set cs \<subseteq> set (catalog_values cat)"
  shows "\<exists>d. sticky_region_loop h cat r cs regions = Inr d"
proof (induction regions)
  case Nil
  then show ?case using sticky_pick_total [OF assms] by simp
next
  case (Cons region regions)
  have "filter P (filter Q cs) \<noteq> [] \<Longrightarrow> filter Q cs \<noteq> []" for P Q by (metis filter.simps(1))
  then show ?case using Cons assms(3)
    unfolding sticky_region_loop.simps Let_def by (intro pick_if sticky_pick_total assms(1)) auto
qed

interpretation sticky_region: total_strategy "sticky_region_choose h defaults" for h defaults
  unfolding sticky_region_choose_def
  by unfold_locales (erule sticky_loop_ok, assumption, rule sticky_loop_total, auto intro: eligible_value)

end
