(* ===== verification/Strategies_Shed.thy ===== *)
theory Strategies_Shed
  imports Strategies_Spread
begin

text \<open>
  The strategies of \<open>src/router/strategies.py\<close> that shed or hedge: latency and availability
  objectives, adaptive timeouts, exploration that decays with successes, canary and shadow slices,
  cost anomalies, prompt length tiers, retry budgets, and the sticky rings that walk to the next
  healthy model. The contract is kept by interpretation.
\<close>

subsection \<open>Objectives\<close>

definition make_latency_slo :: "rat \<Rightarrow> rat result" where
  "make_latency_slo slo_ms = (if slo_ms < 0 then Inl ValueError else Inr slo_ms)"

definition latency_slo_shed_choose :: "latency_stats \<Rightarrow> rat \<Rightarrow> catalog \<Rightarrow> router_request \<Rightarrow> task_signals \<Rightarrow>
    routing_decision result" where
  "latency_slo_shed_choose ls slo_ms cat r s =
     (let cs = eligible cat s;
          lat = by_model (\<lambda>c. p95 ls (mc_provider c)) cs;
          under = filter (\<lambda>c. lat c \<le> slo_ms) cs
      in if under \<noteq> []
         then pick_by ''latency-slo-shed'' cat (max_by (\<lambda>c. (mc_quality_score c, - lat c)) under)
           (\<lambda>c. [Lit ''latency-slo-shed selected highest quality '', Fixed 2 (mc_quality_score c), Lit '' under '',
             Fixed 0 slo_ms, Lit ''ms SLO (provider p95 '', Fixed 1 (lat c), Lit ''ms; shed slower alternatives)''])
         else pick_by ''latency-slo-shed'' cat (min_by (\<lambda>c. (lat c, - mc_quality_score c)) cs)
           (\<lambda>c. [Lit ''latency-slo-shed found no provider under '', Fixed 0 slo_ms,
             Lit ''ms SLO; shed fallback to lowest-latency model (provider p95 '', Fixed 1 (lat c), Lit ''ms)'']))"

definition make_slo_aware :: "rat \<Rightarrow> rat result" where
  "make_slo_aware slo = (if \<not> (0 \<le> slo \<and> slo \<le> 1) then Inl ValueError else Inr slo)"

definition slo_aware_choose :: "success_stats \<Rightarrow> rat \<Rightarrow> catalog \<Rightarrow> router_request \<Rightarrow> task_signals \<Rightarrow>
    routing_decision result" where
  "slo_aware_choose ss slo cat r s =
     (let cs = eligible cat s;
          rate = by_model (\<lambda>c. success_rate ss (mc_provider c)) cs;
          meeting = filter (\<lambda>c. slo \<le> rate c) cs
      in if meeting \<noteq> []
         then pick_by ''slo-aware'' cat (max_by (\<lambda>c. (mc_quality_score c, rate c, - cost_of r s c)) meeting)
           (\<lambda>c. [Lit ''slo-aware selected highest quality '', Fixed 2 (mc_quality_score c), Lit '' meeting availability SLO '',
             Percent 2 slo, Lit '' (provider success '', Percent 2 (rate c), Lit '')''])
         else pick_by ''slo-aware'' cat (max_by (\<lambda>c. (rate c, mc_quality_score c)) cs)
           (\<lambda>c. [Lit ''slo-aware found no provider meeting availability SLO '', Percent 2 slo,
             Lit ''; routed to highest success-rate model (provider success '', Percent 2 (rate c), Lit '')'']))"

subsection \<open>Exploration that decays\<close>

record exploration =
  ex_base_epsilon :: rat
  ex_min_epsilon :: rat

definition make_exploration :: "rat \<Rightarrow> rat \<Rightarrow> exploration result" where
  "make_exploration base least =
     (if \<not> (0 \<le> base \<and> base \<le> 1) \<or> \<not> (0 \<le> least \<and> least \<le> 1) \<or> base < least then Inl ValueError
      else Inr \<lparr> ex_base_epsilon = base, ex_min_epsilon = least \<rparr>)"

definition current_epsilon :: "exploration \<Rightarrow> success_stats \<Rightarrow> rat" where
  "current_epsilon ex ss = fadd (ex_min_epsilon ex)
     (fdiv (fsub (ex_base_epsilon ex) (ex_min_epsilon ex)) (fadd 1 (fint (total_successes ss))))"

definition adaptive_exploration_choose :: "exploration \<Rightarrow> success_stats \<Rightarrow> catalog \<Rightarrow> router_request \<Rightarrow> task_signals \<Rightarrow>
    routing_decision result" where
  "adaptive_exploration_choose ex ss cat r s =
     (let cs = eligible cat s;
          epsilon = current_epsilon ex ss;
          bucket = hash_fraction (rq_request_id r);
          ordered = sorted_by mc_model cs;
          index = nat (hash32 (rq_request_id r @ '':explore'') mod int (length cs));
          c = ordered ! index;
          decay = [Fixed 4 epsilon, Lit '' (base '', Fixed 2 (ex_base_epsilon ex), Lit '' -> min '',
            Fixed 2 (ex_min_epsilon ex), Lit '', successes='', IntF (total_successes ss), Lit ''); '']
      in if bucket < epsilon
         then (if cs = [] then Inl ZeroDivisionError
               else decision ''adaptive-exploration'' cat (mc_model c)
                 ([Lit ''adaptive-exploration explore bucket='', Fixed 4 bucket, Lit '' < epsilon ''] @ decay @
                  [Lit ''uniform arm '', IntF (int index), Lit ''/'', IntF (int (length ordered)), Lit '' -> '',
                   Str (mc_model c), Lit '' (quality '', Fixed 2 (mc_quality_score c), Lit '')'']))
         else pick_by ''adaptive-exploration'' cat (max_by (\<lambda>c. (mc_quality_score c, mc_model c)) cs)
           (\<lambda>c. [Lit ''adaptive-exploration exploit bucket='', Fixed 4 bucket, Lit '' >= epsilon ''] @ decay @
             [Lit ''routed to highest-quality eligible model '', Str (mc_model c), Lit '' (quality '',
              Fixed 2 (mc_quality_score c), Lit '')'']))"

subsection \<open>Adaptive timeouts\<close>

definition make_adaptive_timeout :: "rat \<Rightarrow> rat result" where
  "make_adaptive_timeout base_ms = (if base_ms < 0 then Inl ValueError else Inr base_ms)"

definition timeout_candidates :: "catalog \<Rightarrow> task_signals \<Rightarrow> model_candidate list" where
  "timeout_candidates cat s = (if ts_latency_requirement s = Batch then eligible cat s
     else or_else (filter mc_supports_realtime (eligible cat s)) (eligible cat s))"

definition adaptive_budget_ms :: "rat \<Rightarrow> task_signals \<Rightarrow> rat list \<Rightarrow> rat" where
  "adaptive_budget_ms base_ms s latencies =
     (let base = (if ts_latency_requirement s = Batch then fmul base_ms 4 else base_ms);
          observed = filter (\<lambda>l. 0 < l) latencies;
          pressure = (if ts_latency_requirement s = Realtime then fl (3/2) else 2)
      in if observed = [] \<or> Max (set observed) \<le> base then base
         else max (fmul base (fl (1/2))) (min base (fmul (Min (set observed)) pressure)))"

definition risk_adjusted_latency_ms :: "rat \<Rightarrow> rat \<Rightarrow> rat" where
  "risk_adjusted_latency_ms lat rate = (if lat \<le> 0 then 0 else fdiv lat (max rate (fl (5/100))))"

definition adaptive_timeout_choose :: "latency_stats \<Rightarrow> success_stats \<Rightarrow> rat \<Rightarrow> catalog \<Rightarrow> router_request \<Rightarrow>
    task_signals \<Rightarrow> routing_decision result" where
  "adaptive_timeout_choose ls ss base_ms cat r s =
     (let cs = timeout_candidates cat s;
          lat = by_model (\<lambda>c. p95 ls (mc_provider c)) cs;
          rate = by_model (\<lambda>c. success_rate ss (mc_provider c)) cs;
          risk = (\<lambda>c. risk_adjusted_latency_ms (lat c) (rate c));
          budget = adaptive_budget_ms base_ms s (map lat cs);
          in_budget = filter (\<lambda>c. risk c \<le> budget) cs;
          numbers = (\<lambda>c. [Lit ''(provider p95 '', Fixed 1 (lat c), Lit ''ms, success '', Percent 2 (rate c),
            Lit '', risk-adjusted '', Fixed 1 (risk c), Lit ''ms)''])
      in if in_budget \<noteq> []
         then pick_by ''adaptive-timeout'' cat
           (max_by (\<lambda>c. (mc_quality_score c, rate c, - risk c, - cost_of r s c)) in_budget)
           (\<lambda>c. [Lit ''adaptive-timeout selected highest quality '', Fixed 2 (mc_quality_score c), Lit '' within '',
             Fixed 0 budget, Lit ''ms adaptive timeout budget ''] @ numbers c)
         else pick_by ''adaptive-timeout'' cat (min_by (\<lambda>c. (risk c, - mc_quality_score c, - rate c)) cs)
           (\<lambda>c. [Lit ''adaptive-timeout found no provider within '', Fixed 0 budget,
             Lit ''ms adaptive timeout budget; routed to lowest risk-adjusted latency ''] @ numbers c))"

subsection \<open>Prompt prefixes and cache hits\<close>

definition make_prefix_cache :: "int \<Rightarrow> int result" where
  "make_prefix_cache min_chars = (if min_chars < 1 then Inl ValueError else Inr min_chars)"

definition system_prompt_prefix :: "int \<Rightarrow> router_request \<Rightarrow> string option" where
  "system_prompt_prefix min_chars r =
     (let prompt = join [CHR 0x0A] (map cm_content (filter (\<lambda>m. cm_role m = ''system'') (rq_messages r))) in
      if int (length prompt) < min_chars then None else Some (take (nat min_chars) prompt))"

text \<open>\<open>digest[:12]\<close>\<close>

fun hex_digits :: "nat \<Rightarrow> nat \<Rightarrow> string" where
  "hex_digits 0 n = []"
| "hex_digits (Suc k) n = hex_digits k (n div 16) @ [''0123456789abcdef'' ! (n mod 16)]"

definition digest12 :: "string \<Rightarrow> string" where
  "digest12 key = (let ws = sha256 (utf8 key) in
     hex_digits 8 (unat (ws ! 0)) @ take 4 (hex_digits 8 (unat (ws ! 1))))"

definition prefix_cache_choose :: "rat \<Rightarrow> int \<Rightarrow> catalog \<Rightarrow> router_request \<Rightarrow> task_signals \<Rightarrow> routing_decision result" where
  "prefix_cache_choose quality_floor min_chars cat r s =
     (case system_prompt_prefix min_chars r of
        None \<Rightarrow> bind_result (cost_optimal_choose quality_floor cat r s) (\<lambda>d.
          decision ''prompt-prefix-cache'' cat (rd_chosen_model d)
            ([Lit ''prompt-prefix-cache found no system prompt prefix >='', IntF min_chars, Lit '' chars; ''] @ rd_rationale d))
      | Some prefix \<Rightarrow>
          (let ordered = sorted_by (\<lambda>c. (mc_provider c, mc_model c)) (realtime_pool cat s);
               bucket = nat (hash32 prefix mod int (length ordered));
               c = ordered ! bucket
           in if ordered = [] then Inl ZeroDivisionError
              else decision ''prompt-prefix-cache'' cat (mc_model c)
                [Lit ''prompt-prefix-cache routed prefix '', Str (digest12 prefix), Lit '' to '', Str (mc_provider c), Lit ''/'',
                 Str (mc_model c), Lit '' (bucket '', IntF (int bucket), Lit ''/'', IntF (int (length ordered)),
                 Lit '', min_prefix_chars='', IntF min_chars, Lit '')'']))"

fun is_cache_hit :: "py_val \<Rightarrow> bool" where
  "is_cache_hit (VBool b) = b"
| "is_cache_hit (VInt n) = (n \<noteq> 0)"
| "is_cache_hit (VFloat x t) = (x \<noteq> 0)"
| "is_cache_hit (VInf negative) = True"
| "is_cache_hit VNan = True"
| "is_cache_hit (VStr t) = (lower (strip t) \<in> {''1'', ''true'', ''yes'', ''hit''})"
| "is_cache_hit _ = False"

definition semantic_cache_choose :: "rat \<Rightarrow> catalog \<Rightarrow> router_request \<Rightarrow> task_signals \<Rightarrow> routing_decision result" where
  "semantic_cache_choose quality_floor cat r s =
     (if is_cache_hit (metadata_get r ''cache_hit'')
      then pick_by ''semantic-cache'' cat
        (min_by (\<lambda>c. (cost_of r s c, - mc_quality_score c, mc_model c)) (realtime_pool cat s))
        (\<lambda>c. [Lit ''semantic-cache hit; preferred cheapest eligible model '', Str (mc_model c), Lit '' at $'',
          Fixed 6 (cost_of r s c)])
      else bind_result (cost_optimal_choose quality_floor cat r s) (\<lambda>d.
        decision ''semantic-cache'' cat (rd_chosen_model d) (Lit ''semantic-cache miss; '' # rd_rationale d)))"

subsection \<open>Explicit failover order\<close>

definition make_failover_priority :: "catalog \<Rightarrow> string list \<Rightarrow> string list result" where
  "make_failover_priority cat order = (let resolved = filter (\<lambda>m. m \<in> fst ` set cat) order in
     if resolved = [] then Inl ValueError else Inr resolved)"

definition failover_decision :: "catalog \<Rightarrow> string list \<Rightarrow> string \<Rightarrow> fstring \<Rightarrow> routing_decision result" where
  "failover_decision cat order m rationale = bind_result (catalog_get cat m) (\<lambda>c.
     Inr \<lparr> rd_chosen_model = m, rd_provider = mc_provider c, rd_routing_strategy = ''failover-priority'',
           rd_rationale = rationale, rd_fallback_chain = take 3 (filter (\<lambda>x. x \<noteq> m) order) \<rparr>)"

definition failover_priority_choose :: "(string \<Rightarrow> bool) \<Rightarrow> string list \<Rightarrow> catalog \<Rightarrow> router_request \<Rightarrow> task_signals \<Rightarrow>
    routing_decision result" where
  "failover_priority_choose healthy order cat r s =
     (let provider = (\<lambda>m. case map_of cat m of Some c \<Rightarrow> mc_provider c | None \<Rightarrow> []) in
      case filter (\<lambda>m. healthy (provider m)) order of
        m # _ \<Rightarrow> failover_decision cat order m [Lit ''failover-priority selected first healthy preference '', Str m,
          Lit '' (provider '', Str (provider m), Lit '')'']
      | [] \<Rightarrow> (case order of
          [] \<Rightarrow> Inl IndexError
        | m # _ \<Rightarrow> failover_decision cat order m
            [Lit ''failover-priority found no healthy preference; routed to first listed model '', Str m]))"

subsection \<open>The contract\<close>

interpretation latency_slo_shed: total_strategy "latency_slo_shed_choose ls slo" for ls slo
  unfolding latency_slo_shed_choose_def Let_def
  by unfold_locales (erule pick_if_ok, assumption, intro pick_if pick_total, assumption+)

interpretation slo_aware: total_strategy "slo_aware_choose ss slo" for ss slo
  unfolding slo_aware_choose_def Let_def
  by unfold_locales (erule pick_if_ok, assumption, intro pick_if pick_total, assumption+)

interpretation adaptive_exploration: total_strategy "adaptive_exploration_choose ex ss" for ex ss
proof
  fix cat r s d
  assume wf: "wf_catalog cat"
  show "adaptive_exploration_choose ex ss cat r s = Inr d \<Longrightarrow> decision_ok cat d"
    using wf by (auto simp: adaptive_exploration_choose_def Let_def intro: pick_by_ok decision_Inr split: if_splits)
  have ne: "eligible cat s \<noteq> []" using wf by simp
  show "\<exists>d. adaptive_exploration_choose ex ss cat r s = Inr d"
    unfolding adaptive_exploration_choose_def Let_def if_not_P [OF ne]
    by (intro pick_if pick_total decision_value wf eligible_value [of _ cat s] sorted_bucket ne)
qed

lemma timeout_candidates_ok:
  assumes "wf_catalog cat"
  shows "timeout_candidates cat s \<noteq> []" "set (timeout_candidates cat s) \<subseteq> set (catalog_values cat)"
    "set (filter P (timeout_candidates cat s)) \<subseteq> set (catalog_values cat)"
  using assms eligible_sub [of cat s] by (auto simp: timeout_candidates_def or_else_def)

interpretation adaptive_timeout: total_strategy "adaptive_timeout_choose ls ss base" for ls ss base
  unfolding adaptive_timeout_choose_def Let_def
  by unfold_locales (erule pick_if_ok, assumption,
    intro pick_if pick_max_total pick_min_total timeout_candidates_ok, assumption+)

text \<open>A strategy that hands over to another one keeps the contract of its own decision.\<close>

lemma after_ok:
  "wf_catalog cat \<Longrightarrow> bind_result x (\<lambda>d. decision name cat (rd_chosen_model d) (ra d)) = Inr e \<Longrightarrow> decision_ok cat e"
  by (auto simp: bind_result_Inr intro: decision_Inr)

lemma after_total:
  assumes "wf_catalog cat" "\<exists>d. x = Inr d \<and> decision_ok cat d"
  shows "\<exists>e. bind_result x (\<lambda>d. decision name cat (rd_chosen_model d) (ra d)) = Inr e"
proof -
  from assms(2) obtain d where d: "x = Inr d" "decision_ok cat d" by blast
  from d(2) have "rd_chosen_model d \<in> fst ` set cat"
    by (force simp: decision_ok_def split: option.splits dest: map_of_SomeD)
  then show ?thesis using decision_total [of "rd_chosen_model d" cat] by (simp add: d(1))
qed

lemma prefix_cache_ok: "wf_catalog cat \<Longrightarrow> prefix_cache_choose q n cat r s = Inr d \<Longrightarrow> decision_ok cat d"
  unfolding prefix_cache_choose_def Let_def
  by (simp split: option.splits if_splits) (erule after_ok, assumption, erule decision_Inr, assumption)

lemma realtime_bucket:
  assumes wf: "wf_catalog cat"
  shows "sorted_by f (realtime_pool cat s) ! nat (hash32 key mod int (length (sorted_by f (realtime_pool cat s))))
    \<in> set (catalog_values cat)"
  by (rule subsetD [OF realtime_pool_ok(1) [OF wf]], simp, rule sorted_bucket [OF realtime_pool_ok(3) [OF wf]])

interpretation prefix_cache: total_strategy "prefix_cache_choose q n" for q n
proof
  fix cat r s d
  assume wf: "wf_catalog cat"
  show "prefix_cache_choose q n cat r s = Inr d \<Longrightarrow> decision_ok cat d" using wf by (rule prefix_cache_ok)
  have ne: "sorted_by f (realtime_pool cat s) \<noteq> []" for f :: "model_candidate \<Rightarrow> 'k::linorder"
    using realtime_pool_ok(3) [OF wf] by simp
  show "\<exists>d. prefix_cache_choose q n cat r s = Inr d"
  proof (cases "system_prompt_prefix n r")
    case None
    then show ?thesis unfolding prefix_cache_choose_def
      by simp (rule after_total [OF wf cost_optimal.decides [OF wf]])
  next
    case (Some prefix)
    then show ?thesis unfolding prefix_cache_choose_def Let_def Some option.case if_not_P [OF ne]
      by (intro decision_value wf realtime_bucket)
  qed
qed

interpretation semantic_cache: total_strategy "semantic_cache_choose q" for q
proof
  fix cat r s d
  assume wf: "wf_catalog cat"
  show "semantic_cache_choose q cat r s = Inr d \<Longrightarrow> decision_ok cat d"
    unfolding semantic_cache_choose_def
    by (simp split: if_splits) (erule pick_by_ok [OF wf], erule after_ok [OF wf])
  show "\<exists>d. semantic_cache_choose q cat r s = Inr d"
    unfolding semantic_cache_choose_def
    by (intro pick_if pick_min_total after_total wf cost_optimal.decides realtime_pool_ok)
qed

text \<open>
  A failover order without repetitions keeps the contract. The constructor keeps repetitions, and a
  repeated model is then tried again as a fallback.
\<close>

lemma failover_decision_ok:
  assumes "wf_catalog cat" "distinct order" "set order \<subseteq> fst ` set cat" "failover_decision cat order m ra = Inr d"
  shows "decision_ok cat d"
proof -
  let ?f = "take 3 (filter (\<lambda>x. x \<noteq> m) order)"
  have "set ?f \<subseteq> set order - {m}" using set_take_subset [of 3 "filter (\<lambda>x. x \<noteq> m) order"] by auto
  then show ?thesis using assms by (auto simp: failover_decision_def bind_result_Inr catalog_get_def decision_ok_def)
qed

lemma failover_priority_ok:
  assumes "wf_catalog cat" "distinct prefs" "make_failover_priority cat prefs = Inr order"
    "failover_priority_choose h order cat r s = Inr d"
  shows "decision_ok cat d"
proof -
  have "distinct order" "set order \<subseteq> fst ` set cat"
    using assms(2,3) by (auto simp: make_failover_priority_def Let_def split: if_splits)
  note ok = failover_decision_ok [OF assms(1) this]
  from assms(4) show ?thesis
    unfolding failover_priority_choose_def Let_def by (auto simp del: filter.simps intro: ok split: list.splits)
qed

lemma repeated_preference_is_retried:
  assumes "make_failover_priority cat [m, k, k] = Inr order" "m \<noteq> k" "map_of cat m = Some c" "h (mc_provider c)"
    "map_of cat k = Some c'"
  shows "\<exists>d. failover_priority_choose h order cat r s = Inr d \<and> rd_fallback_chain d = [k, k]"
proof -
  have "order = [m, k, k]" using assms by (auto simp: make_failover_priority_def Let_def dest: map_of_SomeD split: if_splits)
      (force dest: map_of_SomeD)+
  then show ?thesis using assms by (simp add: failover_priority_choose_def failover_decision_def catalog_get_def)
qed

end
