(* ===== verification/PyNumber.thy ===== *)
theory PyNumber
  imports Schemas
begin

text \<open>
  Python's \<open>int()\<close> and \<open>float()\<close> on the values of request metadata. A float read from metadata may be
  infinite or NaN, so \<open>float()\<close> yields a \<open>py_float\<close>; the clamps the strategies apply at once bring it
  back to a rational (\<open>min(1.0, max(0.0, x))\<close>) or to an \<open>amount\<close>, a non-negative float that may be
  infinite (\<open>max(0.0, x)\<close>), which is linearly ordered again. The last section shows that an integer
  that \<open>str()\<close> wrote is read back.
\<close>

subsection \<open>int() of a text\<close>

text \<open>
  \<open>int(text)\<close> on stripped text: a sign, then digits with single underscores between them, at most
  4300 digits (the limit of the interpreter); None stands for ValueError.
\<close>

definition is_digit :: "char \<Rightarrow> bool" where
  "is_digit c = (let n = of_char c :: nat in 48 \<le> n \<and> n \<le> 57)"

fun int_digits :: "string \<Rightarrow> int list option" where
  "int_digits [] = None"
| "int_digits [c] = (if is_digit c then Some [of_char c - 48] else None)"
| "int_digits (c # d # cs) =
     (if is_digit c then map_option ((#) (of_char c - 48)) (if d = CHR ''_'' then int_digits cs else int_digits (d # cs))
      else None)"

definition digits_value :: "int list \<Rightarrow> int" where
  "digits_value ds = foldl (\<lambda>n d. 10 * n + d) 0 ds"

definition decimal :: "string \<Rightarrow> int option" where
  "decimal cs = (case int_digits cs of None \<Rightarrow> None
     | Some ds \<Rightarrow> if 4300 < length ds then None else Some (digits_value ds))"

text \<open>A leading sign (True for minus) and the rest of the text\<close>

fun signed :: "string \<Rightarrow> bool \<times> string" where
  "signed [] = (False, [])"
| "signed (c # cs) = (if c = CHR ''-'' then (True, cs) else if c = CHR ''+'' then (False, cs) else (False, c # cs))"

definition py_int :: "string \<Rightarrow> int option" where
  "py_int text = (let (negative, body) = signed text in
     map_option (\<lambda>n. if negative then - n else n) (decimal body))"

subsection \<open>Floats with infinities\<close>

datatype py_float = PFin rat | PInf | NInf | NaN

text \<open>The nearest double; from halfway between the largest double and \<open>2 ^ 1024\<close> on, infinity.\<close>

definition overflow_threshold :: rat where
  "overflow_threshold = 2 ^ 1024 - 2 ^ 970"

definition to_float :: "rat \<Rightarrow> py_float" where
  "to_float x = (if overflow_threshold \<le> x then PInf else if x \<le> - overflow_threshold then NInf else PFin (fl x))"

text \<open>\<open>x < bound\<close> and \<open>x > bound\<close> for a finite bound: false for NaN\<close>

fun float_less :: "py_float \<Rightarrow> rat \<Rightarrow> bool" where
  "float_less (PFin x) b = (x < b)"
| "float_less NInf b = True"
| "float_less _ b = False"

fun float_greater :: "py_float \<Rightarrow> rat \<Rightarrow> bool" where
  "float_greater (PFin x) b = (b < x)"
| "float_greater PInf b = True"
| "float_greater _ b = False"

text \<open>The text of a formatted float\<close>

fun fixed_float :: "nat \<Rightarrow> py_float \<Rightarrow> frag" where
  "fixed_float n (PFin x) = Fixed n x"
| "fixed_float n PInf = Lit ''inf''"
| "fixed_float n NInf = Lit ''-inf''"
| "fixed_float n NaN = Lit ''nan''"

subsection \<open>float() of a text\<close>

definition part_digits :: "string \<Rightarrow> int list option" where
  "part_digits cs = (if cs = [] then Some [] else int_digits cs)"

text \<open>The text before the first character of a class, and the text after it if there is one\<close>

definition cut_at :: "(char \<Rightarrow> bool) \<Rightarrow> string \<Rightarrow> string \<times> string option" where
  "cut_at P s = (takeWhile (\<lambda>c. \<not> P c) s, case dropWhile (\<lambda>c. \<not> P c) s of [] \<Rightarrow> None | _ # rest \<Rightarrow> Some rest)"

definition exponent_value :: "string option \<Rightarrow> int option" where
  "exponent_value ex = (case ex of None \<Rightarrow> Some 0
     | Some text \<Rightarrow> (let (negative, body) = signed text in
         map_option (\<lambda>ds. if negative then - digits_value ds else digits_value ds) (int_digits body)))"

definition decimal_float :: "string \<Rightarrow> rat option" where
  "decimal_float body =
     (let (mantissa, ex) = cut_at (\<lambda>c. c = CHR ''e'' \<or> c = CHR ''E'') body;
          (whole, fraction) = cut_at (\<lambda>c. c = CHR ''.'') mantissa
      in case (part_digits whole, part_digits (case fraction of None \<Rightarrow> [] | Some f \<Rightarrow> f), exponent_value ex) of
           (Some ws, Some fs, Some e) \<Rightarrow>
             if ws @ fs = [] then None else Some (of_int (digits_value (ws @ fs)) * 10 powi (e - int (length fs)))
         | _ \<Rightarrow> None)"

definition parse_float :: "string \<Rightarrow> py_float option" where
  "parse_float text =
     (let (negative, body) = signed (strip text)
      in if lower body \<in> {''inf'', ''infinity''} then Some (if negative then NInf else PInf)
         else if lower body = ''nan'' then Some NaN
         else map_option (\<lambda>x. to_float (if negative then - x else x)) (decimal_float body))"

subsection \<open>Conversions of metadata values\<close>

text \<open>\<open>float(value)\<close> and \<open>int(value)\<close>; a too large int overflows\<close>

fun float_of :: "py_val \<Rightarrow> py_float result" where
  "float_of (VBool b) = Inr (PFin (if b then 1 else 0))"
| "float_of (VInt n) = (if to_float (of_int n) \<in> {PInf, NInf} then Inl OverflowError else Inr (to_float (of_int n)))"
| "float_of (VFloat x _) = Inr (PFin x)"
| "float_of (VInf negative) = Inr (if negative then NInf else PInf)"
| "float_of VNan = Inr NaN"
| "float_of (VStr s) = of_opt ValueError (parse_float s)"
| "float_of _ = Inl TypeError"

definition truncate_rat :: "rat \<Rightarrow> int" where
  "truncate_rat x = (if x < 0 then - \<lfloor>- x\<rfloor> else \<lfloor>x\<rfloor>)"

fun int_of :: "py_val \<Rightarrow> int result" where
  "int_of (VBool b) = Inr (if b then 1 else 0)"
| "int_of (VInt n) = Inr n"
| "int_of (VFloat x _) = Inr (truncate_rat x)"
| "int_of (VInf _) = Inl OverflowError"
| "int_of VNan = Inl ValueError"
| "int_of (VStr s) = of_opt ValueError (py_int (strip s))"
| "int_of _ = Inl TypeError"

text \<open>\<open>try: return f(value) except (...)\<close>: None when a listed exception was raised, the others go on\<close>

definition attempt :: "py_error set \<Rightarrow> 'a result \<Rightarrow> 'a option result" where
  "attempt caught res = (case res of
      Inl e \<Rightarrow> if e \<in> caught then Inr None else Inl e
    | Inr x \<Rightarrow> Inr (Some x))"

text \<open>\<open>min(1.0, max(0.0, x))\<close>: NaN counts as 0\<close>

fun unit_clamp :: "py_float \<Rightarrow> rat" where
  "unit_clamp (PFin x) = min 1 (max 0 x)"
| "unit_clamp PInf = 1"
| "unit_clamp _ = 0"

text \<open>Truth of a value (\<open>value or other\<close>)\<close>

fun py_truth :: "py_val \<Rightarrow> bool" where
  "py_truth VNone = False"
| "py_truth (VBool b) = b"
| "py_truth (VInt n) = (n \<noteq> 0)"
| "py_truth (VFloat x _) = (x \<noteq> 0)"
| "py_truth (VStr s) = (s \<noteq> [])"
| "py_truth (VList xs _) = (xs \<noteq> [])"
| "py_truth (VDict kvs _) = (kvs \<noteq> [])"
| "py_truth _ = True"

subsection \<open>Non-negative amounts\<close>

datatype amount = Amount rat | Unbounded

fun amount_less :: "amount \<Rightarrow> amount \<Rightarrow> bool" where
  "amount_less (Amount x) (Amount y) = (x < y)"
| "amount_less (Amount x) Unbounded = True"
| "amount_less Unbounded _ = False"

instantiation amount :: linorder
begin

definition less_amount :: "amount \<Rightarrow> amount \<Rightarrow> bool" where "less_amount = amount_less"

definition less_eq_amount :: "amount \<Rightarrow> amount \<Rightarrow> bool" where "less_eq_amount x y = (x = y \<or> amount_less x y)"

instance
proof
  fix x y z :: amount
  show "(x < y) = (x \<le> y \<and> \<not> y \<le> x)" by (cases x; cases y) (auto simp: less_amount_def less_eq_amount_def)
  show "x \<le> x" by (simp add: less_eq_amount_def)
  show "x \<le> y \<Longrightarrow> y \<le> z \<Longrightarrow> x \<le> z" by (cases x; cases y; cases z) (auto simp: less_eq_amount_def)
  show "x \<le> y \<Longrightarrow> y \<le> x \<Longrightarrow> x = y" by (cases x; cases y) (auto simp: less_eq_amount_def)
  show "x \<le> y \<or> y \<le> x" by (cases x; cases y) (auto simp: less_eq_amount_def)
qed

end

instantiation amount :: zero
begin

definition zero_amount :: amount where "zero_amount = Amount 0"

instance ..

end

lemma amount_simps [simp]:
  "Amount x < Amount y \<longleftrightarrow> x < y" "Amount x \<le> Amount y \<longleftrightarrow> x \<le> y" "Amount x < Unbounded" "a \<le> Unbounded"
  "\<not> Unbounded < a" "Unbounded \<le> Amount x \<longleftrightarrow> False"
  by (auto simp: less_amount_def less_eq_amount_def) (cases a; simp)

text \<open>\<open>max(0.0, x)\<close>: NaN counts as 0\<close>

fun amount_of :: "py_float \<Rightarrow> amount" where
  "amount_of (PFin x) = Amount (max 0 x)"
| "amount_of PInf = Unbounded"
| "amount_of _ = Amount 0"

fun fixed_amount :: "nat \<Rightarrow> amount \<Rightarrow> frag" where
  "fixed_amount n (Amount x) = Fixed n x"
| "fixed_amount n Unbounded = Lit ''inf''"

text \<open>A comprehension whose element expression may raise: the first exception ends it.\<close>

fun each_result :: "('a \<Rightarrow> 'b result) \<Rightarrow> 'a list \<Rightarrow> 'b list result" where
  "each_result f [] = Inr []"
| "each_result f (x # xs) = bind_result (f x) (\<lambda>y. bind_result (each_result f xs) (\<lambda>ys. Inr (y # ys)))"

lemma each_result_total: "(\<And>x. x \<in> set xs \<Longrightarrow> \<exists>y. f x = Inr y) \<Longrightarrow> \<exists>ys. each_result f xs = Inr ys"
proof (induction xs)
  case (Cons x xs)
  obtain y ys where "f x = Inr y" "each_result f xs = Inr ys" using Cons.IH Cons.prems by fastforce
  then show ?case by simp
qed simp

lemma each_result_Inr: "each_result f xs = Inr ys \<Longrightarrow> length ys = length xs \<and> list_all2 (\<lambda>x y. f x = Inr y) xs ys"
  by (induction xs arbitrary: ys) (auto simp: bind_result_Inr)

lemma each_result_Inl: "each_result f xs = Inl e \<Longrightarrow> \<exists>x \<in> set xs. f x = Inl e"
proof (induction xs)
  case (Cons x xs)
  then show ?case by (cases "f x"; cases "each_result f xs") auto
qed simp

subsection \<open>Written numbers are read back\<close>

lemma digit_table:
  "list_all (\<lambda>n. let c = char_of (48 + n) :: char in is_digit c \<and> (of_char c :: int) - 48 = int n \<and>
     c \<notin> {CHR ''_'', CHR ''-'', CHR ''+''} \<and> \<not> is_space c) [0..<10]"
  by code_simp

lemma digit_char:
  assumes "n < 10" shows "is_digit (char_of (48 + n))" "of_char (char_of (48 + n) :: char) - 48 = int n"
    "char_of (48 + n) \<noteq> CHR ''_''" "char_of (48 + n) \<noteq> CHR ''-''" "char_of (48 + n) \<noteq> CHR ''+''"
    "\<not> is_space (char_of (48 + n))"
  using assms digit_table by (auto simp: list_all_iff Let_def)

text \<open>The digits a number is written with\<close>

fun digit_list :: "nat \<Rightarrow> int list" where
  "digit_list n = (if n < 10 then [int n] else digit_list (n div 10) @ [int (n mod 10)])"

declare digit_list.simps [simp del]

lemma int_digits_append:
  "int_digits cs = Some ds \<Longrightarrow> is_digit c \<Longrightarrow> c \<noteq> CHR ''_'' \<Longrightarrow> int_digits (cs @ [c]) = Some (ds @ [of_char c - 48])"
proof (induction cs arbitrary: ds rule: int_digits.induct)
  case (3 b d cs)
  then show ?case by (auto split: if_splits)
qed (auto split: if_splits)

lemma digits_value_append: "digits_value (ds @ [d]) = 10 * digits_value ds + d"
  by (simp add: digits_value_def)

lemma int_digits_digits: "int_digits (digits n) = Some (digit_list n)"
proof (induction n rule: digit_list.induct)
  case (1 n)
  show ?case
  proof (cases "n < 10")
    case True
    then show ?thesis by (simp add: digits.simps [of n] digit_list.simps [of n] digit_char)
  next
    case False
    have m: "n mod 10 < 10" by simp
    show ?thesis using int_digits_append [OF 1 [OF False] digit_char(1) [OF m] digit_char(3) [OF m]] False digit_char(2) [OF m]
      by (simp add: digits.simps [of n] digit_list.simps [of n])
  qed
qed

lemma digits_value_list: "digits_value (digit_list n) = int n"
proof (induction n rule: digit_list.induct)
  case (1 n)
  show ?case
  proof (cases "n < 10")
    case True
    then show ?thesis by (simp add: digit_list.simps [of n] digits_value_def)
  next
    case False
    have "int n = 10 * int (n div 10) + int (n mod 10)" by (metis mult_div_mod_eq of_nat_add of_nat_mult of_nat_numeral)
    then show ?thesis using 1 [OF False] False by (simp add: digit_list.simps [of n] digits_value_append)
  qed
qed

lemma length_digit_list: "n < 10 ^ k \<Longrightarrow> 0 < k \<Longrightarrow> length (digit_list n) \<le> k"
proof (induction n arbitrary: k rule: digit_list.induct)
  case (1 n)
  show ?case
  proof (cases "n < 10")
    case True
    then show ?thesis using 1(3) by (simp add: digit_list.simps [of n])
  next
    case False
    then obtain k' where k: "k = Suc k'" "0 < k'" using 1(2,3) by (cases k; cases "k - 1") auto
    then have "n div 10 < 10 ^ k'" using 1(2) by (simp add: less_mult_imp_div_less mult.commute)
    then show ?thesis using 1(1) [OF False _ k(2)] False k(1) by (simp add: digit_list.simps [of n])
  qed
qed

lemma digits_head: "\<exists>c cs. digits n = c # cs \<and> is_digit c \<and> c \<noteq> CHR ''-'' \<and> c \<noteq> CHR ''+''"
proof (induction n rule: digit_list.induct)
  case (1 n)
  then show ?case by (cases "n < 10") (auto simp: digits.simps [of n] digit_char)
qed

lemma decimal_digits:
  assumes "n < 10 ^ k" "0 < k" "k \<le> 4300" shows "decimal (digits n) = Some (int n)"
  using length_digit_list [OF assms(1,2)] assms(3) by (simp add: decimal_def int_digits_digits digits_value_list)

lemma py_int_str_int:
  assumes "\<bar>n\<bar> < 10 ^ k" "0 < k" "k \<le> 4300" shows "py_int (str_int n) = Some n"
proof -
  have "nat \<bar>n\<bar> < 10 ^ k" using assms(1) by (simp add: nat_less_iff)
  then have d: "decimal (digits (nat \<bar>n\<bar>)) = Some \<bar>n\<bar>" using decimal_digits assms(2,3) by simp
  obtain c cs where "digits (nat n) = c # cs" "c \<noteq> CHR ''-''" "c \<noteq> CHR ''+''" using digits_head by blast
  then show ?thesis using d by (auto simp: py_int_def str_int_def)
qed

text \<open>White space around a written number does not change it.\<close>

lemma digits_solid: "list_all (\<lambda>c. \<not> is_space c) (digits n)"
proof (induction n rule: digit_list.induct)
  case (1 n)
  then show ?case by (cases "n < 10") (auto simp: digits.simps [of n] digit_char)
qed

lemma strip_pads:
  assumes "list_all is_space p" "list_all is_space q" "list_all (\<lambda>c. \<not> is_space c) x" shows "strip (p @ x @ q) = x"
proof -
  have drop: "dropWhile is_space (p @ ys) = dropWhile is_space ys" if "list_all is_space p" for p ys
    using that by (induction p) auto
  show ?thesis
  proof (cases x)
    case Nil
    have "dropWhile is_space (p @ q) = []" using assms(1,2) by (auto simp: list_all_iff)
    then have "strip (p @ q) = []" unfolding strip_def by (simp only: rev.simps dropWhile.simps)
    then show ?thesis using Nil by simp
  next
    case (Cons c cs)
    then obtain d ds where d: "rev x = d # ds" by (cases "rev x") auto
    then have "d \<in> set x" by (metis list.set_intros(1) set_rev)
    with d have "rev x = d # ds" "\<not> is_space d" using assms(3) by (simp_all add: list_all_iff)
    moreover have "dropWhile is_space (p @ x @ q) = x @ q" using drop [OF assms(1)] Cons assms(3) by simp
    moreover have "list_all is_space (rev q)" using assms(2) by (simp add: list_all_iff)
    ultimately show ?thesis using drop [of "rev q" "rev x"] by (simp add: strip_def)
  qed
qed

lemma strip_str_int:
  assumes "list_all is_space p" "list_all is_space q" shows "strip (p @ str_int n @ q) = str_int n"
proof (rule strip_pads [OF assms])
  have "\<not> is_space (CHR ''-'')" by code_simp
  then show "list_all (\<lambda>c. \<not> is_space c) (str_int n)" by (simp add: str_int_def digits_solid)
qed

end
