(* ===== verification/Strategies_Ring.thy ===== *)
theory Strategies_Ring
  imports Strategies_Shed PyNumber
begin

text \<open>
  The strategies of \<open>src/router/strategies.py\<close> that walk a ring of the eligible models to the next
  healthy one, from a bucket hashed from a tenant or a prompt prefix, and those that mirror, hedge
  or shed: canary slices, shadow traffic, cost anomalies, regions, prompt length and retry budgets.
\<close>

subsection \<open>Rings\<close>

text \<open>The offset at which the loop over the ring returns.\<close>

definition ring_offset :: "(string \<Rightarrow> bool) \<Rightarrow> model_candidate list \<Rightarrow> nat \<Rightarrow> nat option" where
  "ring_offset healthy ordered primary =
     find (\<lambda>offset. healthy (mc_provider (ordered ! ((primary + offset) mod length ordered)))) [0..<length ordered]"

text \<open>
  \<open>pinned\<close> is the text up to the model, \<open>ring\<close> and \<open>sticky\<close> the words that differ between the three
  strategies.
\<close>

definition ring_choose :: "strategy_name \<Rightarrow> (string \<Rightarrow> bool) \<Rightarrow> string \<Rightarrow> fstring \<Rightarrow> string \<Rightarrow> string \<Rightarrow> catalog \<Rightarrow>
    task_signals \<Rightarrow> routing_decision result" where
  "ring_choose name healthy key pinned ring sticky cat s =
     (let ordered = sorted_by mc_model (eligible cat s);
          primary = nat (hash32 key mod int (length ordered));
          arm = (\<lambda>offset. ordered ! ((primary + offset) mod length ordered))
      in if ordered = [] then Inl ZeroDivisionError
         else (case ring_offset healthy ordered primary of
             Some offset \<Rightarrow> decision name cat (mc_model (arm offset))
               (pinned @ [Str (mc_model (arm offset)), Lit '' (''] @
                (if 0 < offset then [Lit ''failover offset '', IntF (int offset), Lit '' from primary bucket '', IntF (int primary)]
                 else [Lit ''primary bucket '', IntF (int primary)]) @
                [Lit ''/'', IntF (int (length ordered)), Lit '' '', Lit ring, Lit '' ring)''])
           | None \<Rightarrow> decision name cat (mc_model (ordered ! primary))
               (pinned @ [Str (mc_model (ordered ! primary)), Lit '' (primary bucket '', IntF (int primary),
                Lit ''; no healthy providers; '', Lit sticky, Lit '' fallback)''])))"

text \<open>The first of the three metadata values that has some text, then the user, then the session.\<close>

definition tenant_scope :: "router_request \<Rightarrow> string" where
  "tenant_scope r =
     (case find (\<lambda>v. v \<noteq> VNone \<and> strip (py_str v) \<noteq> [])
        (map (metadata_get r) [''tenant_id'', ''user_id'', ''sticky_key'']) of
        Some v \<Rightarrow> py_str v
      | None \<Rightarrow> if rq_user_id r \<noteq> ''anonymous'' then rq_user_id r else rq_session_id r)"

definition sticky_tenant_choose :: "(string \<Rightarrow> bool) \<Rightarrow> catalog \<Rightarrow> router_request \<Rightarrow> task_signals \<Rightarrow> routing_decision result" where
  "sticky_tenant_choose healthy cat r s = (let key = tenant_scope r in
     ring_choose ''sticky-tenant-hash'' healthy key
       [Lit ''sticky-tenant-hash pinned tenant '', Lit [CHR 0x27], Str key, Lit [CHR 0x27], Lit '' to ''] ''healthy'' ''sticky'' cat s)"

definition make_warm_pool :: "int \<Rightarrow> int result" where
  "make_warm_pool min_chars = (if min_chars < 1 then Inl ValueError else Inr min_chars)"

text \<open>The loop of \<open>_prefix_key\<close>; \<open>sum(len(part) for part in parts)\<close> is \<open>sum_list (map length parts)\<close>.\<close>

fun prefix_parts :: "int \<Rightarrow> string list \<Rightarrow> chat_message list \<Rightarrow> string list" where
  "prefix_parts min_chars parts [] = parts"
| "prefix_parts min_chars parts (m # ms) =
     (let content = strip (cm_content m);
          parts' = (if content \<noteq> [] then parts @ [content] else parts)
      in if min_chars \<le> int (sum_list (map length parts')) then parts' else prefix_parts min_chars parts' ms)"

definition prefix_key :: "int \<Rightarrow> router_request \<Rightarrow> string" where
  "prefix_key min_chars r = (let joined = join [CHR 0x0A] (prefix_parts min_chars [] (rq_messages r)) in
     if int (length joined) < min_chars then rq_session_id r
     else take (nat (max (min_chars * 4) min_chars)) joined)"

definition warm_pool_choose :: "(string \<Rightarrow> bool) \<Rightarrow> int \<Rightarrow> catalog \<Rightarrow> router_request \<Rightarrow> task_signals \<Rightarrow> routing_decision result" where
  "warm_pool_choose healthy min_chars cat r s =
     ring_choose ''cache-hit-sticky-warm-pool'' healthy (prefix_key min_chars r)
       [Lit ''cache-hit-sticky-warm-pool pinned prefix to ''] ''warm'' ''sticky'' cat s"

definition make_namespace :: "string \<Rightarrow> string result" where
  "make_namespace prefix = (if strip prefix = [] then Inl ValueError else Inr (strip prefix))"

definition namespaced_key :: "string \<Rightarrow> router_request \<Rightarrow> string" where
  "namespaced_key prefix r = prefix @ '':'' @ tenant_scope r"

definition embedding_namespace_choose :: "(string \<Rightarrow> bool) \<Rightarrow> string \<Rightarrow> catalog \<Rightarrow> router_request \<Rightarrow> task_signals \<Rightarrow>
    routing_decision result" where
  "embedding_namespace_choose healthy prefix cat r s = (let key = namespaced_key prefix r in
     ring_choose ''embedding-cache-key-namespace'' healthy key
       [Lit ''embedding-cache-key-namespace pinned '', Lit [CHR 0x27], Str key, Lit [CHR 0x27], Lit '' to '']
       ''namespace'' ''namespaced sticky'' cat s)"

subsection \<open>Slices of the traffic\<close>

text \<open>\<open>[candidate for candidate in eligible if is_available(candidate.provider)] or eligible\<close>\<close>

definition healthy_pool :: "(string \<Rightarrow> bool) \<Rightarrow> model_candidate list \<Rightarrow> model_candidate list" where
  "healthy_pool healthy cs = or_else (filter (\<lambda>c. healthy (mc_provider c)) cs) cs"

definition canary_tier_choose :: "canary_config \<Rightarrow> (string \<Rightarrow> bool) \<Rightarrow> catalog \<Rightarrow> router_request \<Rightarrow> task_signals \<Rightarrow>
    routing_decision result" where
  "canary_tier_choose cn healthy cat r s =
     (let cs = eligible cat s;
          tier = infer_target_tier (ts_complexity_score s);
          tier_matches = filter (\<lambda>c. infer_model_tier (mc_model c) = tier) cs;
          bucket = hash_fraction (rq_request_id r);
          in_slice = (bucket < cn_canary_weight cn);
          tv = Str (tier_value tier);
          canary = (\<lambda>m rationale. canary_decision ''canary-tier-blend'' cn cat m rationale);
          slice = [Lit ''canary-tier-blend bucket='', Fixed 4 bucket, Lit '' < weight '', Fixed 2 (cn_canary_weight cn), Lit ''; '']
      in bind_result (catalog_get cat (cn_canary_model cn)) (\<lambda>k.
         if in_slice \<and> healthy (mc_provider k)
         then (if infer_model_tier (cn_canary_model cn) = tier
               then canary (cn_canary_model cn) (slice @ [Lit ''canary matches '', tv, Lit '' tier''])
               else canary (cn_canary_model cn) (slice @ [Lit ''routed to canary despite '', tv, Lit '' tier mismatch'']))
         else let note = (if \<not> in_slice
                 then [Lit ''bucket='', Fixed 4 bucket, Lit '' >= weight '', Fixed 2 (cn_canary_weight cn), Lit ''; '']
                 else [Lit ''canary paused: provider '', Str (mc_provider k), Lit '' unhealthy; ''])
         in if tier_matches \<noteq> []
            then bind_result (of_opt ValueError (max_by (quality_key r s) tier_matches)) (\<lambda>c.
              canary (mc_model c) (Lit ''canary-tier-blend '' # note @ [Lit ''preferred '', tv, Lit '' tier model '',
                Str (mc_model c), Lit '' (quality '', Fixed 2 (mc_quality_score c), Lit '')'']))
            else bind_result (of_opt ValueError (max_by (quality_key r s) cs)) (\<lambda>c.
              canary (mc_model c) (Lit ''canary-tier-blend '' # note @ [Lit ''found no '', tv,
                Lit '' tier model; fell back to highest-quality eligible model '', Str (mc_model c)]))))"

definition make_percent :: "rat \<Rightarrow> rat result" where
  "make_percent percent = (if \<not> (0 \<le> percent \<and> percent \<le> 100) then Inl ValueError else Inr percent)"

definition shadow_feasible :: "rat \<Rightarrow> catalog \<Rightarrow> task_signals \<Rightarrow> model_candidate list" where
  "shadow_feasible quality_floor cat s = or_else (cost_optimal_feasible quality_floor cat s)
     (or_else (supporting_domain cat s) (catalog_values cat))"

definition shadow_mirror :: "router_request \<Rightarrow> task_signals \<Rightarrow> model_candidate \<Rightarrow> model_candidate list \<Rightarrow> model_candidate option" where
  "shadow_mirror r s primary cs = max_by (quality_key r s) (filter (\<lambda>c. mc_provider c \<noteq> mc_provider primary) cs)"

definition shadow_mirror_choose :: "rat \<Rightarrow> rat \<Rightarrow> catalog \<Rightarrow> router_request \<Rightarrow> task_signals \<Rightarrow> routing_decision result" where
  "shadow_mirror_choose quality_floor percent cat r s =
     (let cs = shadow_feasible quality_floor cat s;
          bucket = hash_fraction (rq_request_id r)
      in pick_by ''shadow-traffic-mirror'' cat (min_by (\<lambda>c. (cost_of r s c, - mc_quality_score c)) cs)
        (\<lambda>primary. [Lit ''shadow-traffic-mirror selected primary '', Str (mc_model primary), Lit '' (est $'',
            Fixed 6 (cost_of r s primary), Lit '', quality floor '', Fixed 2 quality_floor, Lit '')''] @
          (case shadow_mirror r s primary cs of
             None \<Rightarrow> []
           | Some shadow \<Rightarrow>
               if bucket < fdiv percent 100
               then [Lit ''; shadow mirror '', Str (mc_model shadow), Lit '' ('', Str (mc_provider shadow),
                 Lit '') queued for dual-run telemetry (bucket='', Fixed 4 bucket, Lit '' < '', Fixed 1 percent, Lit ''%)'']
               else [Lit ''; shadow mirror '', Str (mc_model shadow), Lit '' not annotated (bucket='', Fixed 4 bucket,
                 Lit '' >= '', Fixed 1 percent, Lit ''%)''])))"

definition canary_cost_choose :: "(string \<Rightarrow> bool) \<Rightarrow> rat \<Rightarrow> catalog \<Rightarrow> router_request \<Rightarrow> task_signals \<Rightarrow> routing_decision result" where
  "canary_cost_choose healthy percent cat r s =
     (let cs = eligible cat s;
          cost = by_model (cost_of r s) cs;
          ordered = sorted_by (\<lambda>c. (cost c, - mc_quality_score c)) (healthy_pool healthy cs);
          bucket = hash_fraction (rq_request_id r);
          in_slice = (bucket < fdiv percent 100)
      in if in_slice \<and> 1 < length ordered
         then (let c = ordered ! 1 in decision ''canary-cost-blend'' cat (mc_model c)
           [Lit ''canary-cost-blend explore slice (bucket='', Fixed 4 bucket, Lit '' < '', Fixed 1 percent,
            Lit ''%); selected next-cheaper healthy tier '', Str (mc_model c), Lit '' (est $'', Fixed 6 (cost c), Lit '')''])
         else (case ordered of
             [] \<Rightarrow> Inl IndexError
           | c # _ \<Rightarrow> decision ''canary-cost-blend'' cat (mc_model c)
               (Lit ''canary-cost-blend '' #
                (if in_slice then [Lit ''explore slice bucket='', Fixed 4 bucket, Lit '' but only one healthy tier; '']
                 else [Lit ''bucket='', Fixed 4 bucket, Lit '' >= '', Fixed 1 percent, Lit ''%; '']) @
                [Lit ''selected cheapest healthy model '', Str (mc_model c), Lit '' (est $'', Fixed 6 (cost c), Lit '')''])))"

subsection \<open>Cost anomalies, regions, prompt length and retries\<close>

definition make_cost_anomaly_shed :: "rat \<Rightarrow> rat result" where
  "make_cost_anomaly_shed ratio = (if ratio \<le> 0 then Inl ValueError else Inr ratio)"

definition projected_cost_per_1k :: "model_candidate \<Rightarrow> int \<Rightarrow> int \<Rightarrow> rat" where
  "projected_cost_per_1k c input_tokens output_tokens = (let total = input_tokens + output_tokens in
     if total = 0 then fdiv (fadd (mc_input_cost_per_1k c) (mc_output_cost_per_1k c)) 2
     else fmul (fdiv (estimate_cost c input_tokens output_tokens) (fint total)) 1000)"

definition cost_anomaly_shed_choose :: "(string \<Rightarrow> bool) \<Rightarrow> cost_anomaly_stats \<Rightarrow> rat \<Rightarrow> catalog \<Rightarrow> router_request \<Rightarrow>
    task_signals \<Rightarrow> routing_decision result" where
  "cost_anomaly_shed_choose healthy ca ratio cat r s =
     (let cs = eligible cat s;
          cost = by_model (\<lambda>c. projected_cost_per_1k c (ts_prompt_tokens_estimate s) (rq_max_tokens r)) cs;
          mean = ca_mean ca
      in (case sorted_rev_by (\<lambda>c. (mc_quality_score c, - cost c)) cs of
          [] \<Rightarrow> Inl IndexError
        | best # _ \<Rightarrow>
            if 0 < mean \<and> fmul mean ratio < cost best
            then (let healthy_cs = healthy_pool healthy cs in
              (case min_by (\<lambda>c. (cost c, - mc_quality_score c)) (filter (\<lambda>c. cost c < cost best) healthy_cs) of
                 Some c \<Rightarrow> decision ''token-cost-anomaly-shed'' cat (mc_model c)
                   [Lit ''token-cost-anomaly-shed detected projected cost/1k $'', Fixed 6 (cost best), Lit '' above rolling mean $'',
                    Fixed 6 mean, Lit '' * '', Fixed 1 ratio, Lit ''; shed to cheaper healthy '', Str (mc_model c),
                    Lit '' (cost/1k $'', Fixed 6 (cost c), Lit '')'']
               | None \<Rightarrow> decision ''token-cost-anomaly-shed'' cat (mc_model best)
                   [Lit ''token-cost-anomaly-shed found no cheaper healthy alternative; quality fallback to '',
                    Str (mc_model best), Lit '' (cost/1k $'', Fixed 6 (cost best), Lit '')'']))
            else decision ''token-cost-anomaly-shed'' cat (mc_model best)
              [Lit ''token-cost-anomaly-shed selected highest-quality '', Str (mc_model best), Lit '' (cost/1k $'',
               Fixed 6 (cost best), Lit '' within rolling baseline mean $'', Fixed 6 mean, Lit '')'']))"

definition make_latency_hedge :: "rat \<Rightarrow> rat result" where
  "make_latency_hedge hedge_ms = (if hedge_ms < 0 then Inl ValueError else Inr hedge_ms)"

definition region_hedge_choose :: "latency_stats \<Rightarrow> rat \<Rightarrow> catalog \<Rightarrow> router_request \<Rightarrow> task_signals \<Rightarrow> routing_decision result" where
  "region_hedge_choose ls hedge_ms cat r s =
     (let cs = eligible cat s;
          region = requested_region r;
          primary_cs = or_else (filter (matches_region region) cs) cs;
          secondary_cs = filter (\<lambda>c. c \<notin> set primary_cs) cs;
          mid = (\<lambda>c. p50 ls (mc_provider c))
      in bind_result (of_opt ValueError (max_by (\<lambda>c. (mc_quality_score c, - mid c)) primary_cs)) (\<lambda>primary.
         if secondary_cs \<noteq> [] \<and> hedge_ms < mid primary
         then pick_by ''multi-region-latency-hedge'' cat (min_by (\<lambda>c. (mid c, - mc_quality_score c)) secondary_cs)
           (\<lambda>c. [Lit ''multi-region-latency-hedge primary region '', Lit [CHR 0x27], Str region, Lit [CHR 0x27],
             Lit '' hot (provider p50 '', Fixed 1 (mid primary), Lit ''ms > '', Fixed 0 hedge_ms,
             Lit ''ms); hedged to secondary '', Str (mc_model c), Lit '' (provider p50 '', Fixed 1 (mid c), Lit ''ms)''])
         else decision ''multi-region-latency-hedge'' cat (mc_model primary)
           [Lit ''multi-region-latency-hedge stayed on primary region '', Lit [CHR 0x27], Str region, Lit [CHR 0x27],
            Lit '' quality preference '', Str (mc_model primary), Lit '' (provider p50 '', Fixed 1 (mid primary),
            Lit ''ms <= '', Fixed 0 hedge_ms, Lit ''ms hedge threshold)'']))"

definition make_prompt_length_shed :: "int \<Rightarrow> int result" where
  "make_prompt_length_shed tier_tokens = (if tier_tokens < 1 then Inl ValueError else Inr tier_tokens)"

definition prompt_length_shed_choose :: "int \<Rightarrow> catalog \<Rightarrow> router_request \<Rightarrow> task_signals \<Rightarrow> routing_decision result" where
  "prompt_length_shed_choose tier_tokens cat r s =
     (let cs = eligible cat s;
          prompt_tokens = ts_prompt_tokens_estimate s;
          non_frontier = filter (\<lambda>c. infer_model_tier (mc_model c) \<noteq> Frontier) cs
      in if tier_tokens < prompt_tokens
         then pick_by ''prompt-length-tier-shed'' cat (max_by (quality_key r s) (or_else non_frontier cs))
           (\<lambda>c. [Lit ''prompt-length-tier-shed detected prompt_tokens '', IntF prompt_tokens, Lit '' above tier gate '',
             IntF tier_tokens, Lit ''; '', Lit (if non_frontier \<noteq> [] then ''shed frontier tiers''
               else ''no non-frontier alternative; quality fallback''), Lit ''; selected '', Str (mc_model c),
             Lit '' (tier '', Str (tier_value (infer_model_tier (mc_model c))), Lit '')''])
         else pick_by ''prompt-length-tier-shed'' cat (max_by (quality_key r s) cs)
           (\<lambda>c. [Lit ''prompt-length-tier-shed selected highest-quality '', Str (mc_model c), Lit '' (prompt_tokens '',
             IntF prompt_tokens, Lit '' within tier gate '', IntF tier_tokens, Lit '')'']))"

definition make_retry_budget :: "int \<Rightarrow> int result" where
  "make_retry_budget n = (if n < 0 then Inl ValueError else Inr n)"

definition remaining_retries :: "int \<Rightarrow> router_request \<Rightarrow> int" where
  "remaining_retries retry_default r =
     (case map_of (rq_metadata r) ''retry_remaining'' of
        None \<Rightarrow> max 0 retry_default
      | Some raw \<Rightarrow> (case py_int (strip (py_str raw)) of None \<Rightarrow> retry_default | Some value \<Rightarrow> max 0 value))"

definition retry_budget_choose :: "(string \<Rightarrow> bool) \<Rightarrow> latency_stats \<Rightarrow> int \<Rightarrow> catalog \<Rightarrow> router_request \<Rightarrow> task_signals \<Rightarrow>
    routing_decision result" where
  "retry_budget_choose healthy ls retry_default cat r s =
     (let cs = eligible cat s;
          healthy_cs = healthy_pool healthy cs;
          remaining = remaining_retries retry_default r;
          lat = (\<lambda>c. p95 ls (mc_provider c))
      in if remaining \<le> 1
         then pick_by ''retry-budget-aware-failover'' cat (min_by (\<lambda>c. (lat c, - mc_quality_score c)) healthy_cs)
           (\<lambda>c. [Lit ''retry-budget-aware-failover remaining retries '', IntF remaining,
             Lit ''; failover to lowest-latency healthy '', Str (mc_model c), Lit '' (p95 '', Fixed 1 (lat c), Lit ''ms)''])
         else pick_by ''retry-budget-aware-failover'' cat (max_by (\<lambda>c. (mc_quality_score c, - lat c)) healthy_cs)
           (\<lambda>c. [Lit ''retry-budget-aware-failover remaining retries '', IntF remaining,
             Lit ''; selected highest-quality healthy '', Str (mc_model c)]))"

subsection \<open>The contract\<close>

text \<open>The ring visits every eligible model, so a healthy one is found if there is one.\<close>

lemma ring_covers:
  assumes "c \<in> set xs"
  obtains offset where "offset < length xs" "xs ! ((primary + offset) mod length xs) = c"
proof -
  obtain i where i: "i < length xs" "xs ! i = c" using assms by (auto simp: in_set_conv_nth)
  let ?n = "length xs"
  let ?o = "(i + (?n - primary mod ?n)) mod ?n"
  have n: "0 < ?n" using i by auto
  have "(primary + ?o) mod ?n = (primary mod ?n + (i + (?n - primary mod ?n))) mod ?n"
    by (metis mod_add_left_eq mod_add_right_eq)
  also have "\<dots> = (i + ?n) mod ?n" using mod_less_divisor [OF n, of primary] by (simp add: algebra_simps)
  finally have "(primary + ?o) mod ?n = i" using i by simp
  then show thesis using that [of ?o] i n by simp
qed

lemma ring_index: "offset < n \<Longrightarrow> (primary + offset) mod n < (n :: nat)"
  by (rule mod_less_divisor) simp

lemma ring_offset_None: "ring_offset h xs primary = None \<longleftrightarrow> (\<forall>c \<in> set xs. \<not> h (mc_provider c))"
proof
  show "ring_offset h xs primary = None \<Longrightarrow> \<forall>c \<in> set xs. \<not> h (mc_provider c)"
    unfolding ring_offset_def find_None_iff by (metis ring_covers atLeastLessThan_iff le0 set_upt)
  assume none: "\<forall>c \<in> set xs. \<not> h (mc_provider c)"
  have "xs ! ((primary + offset) mod length xs) \<in> set xs" if "offset < length xs" for offset
    using that by (intro nth_mem ring_index)
  with none show "ring_offset h xs primary = None" by (auto simp: ring_offset_def find_None_iff)
qed

lemma ring_offset_Some:
  assumes "ring_offset h xs primary = Some offset"
  shows "offset < length xs" "h (mc_provider (xs ! ((primary + offset) mod length xs)))"
    "xs ! ((primary + offset) mod length xs) \<in> set xs"
proof -
  show "offset < length xs" "h (mc_provider (xs ! ((primary + offset) mod length xs)))"
    using assms by (auto simp: ring_offset_def find_Some_iff)
  then show "xs ! ((primary + offset) mod length xs) \<in> set xs" by (intro nth_mem ring_index)
qed

text \<open>The model a request is pinned to, as a function of the key and the health view alone.\<close>

definition ring_arm :: "(string \<Rightarrow> bool) \<Rightarrow> string \<Rightarrow> model_candidate list \<Rightarrow> model_candidate" where
  "ring_arm healthy key ordered =
     (let primary = nat (hash32 key mod int (length ordered)) in
      ordered ! ((primary + (case ring_offset healthy ordered primary of Some offset \<Rightarrow> offset | None \<Rightarrow> 0)) mod length ordered))"

lemma ring_arm_in: "ordered \<noteq> [] \<Longrightarrow> ring_arm h key ordered \<in> set ordered"
  by (simp add: ring_arm_def Let_def)

lemma ring_arm_healthy:
  assumes "ordered \<noteq> []"
  shows "h (mc_provider (ring_arm h key ordered)) \<longleftrightarrow> (\<exists>c \<in> set ordered. h (mc_provider c))"
proof (cases "ring_offset h ordered (nat (hash32 key mod int (length ordered)))")
  case None
  with ring_arm_in [OF assms] show ?thesis using ring_offset_None by blast
next
  case (Some offset)
  with ring_arm_in [OF assms] ring_offset_Some [OF Some] show ?thesis by (auto simp: ring_arm_def Let_def)
qed

lemma find_still:
  assumes "find P xs = Some x" "\<And>y. Q y \<Longrightarrow> P y" "Q x" shows "find Q xs = Some x"
  using assms by (induction xs) (auto split: if_splits)

lemma ring_arm_sticky:
  assumes "h (mc_provider (ring_arm h key ordered))" "\<And>p. h' p \<Longrightarrow> h p" "h' (mc_provider (ring_arm h key ordered))"
    "ordered \<noteq> []"
  shows "ring_arm h' key ordered = ring_arm h key ordered"
proof -
  let ?b = "nat (hash32 key mod int (length ordered))"
  obtain offset where o: "ring_offset h ordered ?b = Some offset"
    using assms(1) ring_arm_healthy [OF assms(4)] ring_offset_None [of h ordered ?b]
    by (cases "ring_offset h ordered ?b") auto
  have "ring_offset h' ordered ?b = Some offset"
    unfolding ring_offset_def
    by (rule find_still [OF o [unfolded ring_offset_def]]) (use assms(2,3) o in \<open>auto simp: ring_arm_def Let_def\<close>)
  then show ?thesis using o by (simp add: ring_arm_def)
qed

lemma ring_choose_arm:
  assumes wf: "wf_catalog cat"
  shows "\<exists>d. ring_choose name h key pinned ring sticky cat s = Inr d \<and>
    map_of cat (rd_chosen_model d) = Some (ring_arm h key (sorted_by mc_model (eligible cat s))) \<and>
    rd_provider d = mc_provider (ring_arm h key (sorted_by mc_model (eligible cat s)))"
proof -
  let ?o = "sorted_by mc_model (eligible cat s)"
  let ?b = "nat (hash32 key mod int (length ?o))"
  have ne: "?o \<noteq> []" using wf by simp
  then have b: "?b < length ?o" using hash_bucket [of "length ?o" key] by simp
  have val: "c \<in> set ?o \<Longrightarrow> c \<in> set (catalog_values cat)" for c using eligible_value by simp
  have dec: "\<exists>d. decision name cat (mc_model c) ra = Inr d \<and> map_of cat (rd_chosen_model d) = Some c \<and> rd_provider d = mc_provider c"
    if "c \<in> set ?o" for c ra
    using map_of_values [OF wf val [OF that]] by (simp add: decision_def catalog_get_def)
  show ?thesis
  proof (cases "ring_offset h ?o ?b")
    case None
    then have "ring_arm h key ?o = ?o ! ?b" using b by (simp add: ring_arm_def)
    then show ?thesis using dec [OF nth_mem [OF b]]
      unfolding ring_choose_def Let_def if_not_P [OF ne] None option.case by metis
  next
    case (Some offset)
    then have "ring_arm h key ?o = ?o ! ((?b + offset) mod length ?o)" by (simp add: ring_arm_def)
    then show ?thesis using dec [OF ring_offset_Some(3) [OF Some]]
      unfolding ring_choose_def Let_def if_not_P [OF ne] Some option.case by metis
  qed
qed

lemma ring_choose_ok: "wf_catalog cat \<Longrightarrow> ring_choose name h key pinned ring sticky cat s = Inr d \<Longrightarrow> decision_ok cat d"
  by (auto simp: ring_choose_def Let_def intro: decision_Inr split: if_splits option.splits)

lemma ring_choose_total: "wf_catalog cat \<Longrightarrow> \<exists>d. ring_choose name h key pinned ring sticky cat s = Inr d"
  using ring_choose_arm by blast

interpretation sticky_tenant: total_strategy "sticky_tenant_choose h" for h
  unfolding sticky_tenant_choose_def Let_def
  by unfold_locales (erule ring_choose_ok, assumption, erule ring_choose_total)

interpretation warm_pool: total_strategy "warm_pool_choose h n" for h n
  unfolding warm_pool_choose_def
  by unfold_locales (erule ring_choose_ok, assumption, erule ring_choose_total)

interpretation embedding_namespace: total_strategy "embedding_namespace_choose h prefix" for h prefix
  unfolding embedding_namespace_choose_def Let_def
  by unfold_locales (erule ring_choose_ok, assumption, erule ring_choose_total)

lemma healthy_pool_ok:
  assumes "wf_catalog cat"
  shows "healthy_pool h (eligible cat s) \<noteq> []" "set (healthy_pool h (eligible cat s)) \<subseteq> set (catalog_values cat)"
  using assms eligible_sub [of cat s] by (auto simp: healthy_pool_def or_else_def)

lemma canary_tier_ok: "wf_catalog cat \<Longrightarrow> canary_ok cat cn \<Longrightarrow> canary_tier_choose cn h cat r s = Inr d \<Longrightarrow> decision_ok cat d"
  unfolding canary_tier_choose_def Let_def bind_result_Inr
  by (auto simp: bind_result_Inr intro: canary_decision_ok split: if_splits)

lemma shadow_feasible_ok:
  assumes "wf_catalog cat"
  shows "shadow_feasible q cat s \<noteq> []" "set (shadow_feasible q cat s) \<subseteq> set (catalog_values cat)"
  using values_nonempty [OF assms]
  by (auto simp: shadow_feasible_def or_else_def cost_optimal_feasible_def supporting_domain_def)

interpretation shadow_mirror: total_strategy "shadow_mirror_choose q percent" for q percent
  unfolding shadow_mirror_choose_def Let_def
  by unfold_locales (erule pick_by_ok, assumption, intro pick_min_total shadow_feasible_ok, assumption+)

interpretation canary_cost: total_strategy "canary_cost_choose h percent" for h percent
proof
  fix cat r s d
  assume wf: "wf_catalog cat"
  show "canary_cost_choose h percent cat r s = Inr d \<Longrightarrow> decision_ok cat d"
    using wf by (auto simp: canary_cost_choose_def Let_def intro: decision_Inr split: if_splits list.splits)
  let ?o = "sorted_by (\<lambda>c. (by_model (cost_of r s) (eligible cat s) c, - mc_quality_score c)) (healthy_pool h (eligible cat s))"
  have val: "c \<in> set ?o \<Longrightarrow> c \<in> set (catalog_values cat)" for c using healthy_pool_ok(2) [OF wf] by auto
  have "?o \<noteq> []" using healthy_pool_ok(1) [OF wf] by simp
  then obtain c cs where o: "?o = c # cs" by (cases ?o) simp_all
  have "c \<in> set (catalog_values cat)" "1 < length (c # cs) \<Longrightarrow> (c # cs) ! 1 \<in> set (catalog_values cat)"
    by (rule val, simp add: o) (rule val, simp only: o nth_mem)
  then show "\<exists>d. canary_cost_choose h percent cat r s = Inr d"
    unfolding canary_cost_choose_def Let_def o list.case by (intro pick_if decision_value wf) blast+
qed

interpretation cost_anomaly_shed: total_strategy "cost_anomaly_shed_choose h ca ratio" for h ca ratio
proof
  fix cat r s d
  assume wf: "wf_catalog cat"
  show "cost_anomaly_shed_choose h ca ratio cat r s = Inr d \<Longrightarrow> decision_ok cat d"
    using wf by (auto simp: cost_anomaly_shed_choose_def Let_def intro: decision_Inr split: if_splits list.splits option.splits)
  let ?cost = "by_model (\<lambda>c. projected_cost_per_1k c (ts_prompt_tokens_estimate s) (rq_max_tokens r)) (eligible cat s)"
  let ?o = "sorted_rev_by (\<lambda>c. (mc_quality_score c, - ?cost c)) (eligible cat s)"
  have "?o \<noteq> []" using wf by simp
  then obtain c cs where o: "?o = c # cs" by (cases ?o) simp_all
  then have "c \<in> set ?o" by simp
  then have c: "c \<in> set (catalog_values cat)" by (auto intro: eligible_value)
  have k: "k \<in> set (catalog_values cat)"
    if "min_by f (filter P (healthy_pool h (eligible cat s))) = Some k" for k P and f :: "model_candidate \<Rightarrow> rat \<times> rat"
    using min_by_in [OF that] healthy_pool_ok(2) [OF wf] by auto
  show "\<exists>d. cost_anomaly_shed_choose h ca ratio cat r s = Inr d"
    unfolding cost_anomaly_shed_choose_def Let_def o list.case
    using decision_value [OF wf c] decision_value [OF wf k] by (auto split: option.splits)
qed

lemma region_hedge_ok: "wf_catalog cat \<Longrightarrow> region_hedge_choose ls ms cat r s = Inr d \<Longrightarrow> decision_ok cat d"
  by (auto simp: region_hedge_choose_def Let_def bind_result_Inr intro: decision_Inr pick_by_ok split: if_splits)

interpretation region_hedge: total_strategy "region_hedge_choose ls ms" for ls ms
proof
  fix cat r s d
  assume wf: "wf_catalog cat"
  show "region_hedge_choose ls ms cat r s = Inr d \<Longrightarrow> decision_ok cat d" using wf by (rule region_hedge_ok)
  let ?p = "or_else (filter (matches_region (requested_region r)) (eligible cat s)) (eligible cat s)"
  have p: "?p \<noteq> []" "set ?p \<subseteq> set (catalog_values cat)" using wf eligible_sub [of cat s] by (auto simp: or_else_def)
  obtain c where c: "max_by (\<lambda>c. (mc_quality_score c, - p50 ls (mc_provider c))) ?p = Some c" "c \<in> set ?p"
    using max_by_Some [OF p(1)] by blast
  show "\<exists>d. region_hedge_choose ls ms cat r s = Inr d"
    unfolding region_hedge_choose_def Let_def c(1) of_opt.simps bind_result.simps
    by (intro pick_if pick_min_total decision_value wf filter_eligible_values subsetD [OF p(2) c(2)]) simp
qed

interpretation prompt_length_shed: total_strategy "prompt_length_shed_choose n" for n
proof
  fix cat r s d
  assume wf: "wf_catalog cat"
  show "prompt_length_shed_choose n cat r s = Inr d \<Longrightarrow> decision_ok cat d"
    unfolding prompt_length_shed_choose_def Let_def by (erule pick_if_ok [OF wf])
  have "or_else (filter P (eligible cat s)) (eligible cat s) \<noteq> []"
    "set (or_else (filter P (eligible cat s)) (eligible cat s)) \<subseteq> set (catalog_values cat)" for P
    using wf eligible_sub [of cat s] by (auto simp: or_else_def)
  then show "\<exists>d. prompt_length_shed_choose n cat r s = Inr d"
    unfolding prompt_length_shed_choose_def Let_def by (intro pick_if pick_total wf)
qed

interpretation retry_budget: total_strategy "retry_budget_choose h ls n" for h ls n
  unfolding retry_budget_choose_def Let_def
  by unfold_locales (erule pick_if_ok, assumption, intro pick_if pick_max_total pick_min_total healthy_pool_ok, assumption+)

subsection \<open>What the ring promises a tenant\<close>

lemma model_of_key: "wf_catalog cat \<Longrightarrow> map_of cat m = Some c \<Longrightarrow> m = mc_model c"
  by (force simp: wf_catalog_def dest: map_of_SomeD)



text \<open>
  C40. A retry budget is read from the request metadata as it was written: as a number, or as its decimal
  text with any white space around it, of either sign and up to the 4300 digits Python converts; a
  negative budget counts as none.
\<close>

theorem written_retry_budget_is_read:
  assumes "\<bar>n\<bar> < 10 ^ k" "0 < k" "k \<le> 4300" "list_all is_space before" "list_all is_space after"
    and "map_of (rq_metadata r) ''retry_remaining'' = Some v" "v = VInt n \<or> v = VStr (before @ str_int n @ after)"
  shows "remaining_retries retry_default r = max 0 n"
proof -
  have "strip (py_str v) = str_int n"
    using assms(7) strip_str_int [OF assms(4,5), of n] strip_str_int [of "[]" "[]" n] by auto
  then show ?thesis using py_int_str_int [OF assms(1-3)] by (simp add: remaining_retries_def assms(6))
qed

theorem written_retry_budget_is_read_witness:
  "remaining_retries 3 (demo_request\<lparr> rq_metadata := [(''retry_remaining'', VStr ('' '' @ str_int 12 @ ''  ''))] \<rparr>) = max 0 12"
proof -
  have "is_space (CHR '' '')" by code_simp
  then show ?thesis
    by (intro written_retry_budget_is_read [where k = 2 and before = "'' ''" and after = "''  ''"]) auto
qed

end
