(* ===== verification/Strategies_Load.thy ===== *)
theory Strategies_Load
  imports Strategies_Ring
begin

text \<open>
  The strategies of \<open>src/router/strategies.py\<close> that read the health view and the rolling statistics of
  the engine without changing them: half-open probes, error budgets, regional tail latency, queue
  depth, weights, cooldowns, latency slopes, adaptive concurrency, and two sticky blends.
\<close>

subsection \<open>Shared pieces\<close>

definition quality_model_key :: "router_request \<Rightarrow> task_signals \<Rightarrow> model_candidate \<Rightarrow> rat \<times> rat \<times> string" where
  "quality_model_key r s c = (mc_quality_score c, - cost_of r s c, mc_model c)"

text \<open>The selected model with the other eligible models, sorted, as its fallbacks\<close>

definition pick_rest :: "strategy_name \<Rightarrow> model_candidate list \<Rightarrow> model_candidate option \<Rightarrow> (model_candidate \<Rightarrow> fstring) \<Rightarrow>
    (model_candidate \<Rightarrow> 'k::linorder) \<Rightarrow> routing_decision result" where
  "pick_rest name cs sel rationale key = bind_result (of_opt ValueError sel)
     (\<lambda>c. Inr (decide name c (rationale c) (sorted_by key (without (mc_model c) cs))))"

subsection \<open>Half-open probes\<close>

definition make_half_open_probe :: "int \<Rightarrow> int result" where
  "make_half_open_probe probe_budget = (if probe_budget < 1 then Inl ValueError else Inr probe_budget)"

definition half_open_probe_choose :: "(string \<Rightarrow> bool) \<Rightarrow> (string \<Rightarrow> bool) \<Rightarrow> inflight_stats \<Rightarrow> int \<Rightarrow>
    catalog \<Rightarrow> router_request \<Rightarrow> task_signals \<Rightarrow> routing_decision result" where
  "half_open_probe_choose healthy half_open ifs probe_budget cat r s =
     (let cs = eligible cat s;
          healthy_cs = filter (\<lambda>c. healthy (mc_provider c) \<and> \<not> half_open (mc_provider c)) cs;
          half_cs = filter (\<lambda>c. half_open (mc_provider c)) cs;
          probes = sum (load_score ifs) (mc_provider ` set half_cs)
      in if healthy_cs \<noteq> []
         then pick_by ''circuit-breaker-half-open-probe'' cat (max_by (quality_model_key r s) healthy_cs)
           (\<lambda>c. [Lit ''circuit-breaker-half-open-probe preferred healthy provider '', Str (mc_provider c), Lit '' (quality '',
             Fixed 2 (mc_quality_score c), Lit ''; probe budget '', IntF probe_budget, Lit '')''])
         else if half_cs \<noteq> []
         then pick_by ''circuit-breaker-half-open-probe'' cat (max_by (quality_model_key r s) half_cs)
           (\<lambda>c. if probes < probe_budget
             then [Lit ''circuit-breaker-half-open-probe allowed recovery probe to '', Str (mc_provider c),
               Lit '' (half-open load '', IntF probes, Lit ''/'', IntF probe_budget, Lit ''; quality '',
               Fixed 2 (mc_quality_score c), Lit '')'']
             else [Lit ''circuit-breaker-half-open-probe probe budget exhausted ('', IntF probes, Lit ''/'', IntF probe_budget,
               Lit ''); routed to half-open fallback '', Str (mc_provider c), Lit '' (quality '',
               Fixed 2 (mc_quality_score c), Lit '')''])
         else pick_by ''circuit-breaker-half-open-probe'' cat (max_by (quality_model_key r s) cs)
           (\<lambda>c. [Lit ''circuit-breaker-half-open-probe found no healthy or half-open provider; routed to highest-quality eligible '',
             Str (mc_model c)]))"

subsection \<open>Error budgets, tail latency and queue depth\<close>

definition make_error_budget_shed :: "rat \<Rightarrow> rat result" where
  "make_error_budget_shed rate = (if \<not> (0 \<le> rate \<and> rate \<le> 1) then Inl ValueError else Inr rate)"

definition provider_error_rate :: "success_stats \<Rightarrow> string \<Rightarrow> rat" where
  "provider_error_rate ss p = max 0 (min 1 (fsub 1 (success_rate ss p)))"

definition error_budget_shed_choose :: "(string \<Rightarrow> bool) \<Rightarrow> success_stats \<Rightarrow> rat \<Rightarrow> catalog \<Rightarrow> router_request \<Rightarrow>
    task_signals \<Rightarrow> routing_decision result" where
  "error_budget_shed_choose healthy ss budget cat r s =
     (let cs = eligible cat s;
          healthy_cs = filter (\<lambda>c. healthy (mc_provider c)) cs;
          active = or_else healthy_cs cs;
          rate = by_model (\<lambda>c. provider_error_rate ss (mc_provider c)) active;
          under = filter (\<lambda>c. rate c \<le> budget) active;
          note = (if healthy_cs = [] then [Lit ''; no closed circuits were available''] else []);
          key = (\<lambda>c. (\<not> healthy (mc_provider c), budget < provider_error_rate ss (mc_provider c),
            provider_error_rate ss (mc_provider c), - mc_quality_score c, cost_of r s c, mc_model c))
      in if under \<noteq> []
         then pick_rest ''provider-error-budget-shed'' cs
           (max_by (\<lambda>c. (mc_quality_score c, - rate c, - cost_of r s c, mc_model c)) under)
           (\<lambda>c. [Lit ''provider-error-budget-shed selected highest-quality provider under error budget '', Percent 2 budget,
             Lit ''; '', Str (mc_provider c), Lit '' error '', Percent 2 (rate c), Lit '', quality '',
             Fixed 2 (mc_quality_score c)] @ note) key
         else pick_rest ''provider-error-budget-shed'' cs
           (min_by (\<lambda>c. (rate c, - mc_quality_score c, cost_of r s c, mc_model c)) active)
           (\<lambda>c. [Lit ''provider-error-budget-shed found every eligible provider over error budget '', Percent 2 budget,
             Lit ''; routed to lowest-error provider '', Str (mc_provider c), Lit '' ('', Percent 2 (rate c),
             Lit '') with quality '', Fixed 2 (mc_quality_score c)] @ note) key)"

definition make_region_p99 :: "rat \<Rightarrow> rat result" where
  "make_region_p99 ms = (if ms < 0 then Inl ValueError else Inr ms)"

definition region_p99_shed_choose :: "latency_stats \<Rightarrow> rat \<Rightarrow> catalog \<Rightarrow> router_request \<Rightarrow> task_signals \<Rightarrow>
    routing_decision result" where
  "region_p99_shed_choose ls ms cat r s =
     (let cs = eligible cat s;
          region = requested_region r;
          region_cs = or_else (filter (matches_region region) cs) cs;
          tail = by_model (\<lambda>c. p99 ls (mc_provider c)) region_cs;
          under = filter (\<lambda>c. tail c \<le> ms) region_cs;
          quoted = [Lit [CHR 0x27], Str region, Lit [CHR 0x27]]
      in if under \<noteq> []
         then pick_by ''region-latency-p99-shed'' cat
           (max_by (\<lambda>c. (mc_quality_score c, - tail c, - cost_of r s c, mc_model c)) under)
           (\<lambda>c. [Lit ''region-latency-p99-shed selected highest quality '', Fixed 2 (mc_quality_score c), Lit '' in region '']
             @ quoted @ [Lit '' under '', Fixed 0 ms, Lit ''ms p99 (provider p99 '', Fixed 1 (tail c),
             Lit ''ms; shed slower alternatives)''])
         else pick_by ''region-latency-p99-shed'' cat
           (min_by (\<lambda>c. (tail c, - mc_quality_score c, cost_of r s c, mc_model c)) region_cs)
           (\<lambda>c. [Lit ''region-latency-p99-shed found no provider in region ''] @ quoted @ [Lit '' under '', Fixed 0 ms,
             Lit ''ms p99; shed fallback to lowest-p99 model (provider p99 '', Fixed 1 (tail c), Lit ''ms)'']))"

definition make_queue_depth :: "int \<Rightarrow> int result" where
  "make_queue_depth soft_cap = (if soft_cap < 1 then Inl ValueError else Inr soft_cap)"

definition queue_depth_choose :: "inflight_stats \<Rightarrow> int \<Rightarrow> catalog \<Rightarrow> router_request \<Rightarrow> task_signals \<Rightarrow>
    routing_decision result" where
  "queue_depth_choose ifs soft_cap cat r s =
     (let cs = eligible cat s;
          depth = by_model (\<lambda>c. load_score ifs (mc_provider c)) cs;
          under = filter (\<lambda>c. depth c < soft_cap) cs;
          key = (\<lambda>c. (soft_cap \<le> depth c, depth c, - mc_quality_score c, cost_of r s c, mc_model c))
      in if under \<noteq> []
         then pick_rest ''queue-depth-fairness'' cs
           (max_by (\<lambda>c. (mc_quality_score c, - depth c, - cost_of r s c, mc_model c)) under)
           (\<lambda>c. [Lit ''queue-depth-fairness selected under soft cap '', IntF soft_cap, Lit ''; '', Str (mc_provider c),
             Lit '' depth '', IntF (depth c), Lit ''/'', IntF soft_cap, Lit '' with highest eligible quality '',
             Fixed 2 (mc_quality_score c)]) key
         else pick_rest ''queue-depth-fairness'' cs
           (min_by (\<lambda>c. (depth c, - mc_quality_score c, cost_of r s c, mc_model c)) cs)
           (\<lambda>c. [Lit ''queue-depth-fairness found every eligible provider at or above soft cap '', IntF soft_cap,
             Lit ''; routed to lowest-depth fallback '', Str (mc_provider c), Lit '' depth '', IntF (depth c),
             Lit ''/'', IntF soft_cap]) key)"

subsection \<open>Weights, cooldowns and slopes\<close>

definition weight_decay_choose :: "weight_stats \<Rightarrow> catalog \<Rightarrow> router_request \<Rightarrow> task_signals \<Rightarrow> routing_decision result" where
  "weight_decay_choose ws cat r s =
     (let cs = eligible cat s;
          weight = (\<lambda>c. ws_weight ws (mc_provider c));
          score = (\<lambda>c. fmul (weight c) (mc_quality_score c))
      in pick_rest ''provider-weight-decay'' cs
        (max_by (\<lambda>c. (score c, weight c, mc_quality_score c, - cost_of r s c, mc_model c)) cs)
        (\<lambda>c. [Lit ''provider-weight-decay selected '', Str (mc_model c), Lit '' on '', Str (mc_provider c), Lit '' (weight '',
          Fixed 3 (weight c), Lit ''; score '', Fixed 3 (score c), Lit ''; decay='', Fixed 2 (ws_decay_factor ws),
          Lit '', recover='', Fixed 2 (ws_recover ws), Lit '')''])
        (\<lambda>c. (- score c, - weight c, - mc_quality_score c, cost_of r s c, mc_model c)))"

definition retry_after_choose :: "rat \<Rightarrow> (string \<Rightarrow> bool) \<Rightarrow> retry_cooldown \<Rightarrow> catalog \<Rightarrow> router_request \<Rightarrow> task_signals \<Rightarrow>
    routing_decision result" where
  "retry_after_choose now healthy rc cat r s =
     (let cs = eligible cat s;
          cooling = (\<lambda>c. is_cooling_down now (mc_provider c) rc);
          remaining = (\<lambda>c. remaining_seconds now (mc_provider c) rc);
          up = (\<lambda>c. healthy (mc_provider c));
          healthy_ready = filter (\<lambda>c. up c \<and> \<not> cooling c) cs;
          healthy_cooling = filter (\<lambda>c. up c \<and> cooling c) cs;
          ready = filter (\<lambda>c. \<not> cooling c) cs;
          key = (\<lambda>c. (cooling c, \<not> up c, remaining c, - mc_quality_score c, mc_model c))
      in if healthy_ready \<noteq> []
         then pick_rest ''retry-after-respect'' cs (max_by (quality_model_key r s) healthy_ready)
           (\<lambda>c. [Lit ''retry-after-respect selected healthy ready provider '', Str (mc_provider c), Lit '' (quality '',
             Fixed 2 (mc_quality_score c), Lit ''; default wait '', Fixed 0 (rc_default_seconds rc), Lit ''s)'']) key
         else if healthy_cooling \<noteq> []
         then pick_rest ''retry-after-respect'' cs
           (min_by (\<lambda>c. (remaining c, - mc_quality_score c, mc_model c)) healthy_cooling)
           (\<lambda>c. [Lit ''retry-after-respect all healthy providers cooling; fell back to next healthy '', Str (mc_provider c),
             Lit '' with '', Fixed 1 (remaining c), Lit ''s remaining'']) key
         else if ready \<noteq> []
         then pick_rest ''retry-after-respect'' cs (max_by (quality_model_key r s) ready)
           (\<lambda>c. [Lit ''retry-after-respect no healthy ready providers; selected ready '', Str (mc_provider c), Lit '' (quality '',
             Fixed 2 (mc_quality_score c), Lit '')'']) key
         else pick_rest ''retry-after-respect'' cs (max_by (quality_model_key r s) cs)
           (\<lambda>c. [Lit ''retry-after-respect every eligible provider cooling; selected '', Str (mc_provider c),
             Lit '' with '', Fixed 1 (remaining c), Lit ''s remaining'']) key)"

definition make_latency_slope_shed :: "rat \<Rightarrow> rat result" where
  "make_latency_slope_shed ms = (if ms < 0 then Inl ValueError else Inr ms)"

definition latency_slope_shed_choose :: "latency_slope_stats \<Rightarrow> (string \<Rightarrow> bool) \<Rightarrow> rat \<Rightarrow> catalog \<Rightarrow> router_request \<Rightarrow>
    task_signals \<Rightarrow> routing_decision result" where
  "latency_slope_shed_choose lw healthy ms cat r s =
     (let cs = eligible cat s;
          cost = by_model (cost_of r s) cs;
          rise = by_model (\<lambda>c. ewma_slope lw (mc_provider c)) cs;
          mean = by_model (\<lambda>c. mean_latency lw (mc_provider c)) cs;
          steady = filter (\<lambda>c. rise c \<le> ms) cs;
          up = filter (\<lambda>c. healthy (mc_provider c));
          pool = or_else (up steady) (or_else (up cs) (or_else steady cs))
      in bind_result (of_opt ValueError (max_by (\<lambda>c. (mc_quality_score c, - cost c, mc_model c)) cs)) (\<lambda>primary.
         if rise primary \<le> ms
         then decision ''latency-slope-shed'' cat (mc_model primary)
           [Lit ''latency-slope-shed kept highest quality '', Fixed 2 (mc_quality_score primary), Lit '' (EWMA slope '',
            Fixed 2 (rise primary), Lit ''ms/step <= '', Fixed 2 ms, Lit ''ms threshold)'']
         else pick_by ''latency-slope-shed'' cat
           (min_by (\<lambda>c. (mean c, cost c, - mc_quality_score c, mc_model c)) pool)
           (\<lambda>c. [Lit ''latency-slope-shed shed rising '', Str (mc_provider primary), Lit '' (EWMA slope '', Fixed 2 (rise primary),
             Lit ''ms/step > '', Fixed 2 ms, Lit ''ms) to lower-latency/cheaper '', Str (mc_model c), Lit '' (mean '',
             Fixed 1 (mean c), Lit ''ms, est $'', Fixed 6 (cost c), Lit '')''])))"

subsection \<open>Adaptive concurrency\<close>

record concurrency_config =
  ac_base_cap :: int
  ac_min_cap :: int
  ac_latency_reference_ms :: rat

definition make_adaptive_concurrency :: "int \<Rightarrow> int \<Rightarrow> rat \<Rightarrow> concurrency_config result" where
  "make_adaptive_concurrency base least reference =
     (if base < 1 \<or> least < 1 \<or> base < least \<or> reference \<le> 0 then Inl ValueError
      else Inr \<lparr> ac_base_cap = base, ac_min_cap = least, ac_latency_reference_ms = reference \<rparr>)"

definition concurrency_health :: "concurrency_config \<Rightarrow> success_stats \<Rightarrow> latency_stats \<Rightarrow> string \<Rightarrow> rat" where
  "concurrency_health ac ss ls p =
     (let latency_factor = (if p95 ls p \<le> 0 then 1 else min 1 (fdiv (ac_latency_reference_ms ac) (p95 ls p)))
      in fmul (success_rate ss p) latency_factor)"

text \<open>\<open>int(x)\<close> cuts towards zero.\<close>

definition truncate_int :: "rat \<Rightarrow> int" where
  "truncate_int x = (if 0 \<le> x then \<lfloor>x\<rfloor> else - \<lfloor>- x\<rfloor>)"

definition effective_cap :: "concurrency_config \<Rightarrow> success_stats \<Rightarrow> latency_stats \<Rightarrow> string \<Rightarrow> int" where
  "effective_cap ac ss ls p = max (ac_min_cap ac) (min (ac_base_cap ac)
     (truncate_int (fmul (fint (ac_base_cap ac)) (concurrency_health ac ss ls p))))"

definition adaptive_concurrency_choose :: "concurrency_config \<Rightarrow> inflight_stats \<Rightarrow> success_stats \<Rightarrow> latency_stats \<Rightarrow>
    catalog \<Rightarrow> router_request \<Rightarrow> task_signals \<Rightarrow> routing_decision result" where
  "adaptive_concurrency_choose ac ifs ss ls cat r s =
     (let cs = eligible cat s;
          load = (\<lambda>c. load_score ifs (mc_provider c));
          cap = (\<lambda>c. effective_cap ac ss ls (mc_provider c));
          health = (\<lambda>c. concurrency_health ac ss ls (mc_provider c));
          under = filter (\<lambda>c. load c < cap c) cs;
          key = (\<lambda>c. (cap c \<le> load c, - health c, - mc_quality_score c, cost_of r s c, mc_model c))
      in if under \<noteq> []
         then pick_rest ''adaptive-concurrency-cap'' cs
           (max_by (\<lambda>c. (health c, mc_quality_score c, - cost_of r s c, mc_model c)) under)
           (\<lambda>c. [Lit ''adaptive-concurrency-cap selected below adaptive cap '', IntF (cap c), Lit ''/'', IntF (ac_base_cap ac),
             Lit ''; '', Str (mc_provider c), Lit '' load '', IntF (load c), Lit ''/'', IntF (cap c), Lit '' health '',
             Fixed 2 (health c)]) key
         else pick_rest ''adaptive-concurrency-cap'' cs
           (min_by (\<lambda>c. (idiv (load c) (max (cap c) 1), - health c, - mc_quality_score c, cost_of r s c, mc_model c)) cs)
           (\<lambda>c. [Lit ''adaptive-concurrency-cap found every eligible provider at or above adaptive cap; routed to least-saturated fallback '',
             Str (mc_provider c), Lit '' load '', IntF (load c), Lit ''/'', IntF (cap c), Lit '' health '',
             Fixed 2 (health c)]) key)"

subsection \<open>Sticky blends\<close>

text \<open>The loop over the cumulative weights: the first index whose sum exceeds the bucket, 0 if none.\<close>

fun weighted_index :: "int \<Rightarrow> int \<Rightarrow> nat \<Rightarrow> int list \<Rightarrow> nat" where
  "weighted_index bucket cumulative index [] = 0"
| "weighted_index bucket cumulative index (w # ws) =
     (if bucket < cumulative + w then index else weighted_index bucket (cumulative + w) (index + 1) ws)"

definition quality_weight :: "model_candidate \<Rightarrow> int" where
  "quality_weight c = max 1 (rne (fmul (mc_quality_score c) 100))"

definition quality_sticky_choose :: "catalog \<Rightarrow> router_request \<Rightarrow> task_signals \<Rightarrow> routing_decision result" where
  "quality_sticky_choose cat r s =
     (let ordered = sorted_by mc_model (eligible cat s);
          weights = map quality_weight ordered;
          total = sum_list weights;
          bucket = hash32 (rq_session_id r) mod total;
          index = weighted_index bucket 0 0 weights;
          c = ordered ! index
      in if ordered = [] then Inl ZeroDivisionError
         else decision ''quality-weighted-sticky'' cat (mc_model c)
           [Lit ''quality-weighted-sticky pinned session '', Lit [CHR 0x27], Str (rq_session_id r), Lit [CHR 0x27], Lit '' to '',
            Str (mc_model c), Lit '' (quality weight '', IntF (weights ! index), Lit ''/'', IntF total, Lit ''; bucket '',
            IntF bucket, Lit '')''])"

definition sticky_canary_choose :: "(string \<Rightarrow> bool) \<Rightarrow> rat \<Rightarrow> catalog \<Rightarrow> router_request \<Rightarrow> task_signals \<Rightarrow>
    routing_decision result" where
  "sticky_canary_choose healthy percent cat r s =
     (let cs = eligible cat s;
          ordered = sorted_by mc_model cs;
          key = tenant_scope r;
          primary = nat (hash32 key mod int (length ordered));
          pinned = ordered ! primary;
          bucket = hash_fraction (rq_request_id r);
          in_slice = (bucket < fdiv percent 100);
          cheaper = filter (\<lambda>c. healthy (mc_provider c) \<and> cost_of r s c < cost_of r s pinned) cs;
          tenant = [Lit [CHR 0x27], Str key, Lit [CHR 0x27]];
          arm = (\<lambda>offset. ordered ! ((primary + offset) mod length ordered))
      in if ordered = [] then Inl ZeroDivisionError
         else if in_slice \<and> cheaper \<noteq> []
         then pick_by ''sticky-canary-cost'' cat (min_by (\<lambda>c. (cost_of r s c, - mc_quality_score c, mc_model c)) cheaper)
           (\<lambda>c. [Lit ''sticky-canary-cost explore slice (bucket='', Fixed 4 bucket, Lit '' < '', Fixed 1 percent,
             Lit ''%); blended tenant ''] @ tenant @ [Lit '' from sticky '', Str (mc_model pinned),
             Lit '' toward cheaper healthy '', Str (mc_model c), Lit '' (est $'', Fixed 6 (cost_of r s c), Lit '' < sticky $'',
             Fixed 6 (cost_of r s pinned), Lit '')''])
         else (case ring_offset healthy ordered primary of
             Some offset \<Rightarrow> decision ''sticky-canary-cost'' cat (mc_model (arm offset))
               (Lit ''sticky-canary-cost '' #
                (if in_slice then [Lit ''explore slice bucket='', Fixed 4 bucket, Lit '' but no cheaper healthy option; '']
                 else [Lit ''bucket='', Fixed 4 bucket, Lit '' >= '', Fixed 1 percent, Lit ''%; '']) @
                [Lit ''pinned tenant ''] @ tenant @ [Lit '' to '', Str (mc_model (arm offset)), Lit '' (''] @
                (if 0 < offset then [Lit ''failover offset '', IntF (int offset), Lit '' from primary bucket '', IntF (int primary)]
                 else [Lit ''primary bucket '', IntF (int primary)]) @
                [Lit ''/'', IntF (int (length ordered)), Lit '' healthy ring)''])
           | None \<Rightarrow> decision ''sticky-canary-cost'' cat (mc_model pinned)
               ([Lit ''sticky-canary-cost pinned tenant ''] @ tenant @ [Lit '' to '', Str (mc_model pinned),
                Lit '' (primary bucket '', IntF (int primary), Lit ''; no healthy providers; sticky fallback)''])))"

subsection \<open>The contract\<close>

lemma pick_rest_ok:
  assumes "wf_catalog cat" "pick_rest name (eligible cat s) sel ra key = Inr d" "set_option sel \<subseteq> set (eligible cat s)"
  shows "decision_ok cat d"
  using assms by (auto simp: pick_rest_def bind_result_Inr intro!: decide_rest_ok)

lemma pick_rest_total: "sel \<noteq> None \<Longrightarrow> \<exists>d. pick_rest name cs sel ra key = Inr d"
  by (auto simp: pick_rest_def)

lemma set_max_by: "set xs \<subseteq> A \<Longrightarrow> set_option (max_by f xs) \<subseteq> A"
  by (auto dest: max_by_in)

lemma set_min_by: "set xs \<subseteq> A \<Longrightarrow> set_option (min_by f xs) \<subseteq> A"
  by (auto dest: min_by_in)

lemma or_else_sub: "set (or_else (filter P cs) cs) \<subseteq> set cs" "set (filter P cs) \<subseteq> set cs"
    "set (filter P (or_else (filter Q cs) cs)) \<subseteq> set cs"
  by (auto simp: or_else_def)

lemmas within_eligible = set_max_by set_min_by or_else_sub order_refl

lemma by_None: "xs \<noteq> [] \<Longrightarrow> max_by f xs \<noteq> None" "xs \<noteq> [] \<Longrightarrow> min_by f xs \<noteq> None"
  by simp_all

lemma pick_rest_if_ok:
  assumes "wf_catalog cat" "set_option x \<subseteq> set (eligible cat s)" "set_option y \<subseteq> set (eligible cat s)"
    "(if P then pick_rest n (eligible cat s) x ra key else pick_rest n (eligible cat s) y rb key) = Inr d"
  shows "decision_ok cat d"
  using assms by (auto split: if_splits intro: pick_rest_ok)

interpretation half_open_probe: total_strategy "half_open_probe_choose h ho ifs n" for h ho ifs n
proof
  fix cat r s d
  assume wf: "wf_catalog cat"
  show "half_open_probe_choose h ho ifs n cat r s = Inr d \<Longrightarrow> decision_ok cat d"
    unfolding half_open_probe_choose_def Let_def by (auto intro: pick_by_ok [OF wf] split: if_splits)
  show "\<exists>d. half_open_probe_choose h ho ifs n cat r s = Inr d"
    unfolding half_open_probe_choose_def Let_def by (intro pick_if pick_total wf)
qed

interpretation error_budget_shed: total_strategy "error_budget_shed_choose h ss b" for h ss b
proof
  fix cat r s d
  assume wf: "wf_catalog cat"
  show "error_budget_shed_choose h ss b cat r s = Inr d \<Longrightarrow> decision_ok cat d"
    unfolding error_budget_shed_choose_def Let_def by (erule pick_rest_if_ok [OF wf, rotated 2]) (intro within_eligible)+
  show "\<exists>d. error_budget_shed_choose h ss b cat r s = Inr d"
    unfolding error_budget_shed_choose_def Let_def by (intro pick_if pick_rest_total by_None) (simp_all add: wf)
qed

interpretation region_p99_shed: total_strategy "region_p99_shed_choose ls ms" for ls ms
proof
  fix cat r s d
  assume wf: "wf_catalog cat"
  show "region_p99_shed_choose ls ms cat r s = Inr d \<Longrightarrow> decision_ok cat d"
    unfolding region_p99_shed_choose_def Let_def by (erule pick_if_ok [OF wf])
  show "\<exists>d. region_p99_shed_choose ls ms cat r s = Inr d"
    unfolding region_p99_shed_choose_def Let_def
    by (intro pick_if pick_max_total pick_min_total wf subset_trans [OF or_else_sub(1) eligible_sub]
        subset_trans [OF or_else_sub(3) eligible_sub]) (simp_all add: wf)
qed

interpretation queue_depth: total_strategy "queue_depth_choose ifs n" for ifs n
proof
  fix cat r s d
  assume wf: "wf_catalog cat"
  show "queue_depth_choose ifs n cat r s = Inr d \<Longrightarrow> decision_ok cat d"
    unfolding queue_depth_choose_def Let_def by (erule pick_rest_if_ok [OF wf, rotated 2]) (intro within_eligible)+
  show "\<exists>d. queue_depth_choose ifs n cat r s = Inr d"
    unfolding queue_depth_choose_def Let_def by (intro pick_if pick_rest_total by_None) (simp_all add: wf)
qed

interpretation weight_decay: total_strategy "weight_decay_choose ws" for ws
proof
  fix cat r s d
  assume wf: "wf_catalog cat"
  show "weight_decay_choose ws cat r s = Inr d \<Longrightarrow> decision_ok cat d"
    unfolding weight_decay_choose_def Let_def by (erule pick_rest_ok [OF wf]) (intro within_eligible)
  show "\<exists>d. weight_decay_choose ws cat r s = Inr d"
    unfolding weight_decay_choose_def Let_def by (intro pick_rest_total by_None) (simp add: wf)
qed

interpretation retry_after: total_strategy "retry_after_choose now h rc" for now h rc
proof
  fix cat r s d
  assume wf: "wf_catalog cat"
  show "retry_after_choose now h rc cat r s = Inr d \<Longrightarrow> decision_ok cat d"
    unfolding retry_after_choose_def Let_def
    by (simp split: if_splits) (erule pick_rest_ok [OF wf]; intro within_eligible)+
  show "\<exists>d. retry_after_choose now h rc cat r s = Inr d"
    unfolding retry_after_choose_def Let_def by (intro pick_if pick_rest_total by_None) (simp_all add: wf)
qed

lemma slope_shed_pool:
  assumes "wf_catalog cat"
  shows "or_else (filter P (filter Q (eligible cat s))) (or_else (filter P (eligible cat s))
      (or_else (filter Q (eligible cat s)) (eligible cat s))) \<noteq> []"
    "set (or_else (filter P (filter Q (eligible cat s))) (or_else (filter P (eligible cat s))
      (or_else (filter Q (eligible cat s)) (eligible cat s)))) \<subseteq> set (catalog_values cat)"
  using assms eligible_sub [of cat s] by (auto simp: or_else_def)

interpretation latency_slope_shed: total_strategy "latency_slope_shed_choose lw h ms" for lw h ms
proof
  fix cat r s d
  assume wf: "wf_catalog cat"
  show "latency_slope_shed_choose lw h ms cat r s = Inr d \<Longrightarrow> decision_ok cat d"
    unfolding latency_slope_shed_choose_def Let_def
    by (auto simp: bind_result_Inr intro: pick_by_ok [OF wf] decision_Inr [OF wf] split: if_splits)
  let ?key = "\<lambda>c. (mc_quality_score c, - by_model (cost_of r s) (eligible cat s) c, mc_model c)"
  obtain c where c: "max_by ?key (eligible cat s) = Some c" "c \<in> set (eligible cat s)"
    using max_by_Some [OF eligible_nonempty [OF wf]] by blast
  show "\<exists>d. latency_slope_shed_choose lw h ms cat r s = Inr d"
    unfolding latency_slope_shed_choose_def Let_def c(1) of_opt.simps bind_result.simps
    by (intro pick_if pick_min_total decision_value wf slope_shed_pool eligible_value [OF c(2)])
qed

interpretation adaptive_concurrency: total_strategy "adaptive_concurrency_choose ac ifs ss ls" for ac ifs ss ls
proof
  fix cat r s d
  assume wf: "wf_catalog cat"
  show "adaptive_concurrency_choose ac ifs ss ls cat r s = Inr d \<Longrightarrow> decision_ok cat d"
    unfolding adaptive_concurrency_choose_def Let_def by (erule pick_rest_if_ok [OF wf, rotated 2]) (intro within_eligible)+
  show "\<exists>d. adaptive_concurrency_choose ac ifs ss ls cat r s = Inr d"
    unfolding adaptive_concurrency_choose_def Let_def by (intro pick_if pick_rest_total by_None) (simp_all add: wf)
qed

text \<open>The cumulative weights cover every bucket, so the loop always finds its own index.\<close>

lemma weighted_index_slot:
  assumes "cum \<le> b" "b < cum + sum_list ws"
  shows "\<exists>k < length ws. weighted_index b cum i ws = i + k \<and>
    cum + sum_list (take k ws) \<le> b \<and> b < cum + sum_list (take (Suc k) ws)"
  using assms
proof (induction ws arbitrary: cum i)
  case (Cons w ws)
  show ?case
  proof (cases "b < cum + w")
    case True
    then show ?thesis using Cons.prems by (intro exI [of _ 0]) simp
  next
    case False
    then obtain k where "k < length ws" "weighted_index b (cum + w) (i + 1) ws = i + 1 + k"
      "cum + w + sum_list (take k ws) \<le> b" "b < cum + w + sum_list (take (Suc k) ws)"
      using Cons.IH [of "cum + w" "i + 1"] Cons.prems by (auto simp: add.assoc)
    then show ?thesis using False by (intro exI [of _ "Suc k"]) (simp add: add.assoc)
  qed
qed simp

lemma quality_weights_positive: "cs \<noteq> [] \<Longrightarrow> 0 < sum_list (map quality_weight cs)"
proof (induction cs)
  case (Cons c cs)
  have "1 \<le> quality_weight c" by (simp add: quality_weight_def)
  moreover have "0 \<le> sum_list (map quality_weight cs)" by (rule sum_list_nonneg) (auto simp: quality_weight_def)
  ultimately show ?case by simp
qed simp

lemma weighted_index_bound:
  assumes "cs \<noteq> []"
  shows "weighted_index (hash32 key mod sum_list (map quality_weight cs)) 0 0 (map quality_weight cs) < length cs"
  using weighted_index_slot [of 0 "hash32 key mod sum_list (map quality_weight cs)" "map quality_weight cs" 0]
    quality_weights_positive [OF assms] by auto

interpretation quality_sticky: total_strategy quality_sticky_choose
proof
  fix cat r s d
  assume wf: "wf_catalog cat"
  show "quality_sticky_choose cat r s = Inr d \<Longrightarrow> decision_ok cat d"
    using wf by (auto simp: quality_sticky_choose_def Let_def intro: decision_Inr split: if_splits)
  let ?o = "sorted_by mc_model (eligible cat s)"
  have ne: "?o \<noteq> []" using wf by simp
  show "\<exists>d. quality_sticky_choose cat r s = Inr d"
    unfolding quality_sticky_choose_def Let_def if_not_P [OF ne]
    by (intro decision_value wf eligible_value [of _ cat s] nth_sorted_by weighted_index_bound ne)
qed

interpretation sticky_canary: total_strategy "sticky_canary_choose h percent" for h percent
proof
  fix cat r s d
  assume wf: "wf_catalog cat"
  show "sticky_canary_choose h percent cat r s = Inr d \<Longrightarrow> decision_ok cat d"
    unfolding sticky_canary_choose_def Let_def
    by (auto intro: pick_by_ok [OF wf] decision_Inr [OF wf] split: if_splits option.splits)
  let ?o = "sorted_by mc_model (eligible cat s)"
  have ne: "?o \<noteq> []" using wf by simp
  then have n: "(p + k) mod length ?o < length ?o" for p k by simp
  have m: "nat (hash32 key mod int (length ?o)) < length ?o" for key using hash_bucket [of "length ?o"] ne by simp
  show "\<exists>d. sticky_canary_choose h percent cat r s = Inr d"
    unfolding sticky_canary_choose_def Let_def if_not_P [OF ne]
  proof (intro pick_if)
    show "\<exists>d. (case x of None \<Rightarrow> decision nm cat (mc_model (?o ! nat (hash32 (tenant_scope r) mod int (length ?o)))) ra
        | Some offset \<Rightarrow> decision nm cat (mc_model (?o ! ((nat (hash32 (tenant_scope r) mod int (length ?o)) + offset) mod length ?o)))
            (rb offset)) = Inr d" for x ra rb and nm :: strategy_name
      by (cases x) (simp_all only: option.case, (intro decision_value wf eligible_value [of _ cat s] nth_sorted_by n m)+)
  qed (intro pick_total wf, erule conjunct2)
qed

end
