(* ===== verification/Guardrails.thy ===== *)
theory Guardrails
  imports Windows
begin

text \<open>
  The remaining state the engine updates: the budget guardrail (\<open>src/safety/budget.py\<close>), the spend
  ledger and the audit log as the rows they have appended (\<open>src/safety/spend_ledger.py\<close>,
  \<open>src/router/audit.py\<close>; SQLite and the file system are outside the model, and a failing write is
  an input of the engine), and three statistics of \<open>src/router/strategies.py\<close>: the resetting error
  windows, the region recovery streaks and the tenant spend windows.
\<close>

subsection \<open>Budget guardrail\<close>

record budget_guardrail =
  bg_cap_usd :: rat
  bg_spend :: "string \<rightharpoonup> rat"

definition EPSILON_USD :: rat where "EPSILON_USD = fl (1 / 10 ^ 9)"

definition spent :: "string \<Rightarrow> budget_guardrail \<Rightarrow> rat" where
  "spent subject bg = (case bg_spend bg subject of None \<Rightarrow> 0 | Some x \<Rightarrow> x)"

definition assert_can_spend :: "string \<Rightarrow> rat \<Rightarrow> budget_guardrail \<Rightarrow> unit result" where
  "assert_can_spend subject estimated bg =
     (if fadd (bg_cap_usd bg) EPSILON_USD < fadd (spent subject bg) estimated
      then Inl (BudgetExceededError subject) else Inr ())"

definition record_spend :: "string \<Rightarrow> rat \<Rightarrow> budget_guardrail \<Rightarrow> budget_guardrail" where
  "record_spend subject cost bg = bg\<lparr> bg_spend := (bg_spend bg)(subject \<mapsto> fadd (spent subject bg) cost) \<rparr>"

lemma spent_record [simp]:
  "spent s (record_spend s' c bg) = (if s = s' then fadd (spent s bg) c else spent s bg)"
  "bg_cap_usd (record_spend s' c bg) = bg_cap_usd bg"
  by (simp_all add: spent_def record_spend_def)

text \<open>One guarded request after the other: subject, estimate, actual cost.\<close>

fun guarded_spend :: "budget_guardrail \<Rightarrow> string \<times> rat \<times> rat \<Rightarrow> budget_guardrail" where
  "guarded_spend bg (subject, estimated, cost) = (case assert_can_spend subject estimated bg of
      Inl _ \<Rightarrow> bg | Inr _ \<Rightarrow> record_spend subject cost bg)"



text \<open>
  The engine checks before the await and records after it, so requests in flight at the same time
  all see the spend before any of them: the cap is not a bound for concurrent requests.
\<close>

lemma budget_check_then_record_race:
  "let bg = \<lparr> bg_cap_usd = 1, bg_spend = Map.empty \<rparr> in
   assert_can_spend ''u'' (3/4) bg = Inr () \<and>
   fadd 1 EPSILON_USD < spent ''u'' (record_spend ''u'' (3/4) (record_spend ''u'' (3/4) bg))"
  by code_simp

subsection \<open>Spend ledger and audit log\<close>

record spend_record =
  sr_request_id :: string
  sr_tenant :: string
  sr_provider :: string
  sr_model :: string
  sr_cost_usd :: rat
  sr_input_tokens :: int
  sr_output_tokens :: int
  sr_recorded_at :: rat

definition ledger_record :: "rat \<Rightarrow> string \<Rightarrow> string \<Rightarrow> string \<Rightarrow> string \<Rightarrow> rat \<Rightarrow> int \<Rightarrow> int \<Rightarrow>
    spend_record list \<Rightarrow> spend_record list" where
  "ledger_record stamp request_id tenant provider model cost i n rows =
     rows @ [\<lparr> sr_request_id = request_id, sr_tenant = (if tenant = [] then ''anonymous'' else tenant),
       sr_provider = provider, sr_model = model, sr_cost_usd = cost, sr_input_tokens = i,
       sr_output_tokens = n, sr_recorded_at = stamp \<rparr>]"

definition audit_append :: "audit_record \<Rightarrow> audit_record list \<Rightarrow> audit_record list" where
  "audit_append r rows = rows @ [r]"

subsection \<open>Error windows that reset\<close>

record error_reset_stats =
  er_reset_seconds :: rat
  er_windows :: "string \<rightharpoonup> rat \<times> int \<times> int"

definition make_error_reset_stats :: "rat \<Rightarrow> error_reset_stats result" where
  "make_error_reset_stats seconds = (if seconds \<le> 0 then Inl ValueError
     else Inr \<lparr> er_reset_seconds = seconds, er_windows = Map.empty \<rparr>)"

definition active_window :: "string \<Rightarrow> rat \<Rightarrow> error_reset_stats \<Rightarrow> (rat \<times> int \<times> int) option \<times> error_reset_stats" where
  "active_window p now er = (case er_windows er p of
      None \<Rightarrow> (None, er)
    | Some w \<Rightarrow> if er_reset_seconds er \<le> fsub now (fst w)
        then (None, er\<lparr> er_windows := (er_windows er)(p := None) \<rparr>) else (Some w, er))"

definition er_observe :: "rat \<Rightarrow> string \<Rightarrow> bool \<Rightarrow> error_reset_stats \<Rightarrow> error_reset_stats" where
  "er_observe now p success er =
     (let (w, er') = active_window p now er;
          (started, attempts, errors) = (case w of None \<Rightarrow> (now, 0, 0) | Some w \<Rightarrow> w)
      in er'\<lparr> er_windows := (er_windows er')(p \<mapsto>
           (started, attempts + 1, errors + (if success then 0 else 1))) \<rparr>)"

definition er_error_rate :: "rat \<Rightarrow> string \<Rightarrow> error_reset_stats \<Rightarrow> rat \<times> error_reset_stats" where
  "er_error_rate now p er = (let (w, er') = active_window p now er in
     ((case w of None \<Rightarrow> 0 | Some (_, attempts, errors) \<Rightarrow> idiv errors attempts), er'))"

definition seconds_until_reset :: "rat \<Rightarrow> string \<Rightarrow> error_reset_stats \<Rightarrow> rat \<times> error_reset_stats" where
  "seconds_until_reset now p er = (let (w, er') = active_window p now er in
     ((case w of None \<Rightarrow> 0 | Some (started, _) \<Rightarrow> max 0 (fsub (er_reset_seconds er) (fsub now started))), er'))"

text \<open>A window has at least one attempt and no more errors than attempts, so its rate is a rate.\<close>

definition er_ok :: "error_reset_stats \<Rightarrow> bool" where
  "er_ok er \<longleftrightarrow> (\<forall>(t, attempts, errors) \<in> ran (er_windows er). 1 \<le> attempts \<and> 0 \<le> errors \<and> errors \<le> attempts)"

lemma active_window_ok:
  "er_ok er \<Longrightarrow> er_ok (snd (active_window p now er)) \<and>
    (case fst (active_window p now er) of None \<Rightarrow> True
     | Some (t, attempts, errors) \<Rightarrow> 1 \<le> attempts \<and> 0 \<le> errors \<and> errors \<le> attempts)"
  by (auto simp: active_window_def er_ok_def ran_def split: option.splits if_splits)

lemma er_observe_ok [inv_intros]:
  assumes "er_ok er" shows "er_ok (er_observe now p success er)"
proof -
  obtain w er' where w: "active_window p now er = (w, er')" by fastforce
  obtain t a e where tae: "(case w of None \<Rightarrow> (now, 0, 0) | Some w \<Rightarrow> w) = (t, a, e)" by (metis prod_cases3)
  have "er_ok er'" "0 \<le> a" "0 \<le> e" "e \<le> a"
    using active_window_ok [OF assms, of p now] w tae by (auto split: option.splits)
  then show ?thesis by (auto simp: er_observe_def w tae er_ok_def ran_def split: if_splits)
qed

lemma er_error_rate_bounds:
  "er_ok er \<Longrightarrow> 0 \<le> fst (er_error_rate now p er) \<and> fst (er_error_rate now p er) \<le> 1"
  using active_window_ok [of er p now]
  by (auto simp: er_error_rate_def idiv_def dbl.ratio_nonneg dbl.ratio_le_one split: prod.splits option.splits)

subsection \<open>Region recovery streaks\<close>

record hysteresis_stats =
  hy_recovery_streak :: "string \<rightharpoonup> int"
  hy_active_failover :: "string \<rightharpoonup> string"

definition norm_region :: "string \<Rightarrow> string" where "norm_region region = lower (strip region)"

definition recovery_streak :: "string \<Rightarrow> hysteresis_stats \<Rightarrow> int" where
  "recovery_streak region hy = (case hy_recovery_streak hy (norm_region region) of None \<Rightarrow> 0 | Some n \<Rightarrow> n)"

definition hy_record_success :: "string \<Rightarrow> hysteresis_stats \<Rightarrow> hysteresis_stats" where
  "hy_record_success region hy = hy\<lparr> hy_recovery_streak := (hy_recovery_streak hy)(norm_region region \<mapsto>
     (case hy_recovery_streak hy (norm_region region) of None \<Rightarrow> 0 | Some n \<Rightarrow> n) + 1) \<rparr>"

definition hy_record_failure :: "string \<Rightarrow> hysteresis_stats \<Rightarrow> hysteresis_stats" where
  "hy_record_failure region hy = hy\<lparr> hy_recovery_streak := (hy_recovery_streak hy)(norm_region region \<mapsto> 0) \<rparr>"

definition active_failover_region :: "string \<Rightarrow> hysteresis_stats \<Rightarrow> string option" where
  "active_failover_region session hy = hy_active_failover hy session"

definition set_failover :: "string \<Rightarrow> string \<Rightarrow> hysteresis_stats \<Rightarrow> hysteresis_stats" where
  "set_failover session region hy = hy\<lparr> hy_active_failover := (hy_active_failover hy)(session \<mapsto> norm_region region) \<rparr>"

definition clear_failover :: "string \<Rightarrow> hysteresis_stats \<Rightarrow> hysteresis_stats" where
  "clear_failover session hy = hy\<lparr> hy_active_failover := (hy_active_failover hy)(session := None) \<rparr>"

subsection \<open>Tenant spend windows\<close>

record cascade_stats =
  tc_window_seconds :: rat
  tc_observations :: "string \<rightharpoonup> (rat \<times> rat) list"

definition make_cascade_stats :: "rat \<Rightarrow> cascade_stats result" where
  "make_cascade_stats seconds = (if seconds \<le> 0 then Inl ValueError
     else Inr \<lparr> tc_window_seconds = seconds, tc_observations = Map.empty \<rparr>)"

definition tc_trim :: "string \<Rightarrow> rat \<Rightarrow> cascade_stats \<Rightarrow> cascade_stats" where
  "tc_trim tenant now tc = tc\<lparr> tc_observations := (tc_observations tc)(tenant \<mapsto>
     filter (\<lambda>(t, _). fsub now (tc_window_seconds tc) \<le> t) (get_list (tc_observations tc) tenant)) \<rparr>"

definition tc_record_spend :: "rat \<Rightarrow> string \<Rightarrow> rat \<Rightarrow> cascade_stats \<Rightarrow> unit result \<times> cascade_stats" where
  "tc_record_spend now tenant amount tc =
     (if amount < 0 then (Inl ValueError, tc)
      else let tc' = tc_trim tenant now tc in
        (Inr (), tc'\<lparr> tc_observations := (tc_observations tc')(tenant \<mapsto>
           get_list (tc_observations tc') tenant @ [(now, amount)]) \<rparr>))"

definition tc_spend :: "rat \<Rightarrow> string \<Rightarrow> cascade_stats \<Rightarrow> rat \<times> cascade_stats" where
  "tc_spend now tenant tc = (let tc' = tc_trim tenant now tc in
     (fsum (map snd (get_list (tc_observations tc') tenant)), tc'))"

end
