(* ===== verification/Token_Bucket.thy ===== *)
theory Token_Bucket
  imports Schemas
begin

text \<open>
  The token buckets of the program: \<open>TokenBucketRateLimiter\<close> (\<open>src/safety/rate_limiter.py\<close>, keyed by
  API key), \<open>TenantRateLimiter\<close> (\<open>src/safety/tenant_rate_limiter.py\<close>), and the two statistics of
  \<open>src/router/strategies.py\<close> (\<open>TokenBucketStats\<close> per provider, \<open>TenantTokenBucketStats\<close> per tenant).
  Each keeps a dict of buckets; a bucket is refilled when it is read. The locale \<open>keyed_buckets\<close>
  states what all of them promise: taking a token acts on the bucket of its key only, by the
  common step \<open>spend_step\<close>. Isolation of the keys and the bound on the number of admitted
  requests are proved once in it. The current instant is an argument of each operation.
\<close>

subsection \<open>One bucket\<close>

record bucket =
  bk_tokens :: rat
  bk_updated_at :: rat

definition credit :: "rat \<Rightarrow> rat \<Rightarrow> bucket \<Rightarrow> rat" where
  "credit rate now b = fmul (max 0 (fsub now (bk_updated_at b))) rate"

definition refill_bucket :: "rat \<Rightarrow> rat \<Rightarrow> rat \<Rightarrow> bucket \<Rightarrow> bucket" where
  "refill_bucket cap rate now b =
     b\<lparr> bk_tokens := min cap (fadd (bk_tokens b) (credit rate now b)), bk_updated_at := now \<rparr>"

subsection \<open>The rate limiter per API key\<close>

record rate_limiter =
  rl_capacity :: int
  rl_refill_per_second :: rat
  rl_buckets :: "string \<rightharpoonup> bucket"

definition rl_cap :: "rate_limiter \<Rightarrow> rat" where
  "rl_cap rl = fint (rl_capacity rl)"

definition assert_allowed :: "rat \<Rightarrow> string \<Rightarrow> int \<Rightarrow> rate_limiter \<Rightarrow> unit result \<times> rate_limiter" where
  "assert_allowed now key tokens rl =
     (let b0 = (case rl_buckets rl key of None \<Rightarrow> \<lparr> bk_tokens = rl_cap rl, bk_updated_at = now \<rparr>
                                        | Some b \<Rightarrow> b);
          b1 = refill_bucket (rl_cap rl) (rl_refill_per_second rl) now b0
      in if bk_tokens b1 < of_int tokens
         then (Inl (RateLimitExceededError key), rl\<lparr> rl_buckets := (rl_buckets rl)(key \<mapsto> b1) \<rparr>)
         else (Inr (), rl\<lparr> rl_buckets := (rl_buckets rl)(key \<mapsto>
                 b1\<lparr> bk_tokens := fsub (bk_tokens b1) (fint tokens) \<rparr>) \<rparr>))"

subsection \<open>The hard limiter per tenant\<close>

record tenant_limiter =
  tl_capacity :: int
  tl_refill_per_second :: rat
  tl_buckets :: "string \<rightharpoonup> bucket"

definition make_tenant_limiter :: "int \<Rightarrow> rat \<Rightarrow> tenant_limiter result" where
  "make_tenant_limiter capacity refill =
     (if capacity \<le> 0 then Inl ValueError
      else if refill \<le> 0 then Inl ValueError
      else Inr \<lparr> tl_capacity = capacity, tl_refill_per_second = refill, tl_buckets = Map.empty \<rparr>)"

definition tl_refill_locked :: "string \<Rightarrow> rat \<Rightarrow> tenant_limiter \<Rightarrow> bucket" where
  "tl_refill_locked tenant now lm =
     refill_bucket (fint (tl_capacity lm)) (tl_refill_per_second lm) now
       (case tl_buckets lm tenant of
          None \<Rightarrow> \<lparr> bk_tokens = fint (tl_capacity lm), bk_updated_at = now \<rparr> | Some b \<Rightarrow> b)"

definition tl_assert_allowed ::
  "rat \<Rightarrow> string \<Rightarrow> int \<Rightarrow> tenant_limiter \<Rightarrow> unit result \<times> tenant_limiter" where
  "tl_assert_allowed now tenant tokens lm =
     (if tenant = [] then (Inl ValueError, lm)
      else if tokens \<le> 0 then (Inl ValueError, lm)
      else let b = tl_refill_locked tenant now lm
        in if bk_tokens b < of_int tokens
           then (Inl (TenantRateLimitExceededError tenant), lm\<lparr> tl_buckets := (tl_buckets lm)(tenant \<mapsto> b) \<rparr>)
           else (Inr (), lm\<lparr> tl_buckets := (tl_buckets lm)(tenant \<mapsto>
                   b\<lparr> bk_tokens := fsub (bk_tokens b) (fint tokens) \<rparr>) \<rparr>))"

definition tl_remaining :: "rat \<Rightarrow> string \<Rightarrow> tenant_limiter \<Rightarrow> rat result \<times> tenant_limiter" where
  "tl_remaining now tenant lm =
     (if tenant = [] then (Inl ValueError, lm)
      else let b = tl_refill_locked tenant now lm
        in (Inr (bk_tokens b), lm\<lparr> tl_buckets := (tl_buckets lm)(tenant \<mapsto> b) \<rparr>))"

subsection \<open>The provider buckets of token-bucket-burst routing\<close>

record token_bucket_stats =
  tb_capacity :: int
  tb_refill_per_second :: rat
  tb_buckets :: "string \<rightharpoonup> bucket"

definition make_token_bucket_stats :: "int \<Rightarrow> rat \<Rightarrow> token_bucket_stats result" where
  "make_token_bucket_stats capacity refill =
     (if capacity < 1 then Inl ValueError
      else if refill \<le> 0 then Inl ValueError
      else Inr \<lparr> tb_capacity = capacity, tb_refill_per_second = refill, tb_buckets = Map.empty \<rparr>)"

definition tb_cap :: "token_bucket_stats \<Rightarrow> rat" where
  "tb_cap tb = fint (tb_capacity tb)"

definition tb_refill :: "rat \<Rightarrow> string \<Rightarrow> token_bucket_stats \<Rightarrow> rat \<times> token_bucket_stats" where
  "tb_refill now provider tb =
     (let b = refill_bucket (tb_cap tb) (tb_refill_per_second tb) now
            (case tb_buckets tb provider of
               None \<Rightarrow> \<lparr> bk_tokens = tb_cap tb, bk_updated_at = now \<rparr> | Some b \<Rightarrow> b)
      in (bk_tokens b, tb\<lparr> tb_buckets := (tb_buckets tb)(provider \<mapsto> b) \<rparr>))"

definition tb_available_tokens :: "rat \<Rightarrow> string \<Rightarrow> token_bucket_stats \<Rightarrow> rat \<times> token_bucket_stats" where
  "tb_available_tokens now provider tb = tb_refill now provider tb"

definition tb_remaining_fraction :: "rat \<Rightarrow> string \<Rightarrow> token_bucket_stats \<Rightarrow> rat \<times> token_bucket_stats" where
  "tb_remaining_fraction now provider tb =
     (let (available, tb') = tb_available_tokens now provider tb in (fdiv available (tb_cap tb), tb'))"

definition tb_consume :: "rat \<Rightarrow> string \<Rightarrow> int \<Rightarrow> token_bucket_stats \<Rightarrow> token_bucket_stats" where
  "tb_consume now provider tokens tb =
     (let (available, tb') = tb_refill now provider tb
      in (case tb_buckets tb' provider of
            None \<Rightarrow> tb'
          | Some b \<Rightarrow> tb'\<lparr> tb_buckets := (tb_buckets tb')(provider \<mapsto>
              b\<lparr> bk_tokens := max 0 (fsub available (fint tokens)) \<rparr>) \<rparr>))"

subsection \<open>The tenant buckets of token-bucket-tenant routing\<close>

record tenant_bucket_stats =
  tt_rate_per_second :: rat
  tt_buckets :: "string \<rightharpoonup> bucket"

definition make_tenant_bucket_stats :: "rat \<Rightarrow> tenant_bucket_stats result" where
  "make_tenant_bucket_stats rate =
     (if rate \<le> 0 then Inl ValueError
      else Inr \<lparr> tt_rate_per_second = rate, tt_buckets = Map.empty \<rparr>)"

definition tt_capacity :: "tenant_bucket_stats \<Rightarrow> rat" where
  "tt_capacity tt = max 1 (tt_rate_per_second tt)"

definition tt_refill :: "rat \<Rightarrow> string \<Rightarrow> tenant_bucket_stats \<Rightarrow> rat \<times> tenant_bucket_stats" where
  "tt_refill now tenant tt =
     (case tt_buckets tt tenant of
        None \<Rightarrow> (tt_capacity tt, tt\<lparr> tt_buckets := (tt_buckets tt)(tenant \<mapsto>
                  \<lparr> bk_tokens = tt_capacity tt, bk_updated_at = now \<rparr>) \<rparr>)
      | Some b0 \<Rightarrow> (let b = refill_bucket (tt_capacity tt) (tt_rate_per_second tt) now b0
                   in (bk_tokens b, tt\<lparr> tt_buckets := (tt_buckets tt)(tenant \<mapsto> b) \<rparr>)))"

definition tt_available_tokens :: "rat \<Rightarrow> string \<Rightarrow> tenant_bucket_stats \<Rightarrow> rat \<times> tenant_bucket_stats" where
  "tt_available_tokens now tenant tt = tt_refill now tenant tt"

definition tt_try_consume :: "rat \<Rightarrow> string \<Rightarrow> tenant_bucket_stats \<Rightarrow> bool \<times> tenant_bucket_stats" where
  "tt_try_consume now tenant tt =
     (let (available, tt') = tt_refill now tenant tt
      in if available < 1 then (False, tt')
         else (True, (case tt_buckets tt' tenant of
             None \<Rightarrow> tt'
           | Some b \<Rightarrow> tt'\<lparr> tt_buckets := (tt_buckets tt')(tenant \<mapsto>
               b\<lparr> bk_tokens := fsub available 1 \<rparr>) \<rparr>)))"

subsection \<open>The common contract\<close>

text \<open>The bucket a key's next request finds, after the refill, and what taking one token does to it.\<close>

definition refilled :: "rat \<times> rat \<Rightarrow> rat \<Rightarrow> bucket option \<Rightarrow> bucket" where
  "refilled cfg now b = (case b of
      None \<Rightarrow> \<lparr> bk_tokens = fst cfg, bk_updated_at = now \<rparr>
    | Some b0 \<Rightarrow> refill_bucket (fst cfg) (snd cfg) now b0)"

definition spend_step :: "rat \<times> rat \<Rightarrow> rat \<Rightarrow> bucket option \<Rightarrow> bool \<times> bucket" where
  "spend_step cfg now b = (let b1 = refilled cfg now b in
     if bk_tokens b1 < 1 then (False, b1) else (True, b1\<lparr> bk_tokens := fsub (bk_tokens b1) 1 \<rparr>))"

fun spend_run :: "rat \<times> rat \<Rightarrow> bucket option \<Rightarrow> rat list \<Rightarrow> bool list \<times> bucket option" where
  "spend_run cfg b [] = ([], b)"
| "spend_run cfg b (now # ts) =
     (let (ok, b') = spend_step cfg now b; (oks, b'') = spend_run cfg (Some b') ts in (ok # oks, b''))"

definition bucket_ok :: "rat \<Rightarrow> bucket \<Rightarrow> bool" where
  "bucket_ok cap b \<longleftrightarrow> 0 \<le> bk_tokens b \<and> bk_tokens b \<le> cap"

lemma credit_nonneg: "0 \<le> rate \<Longrightarrow> 0 \<le> credit rate now b"
  by (simp add: credit_def fmul_nonneg)

lemma refill_bucket_ok:
  "0 \<le> cap \<Longrightarrow> 0 \<le> rate \<Longrightarrow> bucket_ok cap b \<Longrightarrow> bucket_ok cap (refill_bucket cap rate now b)"
  by (auto simp: bucket_ok_def refill_bucket_def credit_nonneg intro!: fadd_nonneg)

lemma refilled_ok:
  "0 \<le> fst cfg \<Longrightarrow> 0 \<le> snd cfg \<Longrightarrow> pred_option (bucket_ok (fst cfg)) b \<Longrightarrow>
   bucket_ok (fst cfg) (refilled cfg now b)"
  by (cases b) (auto simp: refilled_def refill_bucket_ok, simp add: bucket_ok_def)

lemma spend_bucket_ok:
  assumes "fl cap = cap" "bucket_ok cap b" "1 \<le> bk_tokens b"
  shows "bucket_ok cap (b\<lparr> bk_tokens := fsub (bk_tokens b) 1 \<rparr>)"
  using assms by (auto simp: bucket_ok_def fsub_def intro!: dbl.nonneg dbl.capped)

lemma spend_step_ok:
  assumes "fl (fst cfg) = fst cfg" "0 \<le> fst cfg" "0 \<le> snd cfg" "pred_option (bucket_ok (fst cfg)) b"
  shows "bucket_ok (fst cfg) (snd (spend_step cfg now b))"
  using assms refilled_ok [of cfg b now]
  by (auto simp: spend_step_def Let_def spend_bucket_ok)

subsection \<open>How many requests one bucket admits\<close>

text \<open>
  \<open>admitted cfg b ts\<close> counts the requests of \<open>ts\<close> that find a token. Every step may round the
  refilled balance and the balance after the spend; one step gains at most \<open>C / 2 ^ 50\<close> by it.
\<close>

definition admitted :: "rat \<times> rat \<Rightarrow> bucket option \<Rightarrow> rat list \<Rightarrow> nat" where
  "admitted cfg b ts = length (filter id (fst (spend_run cfg b ts)))"

lemma admitted_simps [simp]:
  "admitted cfg b [] = 0"
  "admitted cfg b (now # ts) = (if fst (spend_step cfg now b) then 1 else 0) +
     admitted cfg (Some (snd (spend_step cfg now b))) ts"
  by (auto simp: admitted_def split: prod.splits)

text \<open>Half a unit in the last place, the largest subnormal error, and the two derived slacks.\<close>

definition half_ulp :: rat where "half_ulp = 1 / 2 ^ 53"
definition tiny :: rat where "tiny = 2 powi (- 1075)"
definition slope :: "rat \<Rightarrow> rat" where "slope rate = (1 + 1 / 2 ^ 51) * rate"
definition slack :: "rat \<Rightarrow> rat" where "slack C = C / 2 ^ 50"

lemma pow2_inverse: "(2::rat) powi (- numeral n) = 1 / 2 ^ numeral n"
  by (simp only: power_int_minus power_int_numeral divide_inverse mult_1)

lemma tiny_small: "0 < tiny" "tiny \<le> half_ulp"
proof -
  show "0 < tiny" by (simp only: tiny_def pow2_pos)
  have "tiny \<le> 2 powi (- 53)" unfolding tiny_def by (rule pow2_le) simp
  then show "tiny \<le> half_ulp" by (simp only: half_ulp_def pow2_inverse)
qed

lemma tiny_rate:
  assumes "rate \<le> 2 ^ 1000" shows "tiny * rate \<le> half_ulp / 4"
proof -
  have "tiny * rate \<le> tiny * 2 powi 1000"
    using assms tiny_small by (intro mult_left_mono) auto
  also have "\<dots> = 2 powi (- 75)" unfolding tiny_def by (simp only: pow2_add [symmetric]) simp
  also have "\<dots> \<le> 2 powi (- 55)" by (rule pow2_le) simp
  also have "\<dots> = half_ulp / 4" by (simp only: pow2_inverse half_ulp_def) simp
  finally show ?thesis .
qed

lemma half_ulp_small: "0 < half_ulp" "half_ulp \<le> 1"
  by (simp_all add: half_ulp_def)

lemma fl_le: "0 \<le> x \<Longrightarrow> fl x \<le> x + x * half_ulp + tiny"
  using fl_error [of x] unfolding half_ulp_def tiny_def by (simp only: times_divide_eq_right mult_1_right abs_of_nonneg)

lemma fl_upper:
  assumes "1 \<le> C" "0 \<le> x" "x \<le> C" shows "fl x \<le> x + 2 * (C * half_ulp)"
proof -
  have "x * half_ulp \<le> C * half_ulp" "half_ulp \<le> C * half_ulp"
    using assms half_ulp_small by simp_all
  then show ?thesis using fl_le [OF assms(2)] tiny_small by linarith
qed

lemma slack_eq: "slack C = 8 * (C * half_ulp)"
  by (simp add: slack_def half_ulp_def)

lemma slope_eq: "slope rate = (1 + 4 * half_ulp) * rate"
  by (simp add: slope_def half_ulp_def)

lemma refill_bound:
  assumes "1 \<le> C" "0 \<le> rate" "bucket_ok C b"
  shows "bk_tokens (refill_bucket C rate now b) \<le> bk_tokens b + credit rate now b + 2 * (C * half_ulp)"
proof (cases "bk_tokens b + credit rate now b \<le> C")
  case True
  then have "fl (bk_tokens b + credit rate now b) \<le> bk_tokens b + credit rate now b + 2 * (C * half_ulp)"
    using assms credit_nonneg [of rate now b] by (intro fl_upper) (auto simp: bucket_ok_def)
  then show ?thesis by (simp add: refill_bucket_def fadd_def min_def)
next
  case False
  moreover have "0 \<le> C * half_ulp" using assms(1) half_ulp_small by simp
  ultimately show ?thesis by (simp add: refill_bucket_def min_def)
qed

lemma spend_bound:
  assumes "1 \<le> C" "bucket_ok C b" "1 \<le> bk_tokens b"
  shows "fsub (bk_tokens b) 1 + 1 \<le> bk_tokens b + 2 * (C * half_ulp)"
  using fl_upper [of C "bk_tokens b - 1"] assms by (simp add: fsub_def bucket_ok_def)

lemma credit_bound:
  assumes "0 \<le> rate" "rate \<le> 2 ^ 1000" "bk_updated_at b \<le> now"
  shows "credit rate now b \<le> slope rate * (now - bk_updated_at b) + 2 * half_ulp"
proof -
  define d where "d = now - bk_updated_at b"
  have d: "0 \<le> d" using assms by (simp add: d_def)
  have fd0: "0 \<le> fl d" using d by (rule dbl.nonneg)
  have "fl d * rate \<le> (d + d * half_ulp + tiny) * rate"
    using fl_le [OF d] assms(1) by (rule mult_right_mono)
  also have "\<dots> = (d * rate) + (d * rate) * half_ulp + tiny * rate" by (simp add: algebra_simps)
  finally have 1: "fl d * rate \<le> (d * rate) + (d * rate) * half_ulp + half_ulp / 4"
    using tiny_rate [OF assms(2)] by linarith
  then have "fl d * rate * half_ulp \<le> ((d * rate) + (d * rate) * half_ulp + half_ulp / 4) * half_ulp"
    using half_ulp_small by (intro mult_right_mono) auto
  also have "\<dots> = (d * rate) * half_ulp + ((d * rate) * half_ulp) * half_ulp + (half_ulp / 4) * half_ulp"
    by (simp add: algebra_simps)
  also have "\<dots> \<le> (d * rate) * half_ulp + ((d * rate) * half_ulp) * 1 + (half_ulp / 4) * 1"
    using half_ulp_small d assms(1) by (intro add_mono mult_left_mono) auto
  finally have 2: "fl d * rate * half_ulp \<le> 2 * ((d * rate) * half_ulp) + half_ulp / 4"
    by linarith
  have "fl (fl d * rate) \<le> fl d * rate + fl d * rate * half_ulp + tiny"
    using fd0 assms(1) by (intro fl_le) simp
  with 1 2 tiny_small half_ulp_small
  have "fl (fl d * rate) \<le> d * rate + 3 * ((d * rate) * half_ulp) + 2 * half_ulp" by linarith
  moreover have "0 \<le> (d * rate) * half_ulp" using d assms(1) half_ulp_small by simp
  ultimately have "fl (fl d * rate) \<le> d * rate + 4 * ((d * rate) * half_ulp) + 2 * half_ulp" by linarith
  also have "\<dots> = slope rate * d + 2 * half_ulp" by (simp add: slope_eq algebra_simps)
  finally show ?thesis using fd0 by (simp add: credit_def fmul_def fsub_def d_def)
qed

lemma spend_step_bound:
  assumes "1 \<le> C" "0 \<le> rate" "rate \<le> 2 ^ 1000" "bucket_ok C b" "bk_updated_at b \<le> now"
    and "spend_step (C, rate) now (Some b) = (ok, b')"
  shows "bk_tokens b' + of_bool ok \<le> bk_tokens b + slope rate * (now - bk_updated_at b) + slack C"
    "bk_updated_at b' = now"
proof -
  let ?b1 = "refill_bucket C rate now b"
  have ok1: "bucket_ok C ?b1" using assms by (intro refill_bucket_ok) auto
  have up: "bk_updated_at ?b1 = now" by (simp add: refill_bucket_def)
  have C: "half_ulp \<le> C * half_ulp" using assms(1) half_ulp_small by simp
  then have b1: "bk_tokens ?b1 \<le> bk_tokens b + slope rate * (now - bk_updated_at b) + 4 * (C * half_ulp)"
    using refill_bound [OF assms(1,2,4), of now] credit_bound [OF assms(2,3,5)] by linarith
  show "bk_updated_at b' = now" using assms(6) up
    by (auto simp: spend_step_def refilled_def Let_def split: if_splits)
  show "bk_tokens b' + of_bool ok \<le> bk_tokens b + slope rate * (now - bk_updated_at b) + slack C"
  proof (cases ok)
    case True
    with assms(6) have "1 \<le> bk_tokens ?b1" "bk_tokens b' = fsub (bk_tokens ?b1) 1"
      by (auto simp: spend_step_def refilled_def Let_def split: if_splits)
    with spend_bound [OF assms(1) ok1] b1
    have "bk_tokens b' + 1 \<le> bk_tokens b + slope rate * (now - bk_updated_at b) + 8 * (C * half_ulp)"
      using C half_ulp_small by linarith
    with True show ?thesis by (simp add: slack_eq)
  next
    case False
    with assms(6) have "b' = ?b1"
      by (auto simp: spend_step_def refilled_def Let_def split: if_splits)
    with b1 have "bk_tokens b' \<le> bk_tokens b + slope rate * (now - bk_updated_at b) + 8 * (C * half_ulp)"
      using C half_ulp_small \<open>b' = ?b1\<close> by (simp only:)
    with False show ?thesis by (simp add: slack_eq)
  qed
qed

lemma admitted_bound:
  assumes "1 \<le> C" "fl C = C" "0 \<le> rate" "rate \<le> 2 ^ 1000"
  shows "bucket_ok C b \<Longrightarrow> sorted (bk_updated_at b # ts) \<Longrightarrow>
    of_nat (admitted (C, rate) (Some b) ts) \<le>
      bk_tokens b + slope rate * (last (bk_updated_at b # ts) - bk_updated_at b)
      + of_nat (length ts) * slack C"
proof (induction ts arbitrary: b)
  case Nil
  then show ?case by (simp add: bucket_ok_def)
next
  case (Cons now ts)
  obtain ok b' where st: "spend_step (C, rate) now (Some b) = (ok, b')" by fastforce
  have le: "bk_updated_at b \<le> now" using Cons.prems by simp
  note sb = spend_step_bound [OF assms(1,3,4) Cons.prems(1) le st]
  have ok': "bucket_ok C b'"
    using spend_step_ok [of "(C, rate)" "Some b" now] assms Cons.prems st by simp
  have "sorted (bk_updated_at b' # ts)" using Cons.prems sb(2) by simp
  note IH = Cons.IH [OF ok' this, unfolded sb(2)]
  have "slope rate * (last (now # ts) - bk_updated_at b) =
      slope rate * (last (now # ts) - now) + slope rate * (now - bk_updated_at b)"
    by (simp add: right_diff_distrib)
  moreover have "of_nat (length (now # ts)) * slack C = slack C + of_nat (length ts) * slack C"
    by (simp add: algebra_simps)
  moreover have "of_nat (admitted (C, rate) (Some b) (now # ts)) =
      of_bool ok + (of_nat (admitted (C, rate) (Some b') ts) :: rat)" by (simp add: st)
  ultimately have "of_nat (admitted (C, rate) (Some b) (now # ts)) \<le>
      bk_tokens b + slope rate * (last (now # ts) - bk_updated_at b) + of_nat (length (now # ts)) * slack C"
    using IH sb(1) by linarith
  moreover have "last (bk_updated_at b # now # ts) = last (now # ts)" by simp
  ultimately show ?case by (simp only:)
qed

subsection \<open>A burst at one instant\<close>

lemma refill_same_instant:
  "0 \<le> k \<Longrightarrow> k \<le> c \<Longrightarrow> c < 2 ^ 53 \<Longrightarrow> bk_tokens b = of_int k \<Longrightarrow> bk_updated_at b = now \<Longrightarrow>
   refill_bucket (of_int c) rate now b = b"
  by (cases b) (simp add: refill_bucket_def credit_def fadd_def fsub_def fmul_def fl_of_int)

lemma spend_run_burst:
  assumes "c < 2 ^ 53"
  shows "0 \<le> k \<Longrightarrow> k \<le> c \<Longrightarrow> bk_tokens b = of_int k \<Longrightarrow> bk_updated_at b = now \<Longrightarrow>
    fst (spend_run (of_int c, rate) (Some b) (replicate n now)) =
      replicate (min (nat k) n) True @ replicate (n - nat k) False"
proof (induction n arbitrary: k b)
  case 0
  then show ?case by simp
next
  case (Suc n)
  note same = refill_same_instant [OF Suc.prems(1,2) assms Suc.prems(3,4), of rate]
  show ?case
  proof (cases "k = 0")
    case True
    then have "spend_step (of_int c, rate) now (Some b) = (False, b)"
      using same Suc.prems by (simp add: spend_step_def refilled_def)
    then show ?thesis using Suc.IH [of k b] Suc.prems True by (simp add: case_prod_beta)
  next
    case False
    let ?b = "b\<lparr> bk_tokens := of_int (k - 1) \<rparr>"
    have "fsub (of_int k) 1 = of_int (k - 1)"
      using fl_of_int [of "k - 1"] Suc.prems assms by (simp add: fsub_def)
    then have "spend_step (of_int c, rate) now (Some b) = (True, ?b)"
      using same Suc.prems False by (simp add: spend_step_def refilled_def)
    moreover have "nat k = Suc (nat (k - 1))" using Suc.prems False by simp
    ultimately show ?thesis using Suc.IH [of "k - 1" ?b] Suc.prems False by (simp add: case_prod_beta)
  qed
qed

lemma spend_run_burst_fresh:
  assumes "1 \<le> c" "c < 2 ^ 53"
  shows "fst (spend_run (of_int c, rate) None (replicate n now)) =
    replicate (min (nat c) n) True @ replicate (n - nat c) False"
proof (cases n)
  case (Suc m)
  have "fsub (of_int c) 1 = of_int (c - 1)"
    using fl_of_int [of "c - 1"] assms by (simp add: fsub_def)
  then have "spend_step (of_int c, rate) now None =
      (True, \<lparr> bk_tokens = of_int (c - 1), bk_updated_at = now \<rparr>)"
    using assms by (simp add: spend_step_def refilled_def)
  moreover have "nat c = Suc (nat (c - 1))" using assms by simp
  ultimately show ?thesis
    using spend_run_burst [OF assms(2), of "c - 1" _ now rate m] Suc assms by (simp add: case_prod_beta)
qed simp

subsection \<open>The contract of a keyed limiter\<close>

text \<open>
  \<open>take_token now k s\<close> is one request for key \<open>k\<close>: whether it is admitted, and the state after it.
  The provider promises that it is \<open>spend_step\<close> on the bucket of \<open>k\<close> and leaves every other
  bucket and the configuration alone.
\<close>

locale keyed_buckets =
  fixes cfg :: "'s \<Rightarrow> rat \<times> rat"
    and look :: "'s \<Rightarrow> string \<Rightarrow> bucket option"
    and take_token :: "rat \<Rightarrow> string \<Rightarrow> 's \<Rightarrow> bool \<times> 's"
    and valid :: "string \<Rightarrow> bool"
    and ok :: "'s \<Rightarrow> bool"
  assumes take_result: "ok s \<Longrightarrow> valid k \<Longrightarrow> fst (take_token now k s) = fst (spend_step (cfg s) now (look s k))"
    and take_own: "ok s \<Longrightarrow> valid k \<Longrightarrow>
      look (snd (take_token now k s)) k = Some (snd (spend_step (cfg s) now (look s k)))"
    and take_other: "k' \<noteq> k \<Longrightarrow> look (snd (take_token now k s)) k' = look s k'"
    and take_cfg: "cfg (snd (take_token now k s)) = cfg s"
    and take_ok: "ok s \<Longrightarrow> ok (snd (take_token now k s))"
    and cfg_fl: "ok s \<Longrightarrow> fl (fst (cfg s)) = fst (cfg s)"
begin

text \<open>A run of requests for any keys, in order, with the outcome of each.\<close>

fun run :: "'s \<Rightarrow> (rat \<times> string) list \<Rightarrow> (string \<times> bool) list" where
  "run s [] = []"
| "run s ((now, k) # cs) = (k, fst (take_token now k s)) # run (snd (take_token now k s)) cs"

definition outcomes :: "'s \<Rightarrow> (rat \<times> string) list \<Rightarrow> string \<Rightarrow> bool list" where
  "outcomes s cs k = map snd (filter (\<lambda>(k', _). k' = k) (run s cs))"

lemma outcomes_local:
  "ok s \<Longrightarrow> valid k \<Longrightarrow>
   outcomes s cs k = fst (spend_run (cfg s) (look s k) (map fst (filter (\<lambda>(_, k'). k' = k) cs)))"
proof (induction cs arbitrary: s)
  case Nil
  then show ?case by (simp add: outcomes_def)
next
  case (Cons c cs)
  obtain now k' where c: "c = (now, k')" by fastforce
  let ?s = "snd (take_token now k' s)"
  have IH: "outcomes ?s cs k =
      fst (spend_run (cfg s) (look ?s k) (map fst (filter (\<lambda>(_, k'). k' = k) cs)))"
    using Cons.IH [of ?s] Cons.prems take_ok by (simp add: take_cfg)
  show ?case
  proof (cases "k' = k")
    case True
    then have "outcomes s (c # cs) k = fst (take_token now k s) # outcomes ?s cs k"
      by (simp add: outcomes_def c)
    with IH True Cons.prems show ?thesis
      by (simp add: c take_result take_own split: prod.splits)
  next
    case False
    then have "outcomes s (c # cs) k = outcomes ?s cs k" by (simp add: outcomes_def c)
    with IH False show ?thesis by (simp add: c take_other)
  qed
qed

text \<open>What a key gets does not depend on the requests of the other keys.\<close>

lemma isolation:
  "ok s \<Longrightarrow> valid k \<Longrightarrow> outcomes s cs k = outcomes s (filter (\<lambda>(_, k'). k' = k) cs) k"
  by (simp add: outcomes_local)

text \<open>A key that had no bucket gets at most the capacity plus what the elapsed time refills.\<close>

lemma admission_bound:
  assumes s: "ok s" "valid k" "look s k = None"
    and cfg: "1 \<le> fst (cfg s)" "0 \<le> snd (cfg s)" "snd (cfg s) \<le> 2 ^ 1000"
    and ts: "map fst (filter (\<lambda>(_, k'). k' = k) cs) = t # ts" "sorted (t # ts)"
  shows "of_nat (length (filter id (outcomes s cs k))) \<le>
    fst (cfg s) + slope (snd (cfg s)) * (last (t # ts) - t)
    + of_nat (length (t # ts)) * slack (fst (cfg s))"
proof -
  let ?C = "fst (cfg s)" and ?r = "snd (cfg s)"
  have C: "fl ?C = ?C" using s by (simp add: cfg_fl)
  let ?b = "\<lparr>bk_tokens = fsub ?C 1, bk_updated_at = t\<rparr>"
  have st: "spend_step (cfg s) t None = (True, ?b)"
    using cfg(1) by (simp add: spend_step_def refilled_def)
  have b: "bucket_ok ?C ?b"
    using spend_step_ok [of "cfg s" None t] C cfg st by simp
  have "of_nat (length (filter id (outcomes s cs k))) = 1 + (of_nat (admitted (?C, ?r) (Some ?b) ts) :: rat)"
    using st by (simp add: outcomes_local s ts(1) admitted_def split: prod.splits)
  moreover have "of_nat (admitted (?C, ?r) (Some ?b) ts) \<le>
      fsub ?C 1 + slope ?r * (last (t # ts) - t) + of_nat (length ts) * slack ?C"
    using admitted_bound [OF cfg(1) C cfg(2,3) b, of ts] ts(2) by simp
  moreover have "1 + fsub ?C 1 \<le> ?C + slack ?C"
  proof -
    have "0 \<le> ?C * half_ulp" using cfg(1) half_ulp_small by simp
    with fl_upper [of ?C "?C - 1"] cfg(1) show ?thesis by (simp add: fsub_def slack_eq)
  qed
  moreover have "of_nat (length (t # ts)) * slack ?C = slack ?C + of_nat (length ts) * slack ?C"
    by (simp add: algebra_simps)
  ultimately show ?thesis by linarith
qed

text \<open>Requests of one instant: a fresh key gets exactly its capacity.\<close>

lemma burst:
  assumes s: "ok s" "valid k" "look s k = None"
    and cfg: "fst (cfg s) = of_int c" "1 \<le> c" "c < 2 ^ 53"
    and cs: "\<forall>(t, k') \<in> set cs. k' = k \<longrightarrow> t = now" "length (filter (\<lambda>(_, k'). k' = k) cs) = n"
  shows "outcomes s cs k = replicate (min (nat c) n) True @ replicate (n - nat c) False"
proof -
  have "map fst (filter (\<lambda>(_, k'). k' = k) cs) = replicate n now"
    by (rule replicate_eqI) (use cs in auto)
  moreover have "cfg s = (of_int c, snd (cfg s))" using cfg by (cases "cfg s") simp
  ultimately show ?thesis
    using spend_run_burst_fresh [OF cfg(2,3), of "snd (cfg s)" n now] s
    by (metis outcomes_local)
qed

end

subsection \<open>The limiters of the program keep the contract\<close>

definition rl_take :: "rat \<Rightarrow> string \<Rightarrow> rate_limiter \<Rightarrow> bool \<times> rate_limiter" where
  "rl_take now key rl = (let (r, rl') = assert_allowed now key 1 rl in (r = Inr (), rl'))"

definition tl_take :: "rat \<Rightarrow> string \<Rightarrow> tenant_limiter \<Rightarrow> bool \<times> tenant_limiter" where
  "tl_take now tenant lm = (let (r, lm') = tl_assert_allowed now tenant 1 lm in (r = Inr (), lm'))"

lemma fint_1 [simp]: "fint 1 = 1"
  by (simp add: fint_def)

lemma fl_fint [simp]: "fl (fint n) = fint n"
  by (simp add: fint_def)

lemma refill_fresh [simp]:
  "refill_bucket (fint n) rate now \<lparr> bk_tokens = fint n, bk_updated_at = now \<rparr> =
   \<lparr> bk_tokens = fint n, bk_updated_at = now \<rparr>"
  by (simp add: refill_bucket_def credit_def fadd_def fsub_def fmul_def)

interpretation rl: keyed_buckets "\<lambda>rl. (rl_cap rl, rl_refill_per_second rl)" rl_buckets rl_take
  "\<lambda>_. True" "\<lambda>_. True"
  by unfold_locales
     (auto simp: rl_take_def assert_allowed_def spend_step_def refilled_def Let_def rl_cap_def split: option.splits)

interpretation ten: keyed_buckets "\<lambda>lm. (fint (tl_capacity lm), tl_refill_per_second lm)" tl_buckets
  tl_take "\<lambda>k. k \<noteq> []" "\<lambda>_. True"
  by unfold_locales
     (auto simp: tl_take_def tl_assert_allowed_def tl_refill_locked_def spend_step_def refilled_def
        Let_def split: option.splits)

interpretation tts: keyed_buckets "\<lambda>tt. (tt_capacity tt, tt_rate_per_second tt)" tt_buckets
  tt_try_consume "\<lambda>_. True" "\<lambda>tt. fl (tt_rate_per_second tt) = tt_rate_per_second tt"
  by unfold_locales
     (auto simp: tt_try_consume_def tt_refill_def spend_step_def refilled_def Let_def
        tt_capacity_def refill_bucket_def max_def split: option.splits)

subsection \<open>Properties of the limiters\<close>

text \<open>A run of one-token requests \<open>(instant, key)\<close>, and the outcomes one key sees.\<close>

fun rl_run :: "rate_limiter \<Rightarrow> (rat \<times> string) list \<Rightarrow> (string \<times> bool) list" where
  "rl_run rl [] = []"
| "rl_run rl ((now, k) # cs) = (case assert_allowed now k 1 rl of (r, rl') \<Rightarrow> (k, r = Inr ()) # rl_run rl' cs)"

fun tl_run :: "tenant_limiter \<Rightarrow> (rat \<times> string) list \<Rightarrow> (string \<times> bool) list" where
  "tl_run lm [] = []"
| "tl_run lm ((now, k) # cs) = (case tl_assert_allowed now k 1 lm of (r, lm') \<Rightarrow> (k, r = Inr ()) # tl_run lm' cs)"

fun tt_run :: "tenant_bucket_stats \<Rightarrow> (rat \<times> string) list \<Rightarrow> (string \<times> bool) list" where
  "tt_run tt [] = []"
| "tt_run tt ((now, k) # cs) = (case tt_try_consume now k tt of (r, tt') \<Rightarrow> (k, r) # tt_run tt' cs)"

definition seen_by :: "string \<Rightarrow> (string \<times> bool) list \<Rightarrow> bool list" where
  "seen_by k rs = map snd (filter (\<lambda>(k', _). k' = k) rs)"

definition requests_of :: "string \<Rightarrow> (rat \<times> string) list \<Rightarrow> (rat \<times> string) list" where
  "requests_of k cs = filter (\<lambda>(_, k'). k' = k) cs"

lemma take_components:
  "fst (rl_take now key rl) = (fst (assert_allowed now key 1 rl) = Inr ())"
  "snd (rl_take now key rl) = snd (assert_allowed now key 1 rl)"
  "fst (tl_take now key lm) = (fst (tl_assert_allowed now key 1 lm) = Inr ())"
  "snd (tl_take now key lm) = snd (tl_assert_allowed now key 1 lm)"
  by (simp_all add: rl_take_def tl_take_def case_prod_beta)

lemma rl_run_eq: "rl_run rl cs = rl.run rl cs"
  by (induction rl cs rule: rl_run.induct) (auto simp: take_components split: prod.splits)

lemma tl_run_eq: "tl_run lm cs = ten.run lm cs"
  by (induction lm cs rule: tl_run.induct) (auto simp: take_components split: prod.splits)

lemma tt_run_eq: "tt_run tt cs = tts.run tt cs"
  by (induction tt cs rule: tt_run.induct) (auto split: prod.splits)

lemmas run_eqs = rl_run_eq tl_run_eq tt_run_eq seen_by_def requests_of_def

text \<open>
  C2. The API-key limiter admits exactly its capacity of a burst: whatever other keys do in
  between, \<open>n\<close> requests of a new key at one instant get \<open>min capacity n\<close> admissions first and
  RateLimitExceededError for all the rest.
\<close>

theorem rate_limiter_burst_exact:
  assumes "rl_buckets rl key = None" "1 \<le> rl_capacity rl" "rl_capacity rl < 2 ^ 53"
    and "\<forall>(t, k) \<in> set cs. k = key \<longrightarrow> t = now"
  shows "seen_by key (rl_run rl cs) =
    replicate (min (nat (rl_capacity rl)) (length (requests_of key cs))) True @
    replicate (length (requests_of key cs) - nat (rl_capacity rl)) False"
  using rl.burst [of rl key "rl_capacity rl" cs now, OF TrueI TrueI assms(1) _ assms(2,3,4) refl] assms
  by (simp add: rl.outcomes_def run_eqs rl_cap_def fint_def fl_of_int)

theorem rate_limiter_burst_exact_witness:
  "seen_by ''a'' (rl_run \<lparr> rl_capacity = 2, rl_refill_per_second = 1, rl_buckets = Map.empty \<rparr>
     [(5, ''a''), (5, ''b''), (5, ''a''), (5, ''a'')]) = [True, True, False]"
  by (subst rate_limiter_burst_exact [where now = 5])
     (auto simp: requests_of_def numeral_2_eq_2)

text \<open>
  C3. The hard tenant limiter bounds the admitted requests of a tenant by its capacity plus what
  the elapsed time refills, for any interleaving with other tenants and any non-decreasing clock:
  \<open>slope\<close> and \<open>slack\<close> are the refill rate and the per-request rounding slack of double arithmetic.
\<close>

theorem tenant_limiter_admission_bound:
  assumes "tenant \<noteq> []" "tl_buckets lm tenant = None"
    and "1 \<le> fint (tl_capacity lm)" "0 \<le> tl_refill_per_second lm" "tl_refill_per_second lm \<le> 2 ^ 1000"
    and "map fst (requests_of tenant cs) = t # ts" "sorted (t # ts)"
  shows "of_nat (length (filter id (seen_by tenant (tl_run lm cs)))) \<le>
    fint (tl_capacity lm) + slope (tl_refill_per_second lm) * (last (t # ts) - t)
    + of_nat (length (t # ts)) * slack (fint (tl_capacity lm))"
  using ten.admission_bound [of tenant lm cs t ts] TrueI assms
  by (simp only: ten.outcomes_def run_eqs fst_conv snd_conv simp_thms)

theorem tenant_limiter_admission_bound_witness:
  "length (filter id (seen_by ''t'' (tl_run \<lparr> tl_capacity = 1, tl_refill_per_second = 1, tl_buckets = Map.empty \<rparr>
     [(0, ''t''), (0, ''u''), (1/2, ''t'')]))) \<le> 1"
proof -
  let ?lm = "\<lparr> tl_capacity = 1, tl_refill_per_second = 1, tl_buckets = Map.empty \<rparr>"
  have "rat_of_nat (length (filter id (seen_by ''t'' (tl_run ?lm [(0, ''t''), (0, ''u''), (1/2, ''t'')])))) \<le>
    fint (tl_capacity ?lm) + slope (tl_refill_per_second ?lm) * (last [0, 1/2] - 0)
    + of_nat (length [0::rat, 1/2]) * slack (fint (tl_capacity ?lm))"
    by (rule tenant_limiter_admission_bound) (simp_all add: requests_of_def)
  also have "\<dots> < 2" by (simp add: slope_def slack_def)
  finally show ?thesis by simp
qed

text \<open>
  Tenants are isolated: what a tenant's requests get from the tenant buckets of
  token-bucket-tenant routing is what they would get with the requests of all other tenants removed.
\<close>

theorem tenant_bucket_isolation:
  assumes "fl (tt_rate_per_second tt) = tt_rate_per_second tt"
  shows "seen_by tenant (tt_run tt cs) = seen_by tenant (tt_run tt (requests_of tenant cs))"
  using tts.isolation [where s = tt and k = tenant and cs = cs] assms by (simp add: tts.outcomes_def run_eqs)

theorem tenant_bucket_isolation_witness:
  "seen_by ''t'' (tt_run \<lparr> tt_rate_per_second = 1, tt_buckets = Map.empty \<rparr>
     [(0, ''t''), (0, ''u''), (0, ''t'')]) =
   seen_by ''t'' (tt_run \<lparr> tt_rate_per_second = 1, tt_buckets = Map.empty \<rparr> [(0, ''t''), (0, ''t'')])"
  by (subst tenant_bucket_isolation) (simp_all add: requests_of_def)

end
