(* ===== verification/Strategies_Window.thy ===== *)
theory Strategies_Window
  imports Strategies_Load Guardrails Timed_Stats Token_Bucket
begin

text \<open>
  The strategies of \<open>src/router/strategies.py\<close> whose decision also changes the statistics it reads:
  spend, token and request windows prune themselves when read, buckets refill and are consumed, the
  fair-share and tier windows record the provider they chose, and the region hysteresis remembers a
  failover. A choice returns the statistics it leaves behind; all reads of one choice happen at one
  instant.
\<close>

subsection \<open>Reading while changing\<close>

text \<open>A list comprehension whose element expression reads (and prunes) the state, left to right\<close>

fun traverse :: "('a \<Rightarrow> 's \<Rightarrow> 'b \<times> 's) \<Rightarrow> 'a list \<Rightarrow> 's \<Rightarrow> 'b list \<times> 's" where
  "traverse f [] st = ([], st)"
| "traverse f (x # xs) st =
     (let (y, st1) = f x st; (ys, st2) = traverse f xs st1 in (y # ys, st2))"

definition where_true :: "'a list \<Rightarrow> bool list \<Rightarrow> 'a list" where
  "where_true xs flags = map fst (filter snd (zip xs flags))"

text \<open>The dict built by a comprehension over \<open>ks\<close>: of equal keys the last one stays.\<close>

definition dict_of :: "'k list \<Rightarrow> 'v list \<Rightarrow> 'k \<Rightarrow> 'v::zero" where
  "dict_of ks vs k = (case map_of (rev (zip ks vs)) k of Some v \<Rightarrow> v | None \<Rightarrow> 0)"

lemma length_traverse [simp]: "length (fst (traverse f xs st)) = length xs"
  by (induction xs arbitrary: st) (simp_all add: case_prod_beta)

lemma where_true_sub: "set (where_true xs flags) \<subseteq> set xs"
  by (auto simp: where_true_def dest: set_zip_leftD)

text \<open>The contract of a strategy that changes its statistics\<close>

locale stateful_strategy =
  fixes pick :: "catalog \<Rightarrow> router_request \<Rightarrow> task_signals \<Rightarrow> 's \<Rightarrow> routing_decision result \<times> 's"
  assumes chosen: "wf_catalog cat \<Longrightarrow> pick cat r s st = (Inr d, st') \<Longrightarrow> decision_ok cat d"
begin

lemma at_state: "routing_strategy (\<lambda>cat r s. fst (pick cat r s st))"
  by unfold_locales (metis chosen prod.collapse)

end

locale total_stateful_strategy = stateful_strategy +
  assumes total: "wf_catalog cat \<Longrightarrow> \<exists>d. fst (pick cat r s st) = Inr d"
begin

lemma decides: "wf_catalog cat \<Longrightarrow> \<exists>d st'. pick cat r s st = (Inr d, st') \<and> decision_ok cat d"
  using total [of cat r s st] by (metis chosen prod.collapse)

end

subsection \<open>Spend windows\<close>

definition make_soft_family_budget :: "rat \<Rightarrow> rat result" where
  "make_soft_family_budget budget = (if budget < 0 then Inl ValueError else Inr budget)"

definition soft_family_budget_choose :: "rat \<Rightarrow> rat \<Rightarrow> catalog \<Rightarrow> router_request \<Rightarrow> task_signals \<Rightarrow> rat entry_window \<Rightarrow>
    routing_decision result \<times> rat entry_window" where
  "soft_family_budget_choose now budget cat r s fw =
     (let cs = eligible cat s;
          (over, fw1) = traverse (\<lambda>c. fam_is_over_budget now (mc_provider c) budget) cs fw;
          under = where_true cs (map Not over)
      in if under \<noteq> []
         then (case max_by (quality_key r s) under of
             None \<Rightarrow> (Inl ValueError, fw1)
           | Some c \<Rightarrow> (let (spend, fw2) = family_spend now (mc_provider c) fw1 in
               (decision ''soft-family-budget'' cat (mc_model c)
                 [Lit ''soft-family-budget selected '', Str (mc_provider c), Lit '' family under $'', Fixed 4 budget,
                  Lit '' soft budget (rolling spend $'', Fixed 6 spend, Lit '', quality '', Fixed 2 (mc_quality_score c), Lit '')''],
                fw2)))
         else (case max_by (quality_key r s) cs of
             None \<Rightarrow> (Inl ValueError, fw1)
           | Some primary \<Rightarrow> (pick_by ''soft-family-budget'' cat
               (min_by (\<lambda>c. (cost_of r s c, - mc_quality_score c))
                 (or_else (filter (\<lambda>c. mc_provider c \<noteq> mc_provider primary) cs) cs))
               (\<lambda>c. [Lit ''soft-family-budget deprioritized over-budget families (including '', Str (mc_provider primary),
                 Lit ''); fell back to cheapest other family '', Str (mc_provider c), Lit ''/'', Str (mc_model c),
                 Lit '' (est $'', Fixed 6 (cost_of r s c), Lit '')'']), fw1)))"

definition make_hourly_ceiling :: "rat \<Rightarrow> rat result" where
  "make_hourly_ceiling usd = (if usd < 0 then Inl ValueError else Inr usd)"

definition hourly_ceiling_choose :: "rat \<Rightarrow> rat \<Rightarrow> catalog \<Rightarrow> router_request \<Rightarrow> task_signals \<Rightarrow> rat entry_window \<Rightarrow>
    routing_decision result \<times> rat entry_window" where
  "hourly_ceiling_choose now usd cat r s hw =
     (let cs = eligible cat s;
          (over, hw1) = traverse (\<lambda>c. is_over_ceiling now (mc_provider c) usd) cs hw;
          under = where_true cs (map Not over)
      in if under \<noteq> []
         then (case max_by (quality_model_key r s) under of
             None \<Rightarrow> (Inl ValueError, hw1)
           | Some c \<Rightarrow> (let (spend, hw2) = provider_spend now (mc_provider c) hw1 in
               (decision ''provider-hourly-cost-ceiling'' cat (mc_model c)
                 [Lit ''provider-hourly-cost-ceiling selected '', Str (mc_provider c), Lit ''/'', Str (mc_model c),
                  Lit '' quality '', Fixed 2 (mc_quality_score c), Lit '' under $'', Fixed 4 usd,
                  Lit ''/hr ceiling (rolling est $'', Fixed 6 spend, Lit '')''], hw2)))
         else (pick_by ''provider-hourly-cost-ceiling'' cat
             (min_by (\<lambda>c. (cost_of r s c, - mc_quality_score c, mc_model c)) cs)
             (\<lambda>c. [Lit ''provider-hourly-cost-ceiling every provider over $'', Fixed 4 usd,
               Lit ''/hr ceiling; fell back to cheapest '', Str (mc_provider c), Lit ''/'', Str (mc_model c), Lit '' (est $'',
               Fixed 6 (cost_of r s c), Lit '')'']), hw1))"

subsection \<open>Token windows\<close>

definition make_token_rpm_ceiling :: "int \<Rightarrow> int result" where
  "make_token_rpm_ceiling n = (if n < 1 then Inl ValueError else Inr n)"

definition token_rpm_choose :: "rat \<Rightarrow> int \<Rightarrow> catalog \<Rightarrow> router_request \<Rightarrow> task_signals \<Rightarrow> int entry_window \<Rightarrow>
    routing_decision result \<times> int entry_window" where
  "token_rpm_choose now most cat r s tw =
     (let cs = eligible cat s;
          prompt_tokens = ts_prompt_tokens_estimate s;
          (used, tw1) = traverse (\<lambda>c. provider_tokens now (mc_provider c)) cs tw;
          projected = (\<lambda>c. dict_of (map mc_model cs) (map (\<lambda>u. u + prompt_tokens) used) (mc_model c));
          (exceeding, tw2) = traverse (\<lambda>c. would_exceed now (mc_provider c) prompt_tokens most) cs tw1;
          under = where_true cs (map Not exceeding);
          key = (\<lambda>c. (most < projected c, - mc_quality_score c, projected c, cost_of r s c, mc_model c))
      in (if under \<noteq> []
          then pick_rest ''token-rpm-ceiling'' cs (max_by (quality_model_key r s) under)
            (\<lambda>c. [Lit ''token-rpm-ceiling selected '', Str (mc_provider c), Lit ''/'', Str (mc_model c), Lit '' with projected '',
              IntF (projected c), Lit ''/'', IntF most, Lit '' prompt tokens in the rolling 60s window'']) key
          else pick_rest ''token-rpm-ceiling'' cs
            (min_by (\<lambda>c. (projected c, - mc_quality_score c, cost_of r s c, mc_model c)) cs)
            (\<lambda>c. [Lit ''token-rpm-ceiling found every eligible provider over projected ceiling '', IntF most,
              Lit ''; fell back to least-loaded '', Str (mc_provider c), Lit ''/'', Str (mc_model c), Lit '' at '',
              IntF (projected c), Lit '' projected prompt tokens'']) key,
          tw2))"

definition remaining_quota :: "rat \<Rightarrow> int \<Rightarrow> int \<Rightarrow> string \<Rightarrow> int entry_window \<Rightarrow> int \<times> int entry_window" where
  "remaining_quota now most prompt_tokens provider tw =
     (let (used, tw') = provider_tokens now provider tw in (max 0 (most - used - prompt_tokens), tw'))"

text \<open>The loop of \<open>_weighted_provider\<close> over the providers sorted by name; None when it runs through\<close>

fun weighted_pick :: "int \<Rightarrow> int \<Rightarrow> (string \<times> int) list \<Rightarrow> string option" where
  "weighted_pick bucket cumulative [] = None"
| "weighted_pick bucket cumulative ((p, w) # ps) =
     (if bucket < cumulative + w then Some p else weighted_pick bucket (cumulative + w) ps)"

definition weighted_provider :: "router_request \<Rightarrow> string list \<Rightarrow> (string \<Rightarrow> int) \<Rightarrow> string result" where
  "weighted_provider r providers remaining =
     (let weighted = map (\<lambda>p. (p, remaining p)) (filter (\<lambda>p. 0 < remaining p) providers);
          bucket = hash32 (rq_request_id r) mod sum_list (map snd weighted)
      in if weighted = [] then of_opt ValueError (min_by (\<lambda>p. (remaining p, p)) providers)
         else case weighted_pick bucket 0 (sorted_by fst weighted) of
             Some p \<Rightarrow> Inr p
           | None \<Rightarrow> Inr (fst (last weighted)))"

definition make_token_fair_share :: "int \<Rightarrow> int result" where
  "make_token_fair_share n = (if n < 1 then Inl ValueError else Inr n)"

definition token_fair_share_choose :: "rat \<Rightarrow> int \<Rightarrow> catalog \<Rightarrow> router_request \<Rightarrow> task_signals \<Rightarrow> int entry_window \<Rightarrow>
    routing_decision result \<times> int entry_window" where
  "token_fair_share_choose now most cat r s tw =
     (let cs = eligible cat s;
          providers = sorted_list_of_set (mc_provider ` set cs);
          (rs, tw1) = traverse (remaining_quota now most (ts_prompt_tokens_estimate s)) providers tw;
          remaining = dict_of providers rs;
          (us, tw2) = traverse (provider_tokens now) providers tw1;
          used = dict_of providers us;
          positive = filter (\<lambda>p. 0 < remaining p) providers;
          most_left = Max (set (map remaining positive));
          tied = filter (\<lambda>p. remaining p = most_left) positive;
          cold_start = list_all (\<lambda>p. used p = 0) providers;
          best_quality = (\<lambda>p. Max (mc_quality_score ` set (filter (\<lambda>c. mc_provider c = p) cs)));
          outright = (cold_start \<or> length tied = 1);
          key = (\<lambda>c. (remaining (mc_provider c) \<le> 0, - remaining (mc_provider c), used (mc_provider c),
            - mc_quality_score c, cost_of r s c, mc_model c))
      in (if positive \<noteq> []
          then bind_result (if outright then of_opt ValueError (max_by best_quality tied) else weighted_provider r tied remaining)
            (\<lambda>p. pick_rest ''provider-token-fair-share'' cs
              (max_by (quality_model_key r s) (filter (\<lambda>c. mc_provider c = p) cs))
              (\<lambda>c. [Lit ''provider-token-fair-share selected '', Str (mc_provider c), Lit ''/'', Str (mc_model c), Lit '' with '',
                Lit (if outright then ''highest remaining quota '' else ''round-robin weighted tie on remaining quota ''),
                IntF most_left, Lit ''/'', IntF most, Lit ''; used '', IntF (used p), Lit ''/'', IntF most,
                Lit '' prompt tokens in rolling window'']) key)
          else pick_rest ''provider-token-fair-share'' cs
            (min_by (\<lambda>c. (used (mc_provider c), - mc_quality_score c, cost_of r s c, mc_model c)) cs)
            (\<lambda>c. [Lit ''provider-token-fair-share found every eligible provider over fair-share ceiling '', IntF most,
              Lit ''; fell back to least-loaded '', Str (mc_provider c), Lit ''/'', Str (mc_model c), Lit '' at '',
              IntF (used (mc_provider c)), Lit '' used prompt tokens'']) key,
          tw2))"

subsection \<open>Buckets\<close>

definition token_bucket_burst_choose :: "rat \<Rightarrow> catalog \<Rightarrow> router_request \<Rightarrow> task_signals \<Rightarrow> token_bucket_stats \<Rightarrow>
    routing_decision result \<times> token_bucket_stats" where
  "token_bucket_burst_choose now cat r s tb =
     (let cs = eligible cat s;
          (tokens, tb1) = traverse (\<lambda>c. tb_available_tokens now (mc_provider c)) cs tb;
          with_tokens = where_true cs (map (\<lambda>t. 1 \<le> t) tokens);
          (fractions, tb2) = (if with_tokens \<noteq> [] then ([], tb1)
            else traverse (\<lambda>c. tb_remaining_fraction now (mc_provider c)) cs tb1)
      in (case (if with_tokens \<noteq> [] then max_by (quality_model_key r s) with_tokens
            else map_option fst (max_by (\<lambda>(c, f). (f, - cost_of r s c, mc_quality_score c, mc_model c)) (zip cs fractions))) of
          None \<Rightarrow> (Inl ValueError, tb2)
        | Some c \<Rightarrow>
            (let (x, tb3) = (if with_tokens \<noteq> [] then tb_available_tokens now (mc_provider c) tb2
                   else tb_remaining_fraction now (mc_provider c) tb2);
                 rationale = (if with_tokens \<noteq> []
                   then [Lit ''token-bucket-burst selected provider '', Str (mc_provider c), Lit '' with '', Fixed 1 x, Lit ''/'',
                     Fixed 0 (tb_cap tb3), Lit '' tokens; picked highest-quality eligible model '', Str (mc_model c),
                     Lit '' (quality '', Fixed 2 (mc_quality_score c), Lit '')'']
                   else [Lit ''token-bucket-burst found every eligible provider bucket empty; routed to highest remaining fraction '',
                     Percent 2 x, Lit '' ('', Str (mc_provider c), Lit '') with lowest cost $'', Fixed 6 (cost_of r s c)]);
                 tb4 = tb_consume now (mc_provider c) 1 tb3;
                 rest = without (mc_model c) cs;
                 (keys, tb5) = traverse (\<lambda>k st. let (a, st1) = tb_available_tokens now (mc_provider k) st;
                     (f, st2) = tb_remaining_fraction now (mc_provider k) st1
                   in ((a < 1, - f, - mc_quality_score k, cost_of r s k, mc_model k), st2)) rest tb4
             in (Inr (decide ''token-bucket-burst'' c rationale (map fst (sorted_by snd (zip rest keys)))), tb5))))"

definition token_bucket_tenant_choose :: "rat \<Rightarrow> catalog \<Rightarrow> router_request \<Rightarrow> task_signals \<Rightarrow> tenant_bucket_stats \<Rightarrow>
    routing_decision result \<times> tenant_bucket_stats" where
  "token_bucket_tenant_choose now cat r s tt =
     (let tenant = tenant_scope r;
          cs = eligible cat s;
          (within_budget, tt1) = tt_try_consume now tenant tt;
          quoted = [Lit [CHR 0x27], Str tenant, Lit [CHR 0x27]]
      in if within_budget
         then (let (left_over, tt2) = tt_available_tokens now tenant tt1 in
           (pick_rest ''token-bucket-tenant'' cs (max_by (quality_model_key r s) cs)
             (\<lambda>c. [Lit ''token-bucket-tenant tenant ''] @ quoted @ [Lit '' within budget; selected highest-quality '',
               Str (mc_model c), Lit '' with '', Fixed 2 left_over, Lit ''/'', Fixed 2 (tt_capacity tt2),
               Lit '' request tokens remaining''])
             (\<lambda>c. (- mc_quality_score c, cost_of r s c, mc_model c)), tt2))
         else (pick_rest ''token-bucket-tenant'' cs (min_by (\<lambda>c. (cost_of r s c, - mc_quality_score c, mc_model c)) cs)
             (\<lambda>c. [Lit ''token-bucket-tenant tenant ''] @ quoted @ [Lit '' over '', Fixed 2 (tt_rate_per_second tt1),
               Lit ''/s budget; shed to cheapest eligible '', Str (mc_model c), Lit '' at estimated $'', Fixed 6 (cost_of r s c)])
             (\<lambda>c. (cost_of r s c, - mc_quality_score c, mc_model c)), tt1))"

subsection \<open>Shares and tiers\<close>

definition quota_fair_share_choose :: "catalog \<Rightarrow> router_request \<Rightarrow> task_signals \<Rightarrow> request_share_stats \<Rightarrow>
    routing_decision result \<times> request_share_stats" where
  "quota_fair_share_choose cat r s sh =
     (let cs = eligible cat s;
          providers = mc_provider ` set cs;
          fair_share = idiv 1 (int (card providers));
          share = (\<lambda>c. request_share sh (mc_provider c) providers);
          n = observation_count sh providers;
          under = filter (\<lambda>c. share c < fair_share) cs;
          lookback = IntF (int (sh_lookback sh))
      in if cs = [] then (Inl ZeroDivisionError, sh)
         else (case max_by (quality_model_key r s) (or_else under cs) of
             None \<Rightarrow> (Inl ValueError, sh)
           | Some c \<Rightarrow>
               (Inr (decide ''provider-quota-fair-share'' c
                 (if n = 0 then [Lit ''provider-quota-fair-share cold start; selected highest-quality eligible '', Str (mc_model c),
                    Lit '' with equal target '', Percent 2 fair_share, Lit '' over lookback '', lookback]
                  else if under \<noteq> [] then [Lit ''provider-quota-fair-share shed providers at or above equal share '',
                    Percent 2 fair_share, Lit ''; selected under-share provider '', Str (mc_provider c), Lit '' at '',
                    Percent 2 (share c), Lit '' over '', IntF n, Lit ''/'', lookback, Lit '' observations'']
                  else [Lit ''provider-quota-fair-share found eligible provider shares balanced at '', Percent 2 fair_share,
                    Lit ''; selected highest-quality '', Str (mc_model c)])
                 (sorted_by (\<lambda>k. (fair_share \<le> share k, share k, - mc_quality_score k, cost_of r s k, mc_model k))
                   (without (mc_model c) cs))),
                sh_observe (mc_provider c) sh)))"

record tier_limits =
  tl_frontier_rpm :: int
  tl_mid_rpm :: int
  tl_economy_rpm :: int

definition make_tier_limits :: "int \<Rightarrow> int \<Rightarrow> int \<Rightarrow> tier_limits result" where
  "make_tier_limits frontier mid economy =
     (if list_ex (\<lambda>n. n < 1) [frontier, mid, economy] then Inl ValueError
      else Inr \<lparr> tl_frontier_rpm = frontier, tl_mid_rpm = mid, tl_economy_rpm = economy \<rparr>)"

definition rpm_limit :: "tier_limits \<Rightarrow> model_candidate \<Rightarrow> int" where
  "rpm_limit tls c = (case infer_model_tier (mc_model c) of
     Frontier \<Rightarrow> tl_frontier_rpm tls | Mid \<Rightarrow> tl_mid_rpm tls | Economy \<Rightarrow> tl_economy_rpm tls)"

text \<open>The constructor has checked the limits, so \<open>saturation_fraction\<close> does not raise here.\<close>

definition saturation :: "rat \<Rightarrow> tier_limits \<Rightarrow> model_candidate \<Rightarrow> tier_request_stats \<Rightarrow> rat \<times> tier_request_stats" where
  "saturation now tls c tr = (case saturation_fraction now (mc_provider c) (rpm_limit tls c) tr of
     (Inr x, tr') \<Rightarrow> (x, tr') | (Inl e, tr') \<Rightarrow> (0, tr'))"

definition tier_rate_limit_choose :: "rat \<Rightarrow> tier_limits \<Rightarrow> catalog \<Rightarrow> router_request \<Rightarrow> task_signals \<Rightarrow> tier_request_stats \<Rightarrow>
    routing_decision result \<times> tier_request_stats" where
  "tier_rate_limit_choose now tls cat r s tr =
     (let cs = eligible cat s;
          (under_flags, tr1) = traverse (\<lambda>c. is_under_limit now (mc_provider c) (rpm_limit tls c)) cs tr;
          under = where_true cs under_flags;
          pool = or_else under cs;
          (keys, tr2) = traverse (\<lambda>c st. let (x, st') = saturation now tls c st
            in ((x, - mc_quality_score c, cost_of r s c, mc_model c), st')) pool tr1
      in (case map fst (sorted_by snd (zip pool keys)) of
          [] \<Rightarrow> (Inl IndexError, tr2)
        | c # rest \<Rightarrow>
            (let (count, tr3) = request_count now (mc_provider c) tr2;
                 (full, tr4) = saturation now tls c tr3;
                 tv = Str (tier_value (infer_model_tier (mc_model c)))
             in (Inr (decide ''model-tier-rate-limit'' c
                  ([Lit ''model-tier-rate-limit selected provider '', Str (mc_provider c), Lit '' ('', IntF count, Lit ''/'',
                    IntF (rpm_limit tls c), Lit '' recent requests, '', Percent 2 full, Lit '' saturated, '', tv, Lit '' tier); ''] @
                   (if under = [] then [Lit ''all eligible providers saturated; routed to least-saturated'']
                    else [Lit ''under '', tv, Lit '' tier RPM '', IntF (rpm_limit tls c)]) @
                   [Lit ''; picked '', Str (mc_model c), Lit '' (quality '', Fixed 2 (mc_quality_score c), Lit '', est $'',
                    Fixed 6 (cost_of r s c), Lit '')''])
                  rest),
                 tier_record now (mc_provider c) tr4))))"

subsection \<open>Region hysteresis\<close>

definition make_region_hysteresis :: "int \<Rightarrow> int result" where
  "make_region_hysteresis n = (if n < 1 then Inl ValueError else Inr n)"

definition healthy_region_candidates :: "(string \<Rightarrow> bool) \<Rightarrow> model_candidate list \<Rightarrow> string \<Rightarrow> model_candidate list" where
  "healthy_region_candidates healthy cs region = healthy_pool healthy (filter (matches_region region) cs)"

definition any_available :: "(string \<Rightarrow> bool) \<Rightarrow> model_candidate list \<Rightarrow> bool" where
  "any_available healthy cs = list_ex (\<lambda>c. healthy (mc_provider c)) cs"

definition hysteresis_pick :: "catalog \<Rightarrow> router_request \<Rightarrow> model_candidate list \<Rightarrow> string \<Rightarrow> fstring \<Rightarrow> routing_decision result" where
  "hysteresis_pick cat r cs region_label note =
     (let ordered = sorted_by mc_model cs;
          bucket = nat (hash32 (rq_session_id r) mod int (length ordered));
          c = ordered ! bucket
      in if ordered = [] then Inl ZeroDivisionError
         else decision ''region-failover-hysteresis'' cat (mc_model c)
           ([Lit ''region-failover-hysteresis pinned session '', Lit [CHR 0x27], Str (rq_session_id r), Lit [CHR 0x27], Lit '' to '',
             Str (mc_model c), Lit '' in region '', Lit [CHR 0x27], Str region_label, Lit [CHR 0x27], Lit '' (''] @ note @
            [Lit '', bucket '', IntF (int bucket), Lit ''/'', IntF (int (length ordered)), Lit '')'']))"

fun hysteresis_loop :: "(string \<Rightarrow> bool) \<Rightarrow> string \<Rightarrow> catalog \<Rightarrow> router_request \<Rightarrow> model_candidate list \<Rightarrow> string list \<Rightarrow>
    hysteresis_stats \<Rightarrow> routing_decision result \<times> hysteresis_stats" where
  "hysteresis_loop healthy preferred cat r cs [] hy =
     (hysteresis_pick cat r cs ''fallback'' [Lit ''no healthy regional pool; using fallback''], hy)"
| "hysteresis_loop healthy preferred cat r cs (region # regions) hy =
     (let region_cs = healthy_region_candidates healthy cs region in
      if \<not> any_available healthy region_cs then hysteresis_loop healthy preferred cat r cs regions hy
      else if region \<noteq> preferred
      then (hysteresis_pick cat r region_cs region [Lit ''failover from preferred '', Lit [CHR 0x27], Str preferred, Lit [CHR 0x27]],
        set_failover (rq_session_id r) region hy)
      else (hysteresis_pick cat r region_cs region [Lit ''preferred region healthy''], clear_failover (rq_session_id r) hy))"

definition region_hysteresis_choose :: "(string \<Rightarrow> bool) \<Rightarrow> string list \<Rightarrow> int \<Rightarrow> catalog \<Rightarrow> router_request \<Rightarrow> task_signals \<Rightarrow>
    hysteresis_stats \<Rightarrow> routing_decision result \<times> hysteresis_stats" where
  "region_hysteresis_choose healthy defaults successes cat r s hy =
     (let cs = eligible cat s;
          regions = region_preferences defaults r;
          preferred = hd regions;
          streak = recovery_streak preferred hy;
          preferred_cs = healthy_region_candidates healthy cs preferred;
          loop = hysteresis_loop healthy preferred cat r cs regions hy
      in (case active_failover_region (rq_session_id r) hy of
          None \<Rightarrow> loop
        | Some active \<Rightarrow>
            if any_available healthy preferred_cs \<and> successes \<le> streak
            then (hysteresis_pick cat r preferred_cs preferred
                [Lit ''preferred region recovered with '', IntF streak, Lit ''/'', IntF successes, Lit '' consecutive successes''],
              clear_failover (rq_session_id r) hy)
            else (let failover_cs = healthy_region_candidates healthy cs active in
              if any_available healthy failover_cs
              then (hysteresis_pick cat r failover_cs active
                [Lit ''holding failover until preferred region reaches hysteresis '', IntF streak, Lit ''/'', IntF successes,
                 Lit '' successes''], hy)
              else loop)))"

subsection \<open>Tenant budgets and timed error budgets\<close>

definition make_budget_cascade :: "rat \<Rightarrow> rat \<Rightarrow> (rat \<times> rat) result" where
  "make_budget_cascade soft hard = (if soft < 0 \<or> hard \<le> soft then Inl ValueError else Inr (soft, hard))"

definition budget_cascade_choose :: "rat \<Rightarrow> rat \<times> rat \<Rightarrow> catalog \<Rightarrow> router_request \<Rightarrow> task_signals \<Rightarrow> cascade_stats \<Rightarrow>
    routing_decision result \<times> cascade_stats" where
  "budget_cascade_choose now budgets cat r s tc =
     (let (soft, hard) = budgets;
          tenant = tenant_scope r;
          (spend, tc1) = tc_spend now tenant tc;
          cs = eligible cat s;
          hard_safe = filter (\<lambda>c. fadd spend (cost_of r s c) \<le> hard) cs;
          soft_safe = filter (\<lambda>c. fadd spend (cost_of r s c) \<le> soft) hard_safe;
          quoted = [Lit [CHR 0x27], Str tenant, Lit [CHR 0x27]];
          key = (\<lambda>c. (cost_of r s c, - mc_quality_score c, mc_model c))
      in (if hard_safe = [] then Inl (TenantBudgetExceededError tenant)
          else if soft_safe \<noteq> []
          then pick_rest ''tenant-budget-cascade'' hard_safe (max_by (quality_model_key r s) soft_safe)
            (\<lambda>c. [Lit ''tenant-budget-cascade tenant ''] @ quoted @ [Lit '' rolling spend '', Fixed 6 spend, Lit '' under soft '',
              Fixed 6 soft, Lit ''; selected highest-quality soft-safe '', Str (mc_model c), Lit '' at projected '',
              Fixed 6 (cost_of r s c)]) key
          else pick_rest ''tenant-budget-cascade'' hard_safe (min_by key hard_safe)
            (\<lambda>c. [Lit ''tenant-budget-cascade tenant ''] @ quoted @ [Lit '' near hard ceiling '', Fixed 6 hard, Lit '' after soft '',
              Fixed 6 soft, Lit ''; shed to cheapest hard-safe provider '', Str (mc_provider c), Lit '' model '', Str (mc_model c),
              Lit '' at projected '', Fixed 6 (cost_of r s c)]) key,
          tc1))"

definition make_error_budget_reset :: "rat \<Rightarrow> rat result" where
  "make_error_budget_reset fraction = (if \<not> (0 \<le> fraction \<and> fraction \<le> 1) then Inl ValueError else Inr fraction)"

definition error_budget_reset_choose :: "rat \<Rightarrow> (string \<Rightarrow> bool) \<Rightarrow> rat \<Rightarrow> catalog \<Rightarrow> router_request \<Rightarrow> task_signals \<Rightarrow>
    error_reset_stats \<Rightarrow> routing_decision result \<times> error_reset_stats" where
  "error_budget_reset_choose now healthy fraction cat r s er =
     (let cs = healthy_pool healthy (eligible cat s);
          (vals, er1) = traverse (\<lambda>c. er_error_rate now (mc_provider c)) cs er;
          rate = (\<lambda>c. dict_of (map mc_provider cs) vals (mc_provider c));
          within_budget = filter (\<lambda>c. rate c \<le> fraction) cs;
          fallback_key = (\<lambda>c. (fraction < rate c, rate c, - mc_quality_score c, mc_model c))
      in if within_budget \<noteq> []
         then (pick_rest ''provider-error-budget-reset'' cs (max_by (quality_model_key r s) within_budget)
           (\<lambda>c. [Lit ''provider-error-budget-reset selected highest-quality provider within '', Percent 2 fraction,
             Lit '' timed error budget; '', Str (mc_provider c), Lit '' error '', Percent 2 (rate c), Lit '', reset every '',
             Fixed 1 (er_reset_seconds er1), Lit ''s'']) fallback_key, er1)
         else (let (waits, er2) = traverse (\<lambda>c. seconds_until_reset now (mc_provider c)) cs er1 in
           (case min_by (\<lambda>(c, w). (w, rate c, - mc_quality_score c, mc_model c)) (zip cs waits) of
                None \<Rightarrow> (Inl ValueError, er2)
              | Some (c, _) \<Rightarrow> (let (w, er3) = seconds_until_reset now (mc_provider c) er2 in
                  (pick_rest ''provider-error-budget-reset'' cs (Some c)
                    (\<lambda>c. [Lit ''provider-error-budget-reset found every healthy provider temporarily shed above '',
                      Percent 2 fraction, Lit ''; emergency fallback '', Str (mc_provider c), Lit '' resets in '', Fixed 1 w,
                      Lit ''s'']) fallback_key, er3)))))"

subsection \<open>The contract\<close>

lemma pick_rest_pool_ok:
  assumes "wf_catalog cat" "pick_rest name pool sel ra key = Inr d" "set_option sel \<subseteq> set pool"
    "set pool \<subseteq> set (catalog_values cat)" "distinct (map mc_model pool)"
  shows "decision_ok cat d"
  using assms by (auto simp: pick_rest_def bind_result_Inr intro!: decide_sorted_ok)

lemma filter_pool:
  assumes "wf_catalog cat"
  shows "set (filter P (eligible cat s)) \<subseteq> set (catalog_values cat)" "distinct (map mc_model (filter P (eligible cat s)))"
    "set (healthy_pool h (eligible cat s)) \<subseteq> set (catalog_values cat)" "distinct (map mc_model (healthy_pool h (eligible cat s)))"
    "healthy_pool h (eligible cat s) \<noteq> []"
  using assms eligible_sub [of cat s] by (auto simp: healthy_pool_def or_else_def distinct_filter_models)

lemma keyed_sort:
  assumes "length ks = length xs" shows "mset (map fst (sorted_by snd (zip xs ks))) = mset xs"
proof -
  have "mset (map fst (sorted_by snd (zip xs ks))) = image_mset fst (mset (zip xs ks))" by (simp only: mset_map mset_sorted_by)
  also have "\<dots> = mset (map fst (zip xs ks))" by (simp only: mset_map)
  finally show ?thesis using assms by simp
qed

lemma keyed_sort_set:
  assumes "length ks = length xs"
  shows "set (map fst (sorted_by snd (zip xs ks))) = set xs"
    "distinct (map mc_model (map fst (sorted_by snd (zip xs ks)))) = distinct (map mc_model xs)"
  using keyed_sort [OF assms] by (metis mset_eq_setD, metis distinct_mset_models)

lemma keyed_rest_ok:
  assumes "wf_catalog cat" "c \<in> set (eligible cat s)" "length ks = length (without (mc_model c) (eligible cat s))"
  shows "decision_ok cat (decide name c ra (map fst (sorted_by snd (zip (without (mc_model c) (eligible cat s)) ks))))"
proof (rule decide_ok [OF assms(1) eligible_value [OF assms(2)]])
  show "set (map fst (sorted_by snd (zip (without (mc_model c) (eligible cat s)) ks))) \<subseteq> set (catalog_values cat)"
    unfolding keyed_sort_set(1) [OF assms(3)] using eligible_sub by (auto simp: without_def)
  show "distinct (map mc_model (map fst (sorted_by snd (zip (without (mc_model c) (eligible cat s)) ks))))"
    unfolding keyed_sort_set(2) [OF assms(3)] using assms(1) by (simp add: without_def distinct_filter_models)
  show "mc_model c \<notin> mc_model ` set (map fst (sorted_by snd (zip (without (mc_model c) (eligible cat s)) ks)))"
    unfolding keyed_sort_set(1) [OF assms(3)] by (auto simp: without_def)
qed

lemma where_true_eligible:
  assumes "max_by f (where_true (eligible cat s) flags) = Some c"
  shows "c \<in> set (eligible cat s)"
  by (rule subsetD [OF where_true_sub max_by_in [OF assms]])

lemma tied_nonempty:
  assumes "ps \<noteq> []" shows "filter (\<lambda>p. f p = Max (set (map f ps))) ps \<noteq> []"
proof -
  have "Max (set (map f ps)) \<in> set (map f ps)" using assms by (intro Max_in) simp_all
  then show ?thesis by (auto simp: filter_empty_conv)
qed

interpretation soft_family_budget: total_stateful_strategy "soft_family_budget_choose now b" for now b
proof
  fix cat r s st st' d
  assume wf: "wf_catalog cat"
  show "soft_family_budget_choose now b cat r s st = (Inr d, st') \<Longrightarrow> decision_ok cat d"
    by (auto simp: soft_family_budget_choose_def Let_def intro: decision_Inr [OF wf] pick_by_ok [OF wf]
        split: if_splits option.splits prod.splits)
  obtain over fw1 where t: "traverse (\<lambda>c. fam_is_over_budget now (mc_provider c) b) (eligible cat s) st = (over, fw1)" by fastforce
  have o: "or_else (filter P (eligible cat s)) (eligible cat s) \<noteq> []"
    "set (or_else (filter P (eligible cat s)) (eligible cat s)) \<subseteq> set (catalog_values cat)" for P
    using wf eligible_sub [of cat s] by (auto simp: or_else_def)
  have ne: "max_by (quality_key r s) (eligible cat s) \<noteq> None" using wf by simp
  show "\<exists>d. fst (soft_family_budget_choose now b cat r s st) = Inr d"
    using pick_min_total [OF wf o] decision_value [OF wf eligible_value [OF where_true_eligible]] ne
    by (auto simp: soft_family_budget_choose_def Let_def t case_prod_beta split: option.splits)
qed

interpretation hourly_ceiling: total_stateful_strategy "hourly_ceiling_choose now usd" for now usd
proof
  fix cat r s st st' d
  assume wf: "wf_catalog cat"
  show "hourly_ceiling_choose now usd cat r s st = (Inr d, st') \<Longrightarrow> decision_ok cat d"
    by (auto simp: hourly_ceiling_choose_def Let_def intro: decision_Inr [OF wf] pick_by_ok [OF wf]
        split: if_splits option.splits prod.splits)
  show "\<exists>d. fst (hourly_ceiling_choose now usd cat r s st) = Inr d"
    using pick_min_total [OF wf eligible_nonempty [OF wf] eligible_sub]
      decision_value [OF wf eligible_value [OF where_true_eligible]]
    by (auto simp: hourly_ceiling_choose_def Let_def case_prod_beta split: option.splits)
qed

interpretation token_rpm: total_stateful_strategy "token_rpm_choose now n" for now n
proof
  fix cat r s st st' d
  assume wf: "wf_catalog cat"
  have sub: "set_option (max_by f (where_true (eligible cat s) flags)) \<subseteq> set (eligible cat s)"
    for f :: "model_candidate \<Rightarrow> 'k::linorder" and flags by (intro set_max_by where_true_sub)
  show "token_rpm_choose now n cat r s st = (Inr d, st') \<Longrightarrow> decision_ok cat d"
    unfolding token_rpm_choose_def Let_def case_prod_beta prod.inject
    by (elim conjE, erule pick_rest_if_ok [OF wf sub, rotated 1]) (intro within_eligible)
  show "\<exists>d. fst (token_rpm_choose now n cat r s st) = Inr d"
    unfolding token_rpm_choose_def Let_def case_prod_beta fst_conv
    by (intro pick_if pick_rest_total by_None) (simp_all add: wf)
qed

lemma weighted_pick_in: "weighted_pick b cum ws = Some p \<Longrightarrow> p \<in> fst ` set ws"
  by (induction b cum ws rule: weighted_pick.induct) (auto split: if_splits)

lemma weighted_provider_in:
  assumes "ps \<noteq> []" shows "\<exists>p \<in> set ps. weighted_provider r ps f = Inr p"
proof -
  let ?w = "map (\<lambda>p. (p, f p)) (filter (\<lambda>p. 0 < f p) ps)"
  have w: "fst ` set ?w \<subseteq> set ps" by auto
  show ?thesis
  proof (cases "?w = []")
    case True
    obtain p where "min_by (\<lambda>p. (f p, p)) ps = Some p" "p \<in> set ps" using min_by_Some [OF assms] by blast
    then show ?thesis using True by (auto simp: weighted_provider_def Let_def)
  next
    case False
    then have "fst (last ?w) \<in> set ps" using w last_in_set [OF False] by blast
    moreover have "weighted_pick b 0 (sorted_by fst ?w) = Some p \<Longrightarrow> p \<in> set ps" for b p
      using weighted_pick_in [of b 0 "sorted_by fst ?w" p] w by auto
    ultimately show ?thesis unfolding weighted_provider_def Let_def if_not_P [OF False] by (auto split: option.splits)
  qed
qed

interpretation token_fair_share: total_stateful_strategy "token_fair_share_choose now n" for now n
proof
  fix cat r s st st' d
  assume wf: "wf_catalog cat"
  show "token_fair_share_choose now n cat r s st = (Inr d, st') \<Longrightarrow> decision_ok cat d"
    unfolding token_fair_share_choose_def Let_def case_prod_beta prod.inject
    by (auto simp: bind_result_Inr split: if_splits intro!: within_eligible elim!: pick_rest_ok [OF wf])
  let ?ps = "sorted_list_of_set (mc_provider ` set (eligible cat s))"
  have tot: "\<exists>d. bind_result (if P then of_opt ValueError (max_by g ps) else weighted_provider r ps f) (\<lambda>p.
      pick_rest nm (eligible cat s) (max_by (quality_model_key r s) (filter (\<lambda>c. mc_provider c = p) (eligible cat s))) (ra p) key) = Inr d"
    if ps: "ps \<noteq> []" "set ps \<subseteq> set ?ps" for P f ra nm ps and g :: "string \<Rightarrow> rat" and key :: "model_candidate \<Rightarrow> 'k::linorder"
  proof -
    obtain p where "p \<in> set ps" "(if P then of_opt ValueError (max_by g ps) else weighted_provider r ps f) = Inr p"
      using weighted_provider_in [OF ps(1), of r f] max_by_Some [OF ps(1), of g] by (cases P) auto
    moreover from this(1) ps(2) have "filter (\<lambda>c. mc_provider c = p) (eligible cat s) \<noteq> []" by (auto simp: filter_empty_conv)
    then obtain c where "max_by (quality_model_key r s) (filter (\<lambda>c. mc_provider c = p) (eligible cat s)) = Some c"
      using max_by_Some by blast
    ultimately show ?thesis by (simp add: pick_rest_def)
  qed
  show "\<exists>d. fst (token_fair_share_choose now n cat r s st) = Inr d"
    unfolding token_fair_share_choose_def Let_def case_prod_beta fst_conv
    by (intro pick_if tot pick_rest_total by_None tied_nonempty) (auto simp: wf)
qed

interpretation token_bucket_tenant: total_stateful_strategy "token_bucket_tenant_choose now" for now
proof
  fix cat r s st st' d
  assume wf: "wf_catalog cat"
  show "token_bucket_tenant_choose now cat r s st = (Inr d, st') \<Longrightarrow> decision_ok cat d"
    by (auto simp: token_bucket_tenant_choose_def Let_def split: if_splits prod.splits
        intro!: within_eligible elim!: pick_rest_ok [OF wf])
  show "\<exists>d. fst (token_bucket_tenant_choose now cat r s st) = Inr d"
    unfolding token_bucket_tenant_choose_def Let_def case_prod_beta if_distrib [of fst] fst_conv
    by (intro pick_if pick_rest_total by_None eligible_nonempty wf)
qed

lemma opt_total: "\<exists>c. sel = Some c \<Longrightarrow> \<exists>d. fst (case sel of None \<Rightarrow> x | Some c \<Rightarrow> (Inr (k c), st c)) = Inr d"
  by auto

lemma quota_fair_share_ok: "wf_catalog cat \<Longrightarrow> quota_fair_share_choose cat r s st = (Inr d, st') \<Longrightarrow> decision_ok cat d"
  by (auto simp: quota_fair_share_choose_def Let_def or_else_def intro!: decide_rest_ok dest!: max_by_in split: if_splits option.splits)

interpretation quota_fair_share: total_stateful_strategy quota_fair_share_choose
proof
  fix cat r s st st' d
  assume wf: "wf_catalog cat"
  show "quota_fair_share_choose cat r s st = (Inr d, st') \<Longrightarrow> decision_ok cat d" using wf by (rule quota_fair_share_ok)
  show "\<exists>d. fst (quota_fair_share_choose cat r s st) = Inr d"
    unfolding quota_fair_share_choose_def Let_def if_not_P [OF eligible_nonempty [OF wf]]
    by (rule opt_total) (metis by_None(1) eligible_nonempty not_None_eq or_else_Nil wf)
qed

lemma fst_traverse_length: "traverse f xs st = (ys, st') \<Longrightarrow> length ys = length xs"
  using length_traverse [of f xs st] by simp

interpretation token_bucket_burst: total_stateful_strategy "token_bucket_burst_choose now" for now
proof
  fix cat r s st st' d
  assume wf: "wf_catalog cat"
  let ?cs = "eligible cat s"
  have sel: "c \<in> set ?cs"
    if "(if P then max_by f (where_true ?cs flags) else map_option fst (max_by g (zip ?cs ks))) = Some c"
    for P flags ks c and f :: "model_candidate \<Rightarrow> 'k::linorder" and g :: "model_candidate \<times> rat \<Rightarrow> 'l::linorder"
    using that by (auto split: if_splits dest: where_true_eligible max_by_in set_zip_leftD)
  show "token_bucket_burst_choose now cat r s st = (Inr d, st') \<Longrightarrow> decision_ok cat d"
    unfolding token_bucket_burst_choose_def Let_def case_prod_beta
    by (auto split: option.splits intro!: keyed_rest_ok [OF wf] dest!: sel)
  have some: "\<exists>c. (if P then max_by f (where_true ?cs flags) else map_option fst (max_by g (zip ?cs ks))) = Some c"
    if "P \<Longrightarrow> where_true ?cs flags \<noteq> []" "\<not> P \<Longrightarrow> length ks = length ?cs"
    for P flags ks and f :: "model_candidate \<Rightarrow> 'k::linorder" and g :: "model_candidate \<times> rat \<Rightarrow> 'l::linorder"
  proof (cases P)
    case False
    with that(2) have "zip ?cs ks \<noteq> []" using eligible_nonempty [OF wf] by (cases ?cs; cases ks) auto
    with False show ?thesis using max_by_Some [of "zip ?cs ks" g] by auto
  qed (use that(1) max_by_Some in auto)
  show "\<exists>d. fst (token_bucket_burst_choose now cat r s st) = Inr d"
    unfolding token_bucket_burst_choose_def Let_def case_prod_beta
    by (rule opt_total, rule some) simp_all
qed

lemma list_total: "xs \<noteq> [] \<Longrightarrow> \<exists>d. fst (case xs of [] \<Rightarrow> y | c # rest \<Rightarrow> (Inr (k c rest), st c rest)) = Inr d"
  by (cases xs) simp_all

lemma list_case_ok:
  assumes "(case xs of [] \<Rightarrow> (Inl e, y) | c # rest \<Rightarrow> (Inr (k c rest), st c rest)) = (Inr d, st')"
    "\<And>c rest. xs = c # rest \<Longrightarrow> decision_ok cat (k c rest)"
  shows "decision_ok cat d"
  using assms by (cases xs) auto

interpretation tier_rate_limit: total_stateful_strategy "tier_rate_limit_choose now tls" for now tls
proof
  fix cat r s st st' d
  assume wf: "wf_catalog cat"
  let ?cs = "eligible cat s"
  have pool: "set (or_else (where_true ?cs flags) ?cs) \<subseteq> set (catalog_values cat)"
    "or_else (where_true ?cs flags) ?cs \<noteq> []" for flags
    using where_true_sub [of ?cs flags] eligible_sub [of cat s] wf by (auto simp: or_else_def)
  have dist: "distinct (map mc_model (or_else (where_true ?cs flags) ?cs))" for flags
  proof -
    have "distinct (map mc_model (where_true ?cs flags))"
      unfolding where_true_def map_map
    proof (rule distinct_map_filter)
      have "map (mc_model \<circ> fst) (zip ?cs flags) = take (min (length ?cs) (length flags)) (map mc_model ?cs)"
        by (simp add: take_map map_fst_zip_take flip: map_map)
      then show "distinct (map (mc_model \<circ> fst) (zip ?cs flags))" using wf by (simp add: distinct_take)
    qed
    then show ?thesis using wf by (simp add: or_else_def)
  qed
  have tail: "decision_ok cat (decide nm c ra rest)"
    if "map fst (sorted_by snd (zip (or_else (where_true ?cs flags) ?cs) ks)) = c # rest"
      "length ks = length (or_else (where_true ?cs flags) ?cs)" for flags c rest nm ra and ks :: "'k::linorder list"
    using keyed_sort_set [OF that(2)] pool(1) [of flags] dist [of flags] unfolding that(1)
    by (intro decide_tail_ok wf) simp_all
  show "tier_rate_limit_choose now tls cat r s st = (Inr d, st') \<Longrightarrow> decision_ok cat d"
    unfolding tier_rate_limit_choose_def Let_def case_prod_beta
    by (erule list_case_ok) (erule tail, simp)
  have ne: "map fst (sorted_by snd (zip (or_else (where_true ?cs flags) ?cs) ks)) \<noteq> []"
    if "length ks = length (or_else (where_true ?cs flags) ?cs)" for flags and ks :: "'k::linorder list"
    using keyed_sort_set(1) [OF that] pool(2) [of flags] by (metis set_empty)
  show "\<exists>d. fst (tier_rate_limit_choose now tls cat r s st) = Inr d"
    unfolding tier_rate_limit_choose_def Let_def case_prod_beta by (rule list_total, rule ne) (rule length_traverse)
qed

lemma hysteresis_pick_ok: "wf_catalog cat \<Longrightarrow> hysteresis_pick cat r cs label note = Inr d \<Longrightarrow> decision_ok cat d"
  by (auto simp: hysteresis_pick_def Let_def intro: decision_Inr split: if_splits)

lemma hysteresis_pick_total:
  assumes "wf_catalog cat" "cs \<noteq> []" "set cs \<subseteq> set (catalog_values cat)"
  shows "\<exists>d. hysteresis_pick cat r cs label note = Inr d"
proof -
  have ne: "sorted_by mc_model cs \<noteq> []" using assms(2) by simp
  have "sorted_by mc_model cs ! nat (hash32 (rq_session_id r) mod int (length (sorted_by mc_model cs))) \<in> set (catalog_values cat)"
    using sorted_bucket [OF assms(2)] assms(3) by auto
  from decision_value [OF assms(1) this] show ?thesis unfolding hysteresis_pick_def Let_def if_not_P [OF ne] .
qed

lemma region_candidates_ok:
  assumes "any_available h (healthy_region_candidates h (eligible cat s) region)"
  shows "healthy_region_candidates h (eligible cat s) region \<noteq> []"
    "set (healthy_region_candidates h (eligible cat s) region) \<subseteq> set (catalog_values cat)"
  using assms eligible_sub [of cat s]
  by (auto simp: any_available_def healthy_region_candidates_def healthy_pool_def or_else_def list_ex_iff filter_empty_conv
      split: if_splits)

lemma hysteresis_loop_ok:
  "wf_catalog cat \<Longrightarrow> hysteresis_loop h p cat r cs regions hy = (Inr d, hy') \<Longrightarrow> decision_ok cat d"
  by (induction h p cat r cs regions hy rule: hysteresis_loop.induct)
     (auto simp: Let_def intro: hysteresis_pick_ok split: if_splits)

lemma hysteresis_loop_total:
  "wf_catalog cat \<Longrightarrow> \<exists>d. fst (hysteresis_loop h p cat r (eligible cat s) regions hy) = Inr d"
  by (induction regions)
     (auto simp: Let_def intro!: hysteresis_pick_total dest: region_candidates_ok intro: eligible_value split: if_splits)

interpretation region_hysteresis: total_stateful_strategy "region_hysteresis_choose h defaults n" for h defaults n
proof
  fix cat r s st st' d
  assume wf: "wf_catalog cat"
  show "region_hysteresis_choose h defaults n cat r s st = (Inr d, st') \<Longrightarrow> decision_ok cat d"
    unfolding region_hysteresis_choose_def Let_def
    by (auto intro: hysteresis_pick_ok [OF wf] hysteresis_loop_ok [OF wf] split: option.splits if_splits)
  show "\<exists>d. fst (region_hysteresis_choose h defaults n cat r s st) = Inr d"
    unfolding region_hysteresis_choose_def Let_def
    by (auto intro!: hysteresis_pick_total [OF wf] hysteresis_loop_total [OF wf] dest: region_candidates_ok
        split: option.splits if_splits)
qed

interpretation budget_cascade: stateful_strategy "budget_cascade_choose now budgets" for now budgets
proof
  fix cat r s st st' d
  assume wf: "wf_catalog cat"
  have ok: "decision_ok cat d" if "pick_rest nm (filter P (eligible cat s)) sel ra key = Inr d"
    "set_option sel \<subseteq> set (filter P (eligible cat s))" for nm P sel ra and key :: "model_candidate \<Rightarrow> 'k::linorder"
    by (rule pick_rest_pool_ok [OF wf that filter_pool(1,2) [OF wf]])
  show "budget_cascade_choose now budgets cat r s st = (Inr d, st') \<Longrightarrow> decision_ok cat d"
    unfolding budget_cascade_choose_def Let_def case_prod_beta prod.inject
    by (elim conjE, simp only: sum.distinct split: if_splits)
       (erule ok; intro set_max_by set_min_by order_refl; rule filter_is_subset)+
qed

interpretation error_budget_reset: total_stateful_strategy "error_budget_reset_choose now h f" for now h f
proof
  fix cat r s st st' d
  assume wf: "wf_catalog cat"
  let ?cs = "healthy_pool h (eligible cat s)"
  have ok: "decision_ok cat d" if "pick_rest nm ?cs sel ra key = Inr d" "set_option sel \<subseteq> set ?cs"
    for nm sel ra and key :: "model_candidate \<Rightarrow> 'k::linorder"
    by (rule pick_rest_pool_ok [OF wf that filter_pool(3,4) [OF wf]])
  show "error_budget_reset_choose now h f cat r s st = (Inr d, st') \<Longrightarrow> decision_ok cat d"
    unfolding error_budget_reset_choose_def Let_def case_prod_beta
    by (auto split: if_splits option.splits elim!: ok intro!: set_max_by dest!: min_by_in set_zip_leftD)
  have emergency: "\<exists>d. fst (case min_by g (zip ?cs ws) of None \<Rightarrow> (Inl ValueError, x)
      | Some (c, _) \<Rightarrow> (pick_rest nm ?cs (Some c) (ra c) key, st2 c)) = Inr d"
    if "length ws = length ?cs" for g :: "model_candidate \<times> rat \<Rightarrow> 'k::linorder" and ws nm ra st2 x
      and key :: "model_candidate \<Rightarrow> 'l::linorder"
  proof -
    have "zip ?cs ws \<noteq> []" using that filter_pool(5) [OF wf, of h s] by (cases ?cs; cases ws) auto
    then obtain c w where "min_by g (zip ?cs ws) = Some (c, w)" using min_by_Some [of "zip ?cs ws" g] by fast
    then show ?thesis by (simp add: pick_rest_def)
  qed
  show "\<exists>d. fst (error_budget_reset_choose now h f cat r s st) = Inr d"
    unfolding error_budget_reset_choose_def Let_def case_prod_beta if_distrib [of fst] fst_conv
    by (intro pick_if pick_rest_total by_None emergency [unfolded case_prod_beta] length_traverse)
qed

subsection \<open>What the hard ceiling promises\<close>

text \<open>
  C29. The hard ceiling of tenant-budget-cascade fails closed. Every model the decision may try, the
  chosen one and each fallback, keeps the tenant's rolling spend plus the estimated cost within the
  ceiling; the strategy raises \<open>TenantBudgetExceededError\<close> exactly when no eligible model does.
\<close>

theorem hard_ceiling_fails_closed:
  assumes wf: "wf_catalog cat"
  shows "case fst (budget_cascade_choose now (soft, hard) cat r s tc) of
      Inr d \<Rightarrow> (\<forall>m \<in> set (attempt_models d). \<exists>c. map_of cat m = Some c \<and> c \<in> set (eligible cat s) \<and>
        fadd (fst (tc_spend now (tenant_scope r) tc)) (cost_of r s c) \<le> hard)
    | Inl e \<Rightarrow> e = TenantBudgetExceededError (tenant_scope r) \<and> (\<forall>c \<in> set (eligible cat s).
        hard < fadd (fst (tc_spend now (tenant_scope r) tc)) (cost_of r s c))"
proof -
  let ?spend = "fst (tc_spend now (tenant_scope r) tc)"
  let ?safe = "filter (\<lambda>c. fadd ?spend (cost_of r s c) \<le> hard) (eligible cat s)"
  have in_pool: "\<exists>c \<in> set ?safe. map_of cat m = Some c"
    if hyp: "pick_rest nm ?safe sel ra key = Inr d" "set_option sel \<subseteq> set ?safe" "m \<in> set (attempt_models d)"
    for nm sel ra d m and key :: "model_candidate \<Rightarrow> 'k::linorder"
  proof -
    obtain c where c: "c \<in> set ?safe" "d = decide nm c (ra c) (sorted_by key (without (mc_model c) ?safe))"
      using hyp(1,2) by (auto simp: pick_rest_def bind_result_Inr)
    have "m \<in> mc_model ` set ?safe"
      using hyp(3) c by (auto simp: attempt_models_def decide_def first_models_def without_def dest!: in_set_takeD)
    then obtain k where "k \<in> set ?safe" "m = mc_model k" by blast
    then show ?thesis using map_of_values [OF wf eligible_value] by force
  qed
  show ?thesis
  proof (cases "?safe = []")
    case True
    then show ?thesis by (simp add: budget_cascade_choose_def Let_def case_prod_beta filter_empty_conv not_le)
  next
    case False
    then obtain d where d: "fst (budget_cascade_choose now (soft, hard) cat r s tc) = Inr d"
      unfolding budget_cascade_choose_def Let_def case_prod_beta fst_conv snd_conv if_not_P [OF False]
      by atomize_elim (intro pick_if pick_rest_total by_None)
    have "\<exists>c \<in> set ?safe. map_of cat m = Some c" if m: "m \<in> set (attempt_models d)" for m
      using d unfolding budget_cascade_choose_def Let_def case_prod_beta fst_conv snd_conv if_not_P [OF False]
      by (simp only: split: if_splits)
         (erule in_pool [OF _ _ m]; intro set_max_by set_min_by order_refl; rule filter_is_subset)+
    then show ?thesis by (auto simp: d)
  qed
qed

theorem hard_ceiling_fails_closed_witness:
  "case fst (budget_cascade_choose 0 (10, 25/2) default_model_catalog demo_request demo_signals
      \<lparr> tc_window_seconds = 3600, tc_observations = Map.empty \<rparr>) of
      Inr d \<Rightarrow> (\<forall>m \<in> set (attempt_models d). \<exists>c. map_of default_model_catalog m = Some c \<and>
        c \<in> set (eligible default_model_catalog demo_signals) \<and>
        fadd (fst (tc_spend 0 (tenant_scope demo_request) \<lparr> tc_window_seconds = 3600, tc_observations = Map.empty \<rparr>))
          (cost_of demo_request demo_signals c) \<le> 25/2)
    | Inl e \<Rightarrow> e = TenantBudgetExceededError (tenant_scope demo_request) \<and>
        (\<forall>c \<in> set (eligible default_model_catalog demo_signals).
          25/2 < fadd (fst (tc_spend 0 (tenant_scope demo_request) \<lparr> tc_window_seconds = 3600, tc_observations = Map.empty \<rparr>))
            (cost_of demo_request demo_signals c))"
  by (rule hard_ceiling_fails_closed [OF default_catalog_wf])

end
