(* ===== verification/Strategies_Meta.thy ===== *)
theory Strategies_Meta
  imports Strategies_Window Prefer
begin

text \<open>
  The strategies of \<open>src/router/strategies.py\<close> that read numbers out of \<open>request.metadata\<close>: remaining
  cache TTLs, provider spend, carbon intensities, warm-up scores, tenant rates, injection risk,
  complexity, context sizes and deadlines. A malformed number may raise: what a class catches and
  what it lets through is modelled, so these strategies need not decide. The locale
  \<open>metadata_strategy\<close> is their contract: a decision is a proper one, the only exceptions are the three
  of Python's conversions, and metadata whose values are all texts never raises.
\<close>

subsection \<open>Reading metadata\<close>

text \<open>\<open>a or b or c\<close>\<close>

fun first_truthy :: "py_val list \<Rightarrow> py_val" where
  "first_truthy [] = VNone"
| "first_truthy [v] = v"
| "first_truthy (v # w # vs) = (if py_truth v then v else first_truthy (w # vs))"

text \<open>\<open>metadata.get(key, '')\<close>: an explicit None stays None\<close>

definition metadata_text :: "router_request \<Rightarrow> string \<Rightarrow> py_val" where
  "metadata_text r key = (case map_of (rq_metadata r) key of None \<Rightarrow> VStr [] | Some v \<Rightarrow> v)"

text \<open>\<open>overrides[k]\<close> of a nested mapping, None when it is absent or there is no mapping\<close>

definition nested_get :: "router_request \<Rightarrow> string \<Rightarrow> string \<Rightarrow> py_val option" where
  "nested_get r key k = (case metadata_get r key of VDict kvs _ \<Rightarrow> map_of kvs k | _ \<Rightarrow> None)"

text \<open>\<open>max(0.0, float(raw)) if str(raw).strip() else 0.0\<close>, with 0.0 for a ValueError\<close>

definition amount_or_zero :: "py_val \<Rightarrow> amount result" where
  "amount_or_zero raw = (if strip (py_str raw) = [] then Inr (Amount 0)
     else bind_result (attempt {ValueError} (float_of raw))
       (\<lambda>x. Inr (case x of None \<Rightarrow> Amount 0 | Some y \<Rightarrow> amount_of y)))"

text \<open>The candidates of the domain on available providers, else all available ones, else all\<close>

definition available_eligible :: "(string \<Rightarrow> bool) \<Rightarrow> catalog \<Rightarrow> task_signals \<Rightarrow> model_candidate list" where
  "available_eligible healthy cat s = (let up = filter (\<lambda>c. healthy (mc_provider c)) in
     or_else (up (supporting_domain cat s)) (or_else (up (catalog_values cat)) (catalog_values cat)))"

definition availability_note :: "(string \<Rightarrow> bool) \<Rightarrow> catalog \<Rightarrow> task_signals \<Rightarrow> string \<Rightarrow> frag" where
  "availability_note healthy cat s emergency =
     Lit (if filter (\<lambda>c. healthy (mc_provider c)) (eligible cat s) \<noteq> [] then ''healthy'' else emergency)"

text \<open>The two orders the fallback chains use most\<close>

definition by_quality :: "(model_candidate \<Rightarrow> rat) \<Rightarrow> model_candidate \<Rightarrow> rat \<times> rat \<times> string" where
  "by_quality cost c = (- mc_quality_score c, cost c, mc_model c)"

definition by_cost :: "(model_candidate \<Rightarrow> rat) \<Rightarrow> model_candidate \<Rightarrow> rat \<times> rat \<times> string" where
  "by_cost cost c = (cost c, - mc_quality_score c, mc_model c)"

definition best_quality :: "(model_candidate \<Rightarrow> rat) \<Rightarrow> model_candidate list \<Rightarrow> model_candidate option" where
  "best_quality cost = max_by (\<lambda>c. (mc_quality_score c, - cost c, mc_model c))"

subsection \<open>Cache TTL and spend telemetry\<close>

definition make_cache_ttl :: "rat \<Rightarrow> rat result" where
  "make_cache_ttl ttl = (if ttl < 0 then Inl ValueError else Inr ttl)"

definition ttl_remaining :: "router_request \<Rightarrow> string \<Rightarrow> amount result" where
  "ttl_remaining r provider = (let first = metadata_get r (''cache_ttl_remaining:'' @ provider) in
     amount_or_zero (if py_truth first then first else metadata_text r (''semantic_cache_ttl:'' @ provider)))"

definition cache_ttl_choose :: "(string \<Rightarrow> bool) \<Rightarrow> rat \<Rightarrow> catalog \<Rightarrow> router_request \<Rightarrow> task_signals \<Rightarrow> routing_decision result" where
  "cache_ttl_choose healthy ttl_seconds cat r s =
     (let cs = available_eligible healthy cat s;
          cacheable = (lower (strip (py_str (metadata_text r ''cacheable''))) \<in> {''1'', ''true'', ''yes'', ''cacheable''})
      in bind_result (each_result (\<lambda>c. ttl_remaining r (mc_provider c)) cs) (\<lambda>vals.
         let ttl = (\<lambda>c. dict_of (map mc_provider cs) vals (mc_provider c));
             warm = filter (\<lambda>c. 0 < ttl c \<and> ttl c \<le> Amount ttl_seconds) cs
         in if cacheable \<and> warm \<noteq> []
            then pick_by ''semantic-cache-ttl-affinity'' cat
              (max_by (\<lambda>c. (ttl c, mc_quality_score c, - cost_of r s c, mc_model c)) warm)
              (\<lambda>c. [Lit ''semantic-cache-ttl-affinity pinned warm provider '', Str (mc_provider c), Lit '' (ttl remaining '',
                fixed_amount 1 (ttl c), Lit ''s / '', Fixed 1 ttl_seconds, Lit ''s)''])
            else pick_by ''semantic-cache-ttl-affinity'' cat (max_by (quality_model_key r s) cs)
              (\<lambda>c. [Lit ''semantic-cache-ttl-affinity fallback quality route to '', Str (mc_model c), Lit '' on '',
                Str (mc_provider c), Lit '' (cacheable='', Lit (if cacheable then ''True'' else ''False''),
                Lit ''; warm_providers='', IntF (int (length warm)), Lit '')''])))"

definition make_spend_telemetry :: "rat \<Rightarrow> rat result" where
  "make_spend_telemetry usd = (if usd < 0 then Inl ValueError else Inr usd)"

definition spend_for :: "router_request \<Rightarrow> string \<Rightarrow> amount result" where
  "spend_for r provider = (let first = metadata_get r (''spend:'' @ provider) in
     amount_or_zero (if py_truth first then first else metadata_text r (''provider_spend_usd:'' @ provider)))"

definition spend_telemetry_choose :: "(string \<Rightarrow> bool) \<Rightarrow> rat \<Rightarrow> catalog \<Rightarrow> router_request \<Rightarrow> task_signals \<Rightarrow>
    routing_decision result" where
  "spend_telemetry_choose healthy soft_usd cat r s =
     (let cs = available_eligible healthy cat s
      in bind_result (each_result (\<lambda>c. spend_for r (mc_provider c)) cs) (\<lambda>vals.
         let spend = (\<lambda>c. dict_of (map mc_provider cs) vals (mc_provider c));
             max_spend = (if cs = [] then Amount 0 else Max (set (map spend cs)))
         in if max_spend < Amount soft_usd
            then pick_by ''provider-spend-telemetry'' cat (max_by (quality_model_key r s) cs)
              (\<lambda>c. [Lit ''provider-spend-telemetry under soft spend '', Fixed 2 soft_usd, Lit '' USD (max observed '',
                fixed_amount 2 max_spend, Lit ''); selected '', Str (mc_model c), Lit '' on '', Str (mc_provider c)])
            else pick_by ''provider-spend-telemetry'' cat
              (min_by (\<lambda>c. (spend c, - mc_quality_score c, cost_of r s c, mc_model c)) cs)
              (\<lambda>c. [Lit ''provider-spend-telemetry preferred lower-spend provider '', Str (mc_provider c), Lit '' (spend '',
                fixed_amount 2 (spend c), Lit '' USD; soft threshold '', Fixed 2 soft_usd, Lit '')''])))"

subsection \<open>Carbon\<close>

definition region_intensity :: "(string \<times> rat) list \<Rightarrow> rat \<Rightarrow> string \<Rightarrow> rat" where
  "region_intensity table fallback region = (case map_of table region of Some x \<Rightarrow> x | None \<Rightarrow> fallback)"

definition region_defaults :: "(string \<times> rat) list" where
  "region_defaults = [(''eu'', 250), (''us'', 380), (''cn'', 550), (''global'', 420)]"

text \<open>The first of the metadata values with some text that is a number, None when none is\<close>

fun first_amount :: "py_val list \<Rightarrow> amount option result" where
  "first_amount [] = Inr None"
| "first_amount (raw # raws) =
     (if raw = VNone \<or> strip (py_str raw) = [] then first_amount raws
      else bind_result (attempt {ValueError} (float_of raw))
        (\<lambda>x. case x of Some y \<Rightarrow> Inr (Some (amount_of y)) | None \<Rightarrow> first_amount raws))"

definition make_carbon_aware :: "rat \<Rightarrow> rat result" where
  "make_carbon_aware most = (if most < 0 then Inl ValueError else Inr most)"

text \<open>\<open>(a or b or 'global').lower()\<close> of a value that is no string raises AttributeError.\<close>

definition preferred_region_lower :: "router_request \<Rightarrow> string result" where
  "preferred_region_lower r =
     (case first_truthy [metadata_get r ''region'', metadata_get r ''preferred_region'', VStr ''global''] of
        VStr t \<Rightarrow> Inr (lower t)
      | _ \<Rightarrow> Inl AttributeError)"

definition carbon_aware_intensity :: "router_request \<Rightarrow> model_candidate \<Rightarrow> amount result" where
  "carbon_aware_intensity r c =
     bind_result (first_amount [metadata_get r (''carbon_intensity:'' @ mc_provider c)]) (\<lambda>x. case x of
        Some a \<Rightarrow> Inr a
      | None \<Rightarrow> bind_result (preferred_region_lower r) (\<lambda>region. Inr (Amount (region_intensity region_defaults 420 region))))"

definition carbon_aware_choose :: "(string \<Rightarrow> bool) \<Rightarrow> rat \<Rightarrow> catalog \<Rightarrow> router_request \<Rightarrow> task_signals \<Rightarrow> routing_decision result" where
  "carbon_aware_choose healthy most cat r s =
     (let cs = available_eligible healthy cat s
      in bind_result (each_result (carbon_aware_intensity r) cs) (\<lambda>vals.
         let intensity = (\<lambda>c. dict_of (map mc_model cs) vals (mc_model c))
         in pick_by ''carbon-aware-preference'' cat
              (min_by (\<lambda>c. (intensity c, - mc_quality_score c, cost_of r s c, mc_model c))
                (or_else (filter (\<lambda>c. intensity c \<le> Amount most) cs) cs))
              (\<lambda>c. [Lit ''carbon-aware-preference selected '', Str (mc_model c), Lit '' on '', Str (mc_provider c),
                Lit '' (intensity '', fixed_amount 1 (intensity c), Lit '' gCO2eq/kWh; max '', Fixed 1 most, Lit '')''])))"

text \<open>
  \<open>_inverse_min_max\<close> of intensities that may be infinite. With a finite minimum and an infinite
  maximum every score is NaN (\<open>None\<close>).
\<close>

definition inverse_amounts :: "amount list \<Rightarrow> (amount \<Rightarrow> rat) option" where
  "inverse_amounts vs = (let lowest = Min (set vs); highest = Max (set vs) in
     if highest = lowest then Some (\<lambda>_. 1)
     else (case (lowest, highest) of
        (Amount l, Amount h) \<Rightarrow> Some (\<lambda>v. case v of Amount x \<Rightarrow> fdiv (fsub h x) (fsub h l) | Unbounded \<Rightarrow> 0)
      | _ \<Rightarrow> None))"

text \<open>
  \<open>max\<close> and \<open>sorted\<close> over a score, quality, cost and model: with NaN scores every comparison is false,
  so \<open>max\<close> keeps the first candidate and \<open>sorted\<close> the order of the pool.
\<close>

definition blended_pick :: "strategy_name \<Rightarrow> router_request \<Rightarrow> task_signals \<Rightarrow> model_candidate list \<Rightarrow>
    (model_candidate \<Rightarrow> rat) option \<Rightarrow> (model_candidate \<Rightarrow> frag \<Rightarrow> fstring) \<Rightarrow> routing_decision result" where
  "blended_pick name r s cs score rationale = (case score of
      Some f \<Rightarrow> pick_rest name cs (max_by (\<lambda>c. (f c, mc_quality_score c, - cost_of r s c, mc_model c)) cs)
        (\<lambda>c. rationale c (Fixed 3 (f c))) (\<lambda>c. (- f c, - mc_quality_score c, cost_of r s c, mc_model c))
    | None \<Rightarrow> (case cs of
        [] \<Rightarrow> Inl ValueError
      | c # _ \<Rightarrow> Inr (decide name c (rationale c (Lit ''nan'')) (without (mc_model c) cs))))"

definition make_region_carbon :: "rat \<Rightarrow> rat result" where
  "make_region_carbon weight = (if \<not> (0 \<le> weight \<and> weight \<le> 1) then Inl ValueError else Inr weight)"

definition requested_region_text :: "router_request \<Rightarrow> string" where
  "requested_region_text r = lower (py_str (first_truthy [metadata_get r ''region'', metadata_get r ''preferred_region'',
     (case rq_region r of None \<Rightarrow> VNone | Some t \<Rightarrow> VStr t), VStr ''global'']))"

definition region_carbon_intensity :: "router_request \<Rightarrow> model_candidate \<Rightarrow> amount result" where
  "region_carbon_intensity r c =
     bind_result (first_amount [metadata_get r (''carbon_intensity:'' @ mc_provider c)]) (\<lambda>x. Inr (case x of
        Some a \<Rightarrow> a
      | None \<Rightarrow> Amount (region_intensity region_defaults 420 (requested_region_text r))))"

definition region_carbon_choose :: "latency_stats \<Rightarrow> rat \<Rightarrow> catalog \<Rightarrow> router_request \<Rightarrow> task_signals \<Rightarrow> routing_decision result" where
  "region_carbon_choose ls weight cat r s =
     (let cs = eligible cat s
      in bind_result (each_result (region_carbon_intensity r) cs) (\<lambda>vals.
         let intensity = (\<lambda>c. dict_of (map mc_model cs) vals (mc_model c));
             lat = by_model (\<lambda>c. p95 ls (mc_provider c)) cs;
             latency_score = (\<lambda>c. inverse_min_max (map lat cs) (lat c));
             latency_weight = fsub 1 weight;
             score = map_option (\<lambda>f c. fadd (fmul weight (f (intensity c))) (fmul latency_weight (latency_score c)))
               (inverse_amounts (map intensity cs))
         in blended_pick ''region-carbon-blend'' r s cs score
              (\<lambda>c shown. [Lit ''region-carbon-blend selected '', Str (mc_model c), Lit '' on '', Str (mc_provider c), Lit '' (score '',
                shown, Lit ''; carbon_weight='', Fixed 2 weight, Lit '', intensity '', fixed_amount 1 (intensity c),
                Lit '' gCO2eq/kWh, p95 '', Fixed 1 (lat c), Lit ''ms)''])))"

definition make_carbon_latency :: "rat \<Rightarrow> rat \<Rightarrow> (rat \<times> rat) result" where
  "make_carbon_latency carbon latency = (if carbon < 0 \<or> latency < 0 then Inl ValueError else Inr (carbon, latency))"

definition provider_region_defaults :: "(string \<times> (string \<times> rat) list) list" where
  "provider_region_defaults = [
     (''openai'', [(''eu'', 260), (''us'', 380), (''cn'', 540), (''global'', 420)]),
     (''anthropic'', [(''eu'', 180), (''us'', 350), (''cn'', 520), (''global'', 360)]),
     (''google'', [(''eu'', 220), (''us'', 400), (''cn'', 500), (''global'', 390)]),
     (''moonshot'', [(''eu'', 300), (''us'', 430), (''cn'', 550), (''global'', 500)])]"

definition carbon_latency_intensity :: "router_request \<Rightarrow> model_candidate \<Rightarrow> amount result" where
  "carbon_latency_intensity r c = (let region = requested_region_text r; key = ''carbon_intensity:'' @ mc_provider c in
     bind_result (first_amount [metadata_get r (key @ '':'' @ region), metadata_get r key]) (\<lambda>x. Inr (case x of
        Some a \<Rightarrow> a
      | None \<Rightarrow> Amount (case map_of provider_region_defaults (mc_provider c) of
          Some table \<Rightarrow> region_intensity table (region_intensity table 420 ''global'') region
        | None \<Rightarrow> region_intensity region_defaults 420 region))))"

definition carbon_latency_choose :: "latency_stats \<Rightarrow> rat \<times> rat \<Rightarrow> catalog \<Rightarrow> router_request \<Rightarrow> task_signals \<Rightarrow>
    routing_decision result" where
  "carbon_latency_choose ls weights cat r s =
     (let cs = eligible cat s; (carbon, latency) = weights
      in bind_result (each_result (carbon_latency_intensity r) cs) (\<lambda>vals.
         let intensity = (\<lambda>c. dict_of (map mc_model cs) vals (mc_model c));
             lat = by_model (\<lambda>c. p95 ls (mc_provider c)) cs;
             latency_score = (\<lambda>c. inverse_min_max (map lat cs) (lat c));
             score = map_option (\<lambda>f c. fadd (fmul carbon (f (intensity c))) (fmul latency (latency_score c)))
               (inverse_amounts (map intensity cs))
         in blended_pick ''carbon-latency-blend'' r s cs score
              (\<lambda>c shown. [Lit ''carbon-latency-blend selected '', Str (mc_provider c), Lit ''/'', Str (mc_model c), Lit '' at score '',
                shown, Lit '' (w_carbon='', Fixed 2 carbon, Lit '', w_latency='', Fixed 2 latency, Lit '', intensity '',
                fixed_amount 1 (intensity c), Lit '' gCO2eq/kWh, p95 '', Fixed 1 (lat c), Lit ''ms, region '', Lit [CHR 0x27],
                Str (requested_region_text r), Lit [CHR 0x27], Lit '')''])))"

subsection \<open>Scores, rates and risks\<close>

text \<open>The classes from here on decide among the healthy eligible models, or all eligible ones.\<close>

definition make_unit :: "rat \<Rightarrow> rat result" where
  "make_unit x = (if \<not> (0 \<le> x \<and> x \<le> 1) then Inl ValueError else Inr x)"

text \<open>\<open>float(value)\<close> with TypeError and ValueError caught\<close>

definition lenient_float :: "py_val \<Rightarrow> py_float option result" where
  "lenient_float v = attempt {TypeError, ValueError} (float_of v)"

definition warmup_score :: "router_request \<Rightarrow> string \<Rightarrow> rat result" where
  "warmup_score r provider = (case nested_get r ''provider_warmup'' provider of
      None \<Rightarrow> Inr (1/2)
    | Some v \<Rightarrow> bind_result (lenient_float v) (\<lambda>x. Inr (case x of Some y \<Rightarrow> unit_clamp y | None \<Rightarrow> 1/2)))"

definition warmup_weight_choose :: "(string \<Rightarrow> bool) \<Rightarrow> rat \<Rightarrow> catalog \<Rightarrow> router_request \<Rightarrow> task_signals \<Rightarrow> routing_decision result" where
  "warmup_weight_choose healthy blend cat r s =
     (let active = prefer_active healthy cat s;
          cost = by_model (cost_of r s) active
      in bind_result (each_result (\<lambda>c. warmup_score r (mc_provider c)) active) (\<lambda>vals.
         let warmup = (\<lambda>c. dict_of (map mc_model active) vals (mc_model c));
             blended = (\<lambda>c. fadd (fmul (fsub 1 blend) (mc_quality_score c)) (fmul blend (warmup c)))
         in pick_rest ''provider-warmup-weight'' active (max_by (\<lambda>c. (blended c, - cost c, mc_model c)) active)
              (\<lambda>c. [Lit ''provider-warmup-weight blended quality '', Fixed 2 (mc_quality_score c), Lit '' and warmup '',
                Fixed 2 (warmup c), Lit '' at blend='', Fixed 2 blend, Lit '' (score='', Fixed 3 (blended c), Lit ''); selected '',
                availability_note healthy cat s ''circuit-open emergency'', Lit '' '', Str (mc_model c)])
              (\<lambda>c. (- blended c, cost c, mc_model c))))"

definition make_soft_isolation :: "int \<Rightarrow> int result" where
  "make_soft_isolation rpm = (if rpm < 1 then Inl ValueError else Inr rpm)"

text \<open>The first of the metadata values that converts to a float\<close>

fun first_float :: "py_val list \<Rightarrow> py_float option result" where
  "first_float [] = Inr None"
| "first_float (v # vs) = (if v = VNone then first_float vs
     else bind_result (lenient_float v) (\<lambda>x. case x of Some y \<Rightarrow> Inr (Some y) | None \<Rightarrow> first_float vs))"

definition tenant_rpm :: "router_request \<Rightarrow> py_float result" where
  "tenant_rpm r = bind_result (first_float (map (metadata_get r) [''tenant_rpm'', ''tenant_request_rate'']))
     (\<lambda>x. Inr (case x of None \<Rightarrow> PFin 0 | Some y \<Rightarrow> y))"

text \<open>Quality first with \<open>calm\<close>, or cheapest first with \<open>pressed\<close>, among the active candidates\<close>

definition two_lane_pick :: "strategy_name \<Rightarrow> bool \<Rightarrow> (string \<Rightarrow> bool) \<Rightarrow> catalog \<Rightarrow> router_request \<Rightarrow> task_signals \<Rightarrow>
    fstring \<Rightarrow> fstring \<Rightarrow> routing_decision result" where
  "two_lane_pick name cheap healthy cat r s calm pressed =
     (let active = prefer_active healthy cat s;
          cost = by_model (cost_of r s) active;
          note = availability_note healthy cat s ''circuit-open emergency''
      in if cheap
         then pick_rest name active (min_by (by_cost cost) active)
           (\<lambda>c. pressed @ [note, Lit '' lowest-cost '', Str (mc_model c)]) (by_cost cost)
         else pick_rest name active (best_quality cost active)
           (\<lambda>c. calm @ [Lit ''; selected '', note, Lit '' quality-first '', Str (mc_model c)]) (by_quality cost))"

definition soft_isolation_choose :: "(string \<Rightarrow> bool) \<Rightarrow> int \<Rightarrow> catalog \<Rightarrow> router_request \<Rightarrow> task_signals \<Rightarrow> routing_decision result" where
  "soft_isolation_choose healthy soft_rpm cat r s =
     bind_result (tenant_rpm r) (\<lambda>rpm.
       let tenant = [Lit ''tenant-soft-isolation tenant '', Lit [CHR 0x27], Str (tenant_scope r), Lit [CHR 0x27]];
           rates = [fixed_float 1 rpm, Lit ''/'', IntF soft_rpm]
       in two_lane_pick ''tenant-soft-isolation'' (float_greater rpm (of_int soft_rpm)) healthy cat r s
            (tenant @ [Lit '' at ''] @ rates @ [Lit '' rpm''])
            (tenant @ [Lit '' exceeded soft rate ''] @ rates @ [Lit '' rpm; soft-isolated to '']))"

definition injection_risk :: "router_request \<Rightarrow> rat result" where
  "injection_risk r = (case metadata_get r ''prompt_injection_risk'' of
      VNone \<Rightarrow> Inr 0
    | v \<Rightarrow> bind_result (lenient_float v) (\<lambda>x. Inr (case x of None \<Rightarrow> 0 | Some y \<Rightarrow> unit_clamp y)))"

definition injection_shed_choose :: "(string \<Rightarrow> bool) \<Rightarrow> rat \<Rightarrow> catalog \<Rightarrow> router_request \<Rightarrow> task_signals \<Rightarrow> routing_decision result" where
  "injection_shed_choose healthy threshold cat r s =
     bind_result (injection_risk r) (\<lambda>risk.
       two_lane_pick ''prompt-injection-risk-shed'' (threshold \<le> risk) healthy cat r s
         [Lit ''prompt-injection-risk-shed risk '', Fixed 2 risk, Lit ''/'', Fixed 2 threshold]
         [Lit ''prompt-injection-risk-shed risk '', Fixed 2 risk, Lit '' at/above threshold '', Fixed 2 threshold, Lit ''; shed to ''])"

subsection \<open>Thinking, long contexts and deadlines\<close>

definition asked_complexity :: "router_request \<Rightarrow> task_signals \<Rightarrow> rat result" where
  "asked_complexity r s = (case metadata_get r ''complexity_score'' of
      VNone \<Rightarrow> Inr (ts_complexity_score s)
    | v \<Rightarrow> bind_result (lenient_float v)
        (\<lambda>x. Inr (case x of None \<Rightarrow> ts_complexity_score s | Some y \<Rightarrow> unit_clamp y)))"

definition is_thinking_model :: "router_request \<Rightarrow> string \<Rightarrow> bool" where
  "is_thinking_model r model = (case allowlist ''thinking_models'' r of
      Some allowed \<Rightarrow> lower model \<in> allowed
    | None \<Rightarrow> list_ex (\<lambda>token. contains token (lower model)) [''o1'', ''o3'', ''reasoning'', ''thinking'', ''sonnet'', ''opus''])"

definition thinking_choose :: "(string \<Rightarrow> bool) \<Rightarrow> rat \<Rightarrow> catalog \<Rightarrow> router_request \<Rightarrow> task_signals \<Rightarrow> routing_decision result" where
  "thinking_choose healthy threshold cat r s =
     bind_result (asked_complexity r s) (\<lambda>complexity.
       let active = prefer_active healthy cat s;
           cost = by_model (cost_of r s) active;
           flag = by_model (\<lambda>c. is_thinking_model r (mc_model c)) active;
           note = availability_note healthy cat s ''circuit-open emergency'';
           scores = [Lit ''thinking-model-prefer complexity '', Fixed 2 complexity, Lit ''/'', Fixed 2 threshold, Lit ''; selected '',
             note, Lit '' '']
       in if threshold \<le> complexity
          then pick_rest ''thinking-model-prefer'' active
            (max_by (\<lambda>c. (flag c, mc_quality_score c, - cost c, mc_model c)) active)
            (\<lambda>c. scores @ [Lit (if flag c then ''thinking-capable'' else ''non-thinking fallback''), Lit '' '', Str (mc_model c),
              Lit '' (quality '', Fixed 2 (mc_quality_score c), Lit '')''])
            (\<lambda>c. (\<not> flag c, by_quality cost c))
          else pick_rest ''thinking-model-prefer'' active (best_quality cost active)
            (\<lambda>c. scores @ [Lit ''quality-first '', Str (mc_model c)]) (by_quality cost))"

definition known_context_windows :: "string \<rightharpoonup> int" where
  "known_context_windows = map_of [
     (OPENAI_FRONTIER_MODEL, 1050000), (OPENAI_BALANCED_MODEL, 1050000), (ANTHROPIC_SAFETY_MODEL, 1000000),
     (ANTHROPIC_FAST_MODEL, 1000000), (GEMINI_PRO_MODEL, 1048576), (GEMINI_FLASH_MODEL, 1048576),
     (MOONSHOT_BALANCED_MODEL, 1048576)]"

text \<open>\<open>int(value)\<close> with TypeError and ValueError caught\<close>

definition lenient_int :: "py_val \<Rightarrow> int option result" where
  "lenient_int v = attempt {TypeError, ValueError} (int_of v)"

definition min_context_threshold :: "router_request \<Rightarrow> int option result" where
  "min_context_threshold r =
     (let asked = (if is_truthy (metadata_get r ''long_context'') then Some 100000 else None)
      in case metadata_get r ''min_context_tokens'' of
           VNone \<Rightarrow> Inr asked
         | v \<Rightarrow> bind_result (lenient_int v)
             (\<lambda>x. Inr (case x of Some n \<Rightarrow> if 0 < n then Some n else asked | None \<Rightarrow> asked)))"

definition candidate_window :: "(string \<rightharpoonup> int) \<Rightarrow> model_candidate \<Rightarrow> int" where
  "candidate_window known c = (case known (mc_model c) of
      Some window \<Rightarrow> (case mc_max_input_tokens c of None \<Rightarrow> window | Some cap \<Rightarrow> min window cap)
    | None \<Rightarrow> if 0 < mc_context_window c then input_token_limit c
        else if list_ex (\<lambda>token. contains token (lower (mc_model c))) [''gpt-5'', ''gpt-6'', ''claude'', ''gemini'', ''kimi'']
        then 200000 else 0)"

definition context_window_of :: "(string \<rightharpoonup> int) \<Rightarrow> router_request \<Rightarrow> model_candidate \<Rightarrow> int result" where
  "context_window_of known r c = (case nested_get r ''model_context_windows'' (mc_model c) of
      None \<Rightarrow> Inr (candidate_window known c)
    | Some v \<Rightarrow> bind_result (lenient_int v) (\<lambda>x. Inr (case x of Some n \<Rightarrow> n | None \<Rightarrow> candidate_window known c)))"

definition long_context_choose :: "(string \<rightharpoonup> int) \<Rightarrow> (string \<Rightarrow> bool) \<Rightarrow> catalog \<Rightarrow> router_request \<Rightarrow> task_signals \<Rightarrow>
    routing_decision result" where
  "long_context_choose known healthy cat r s =
     bind_result (min_context_threshold r) (\<lambda>threshold.
       let active = prefer_active healthy cat s;
           cost = by_model (cost_of r s) active;
           note = availability_note healthy cat s ''circuit-open emergency''
       in bind_result (each_result (context_window_of known r) active) (\<lambda>vals.
          let window = (\<lambda>c. dict_of (map mc_model active) vals (mc_model c))
          in case threshold of
            Some n \<Rightarrow> pick_rest ''long-context-prefer'' active
              (max_by (\<lambda>c. (n \<le> window c, window c, mc_quality_score c, - cost c, mc_model c)) active)
              (\<lambda>c. [Lit ''long-context-prefer min_context_tokens='', IntF n, Lit ''; selected '', note, Lit '' '',
                Lit (if n \<le> window c then ''long-context-capable'' else ''short-context fallback''), Lit '' '', Str (mc_model c),
                Lit '' (context '', IntF (window c), Lit '', quality '', Fixed 2 (mc_quality_score c), Lit '')''])
              (\<lambda>c. (\<not> n \<le> window c, - window c, by_quality cost c))
          | None \<Rightarrow> pick_rest ''long-context-prefer'' active (best_quality cost active)
              (\<lambda>c. [Lit ''long-context-prefer no min_context_tokens/long_context signal; selected '', note,
                Lit '' quality-first '', Str (mc_model c)]) (by_quality cost)))"

definition make_deadline_aware :: "rat \<Rightarrow> rat result" where
  "make_deadline_aware ms = (if ms < 0 then Inl ValueError else Inr ms)"

text \<open>The first of the two values that converts and is not negative\<close>

fun first_nonneg_float :: "py_val list \<Rightarrow> py_float option result" where
  "first_nonneg_float [] = Inr None"
| "first_nonneg_float (v # vs) = (if v = VNone then first_nonneg_float vs
     else bind_result (lenient_float v) (\<lambda>x. case x of
        Some y \<Rightarrow> if float_less y 0 then first_nonneg_float vs else Inr (Some y)
      | None \<Rightarrow> first_nonneg_float vs))"

text \<open>The fastest observed candidate, or the best one when no latency is known yet\<close>

definition fastest :: "latency_stats \<Rightarrow> (model_candidate \<Rightarrow> rat) \<Rightarrow> model_candidate list \<Rightarrow> model_candidate option" where
  "fastest ls cost cs =
     (let observed = filter (\<lambda>c. p95 ls (mc_provider c) \<noteq> 0) cs
      in min_by (\<lambda>c. (if observed \<noteq> [] then p95 ls (mc_provider c) else - mc_quality_score c, by_quality cost c))
           (or_else observed cs))"

definition by_latency :: "latency_stats \<Rightarrow> model_candidate \<Rightarrow> bool \<times> rat \<times> rat \<times> string" where
  "by_latency ls c = (p95 ls (mc_provider c) = 0, p95 ls (mc_provider c), - mc_quality_score c, mc_model c)"

definition deadline_choose :: "(string \<Rightarrow> bool) \<Rightarrow> latency_stats \<Rightarrow> rat \<Rightarrow> catalog \<Rightarrow> router_request \<Rightarrow> task_signals \<Rightarrow>
    routing_decision result" where
  "deadline_choose healthy ls threshold cat r s =
     bind_result (first_nonneg_float (map (metadata_get r) [''remaining_ms'', ''deadline_ms''])) (\<lambda>remaining.
       let active = prefer_active healthy cat s;
           cost = by_model (cost_of r s) active;
           tight = (case remaining of None \<Rightarrow> False | Some x \<Rightarrow> float_less x threshold);
           shown = (\<lambda>word. case remaining of
              None \<Rightarrow> [Lit ''no deadline metadata; quality-first'']
            | Some x \<Rightarrow> [Lit ''remaining '', fixed_float 2 x, Lit ''ms '', Lit word, Lit '' threshold '', Fixed 2 threshold, Lit ''ms'']);
           rationale = (\<lambda>word policy c. Lit ''deadline-aware-pick '' # shown word @ [Lit ''; selected '',
              availability_note healthy cat s ''emergency'', Lit '' '', Lit policy, Lit '' '', Str (mc_model c)])
       in if tight
          then pick_rest ''deadline-aware-pick'' active (fastest ls cost active)
            (rationale ''below'' ''fastest healthy deadline route'') (by_latency ls)
          else pick_rest ''deadline-aware-pick'' active (best_quality cost active)
            (rationale ''at/above'' ''quality-first route'') (by_quality cost))"

subsection \<open>Readings\<close>

definition is_text :: "py_val \<Rightarrow> bool" where
  "is_text v = (case v of VStr _ \<Rightarrow> True | _ \<Rightarrow> False)"

definition text_metadata :: "router_request \<Rightarrow> bool" where
  "text_metadata r = list_all (\<lambda>(k, v). is_text v) (rq_metadata r)"

definition conversion_errors :: "py_error set" where
  "conversion_errors = {TypeError, AttributeError, OverflowError}"

text \<open>A reading of the metadata: the only exceptions are those, and texts never raise.\<close>

definition readable :: "router_request \<Rightarrow> 'a result \<Rightarrow> bool" where
  "readable r res \<longleftrightarrow> (\<forall>e. res = Inl e \<longrightarrow> e \<in> conversion_errors \<and> \<not> text_metadata r)"

lemma text_value: "text_metadata r \<Longrightarrow> metadata_get r k = VNone \<or> is_text (metadata_get r k)"
  by (auto simp: text_metadata_def metadata_get_def list_all_iff split: option.splits dest!: map_of_SomeD)

lemma text_value_default: "text_metadata r \<Longrightarrow> is_text (metadata_text r k)"
  by (auto simp: text_metadata_def metadata_text_def list_all_iff is_text_def split: option.splits dest!: map_of_SomeD)

lemma nested_no_text: "nested_get r key k = Some v \<Longrightarrow> \<not> text_metadata r"
  using text_value [of r key] by (auto simp: nested_get_def is_text_def split: py_val.splits)

lemma float_of_error: "float_of v = Inl e \<Longrightarrow> e \<in> {ValueError, TypeError, OverflowError} \<and> (is_text v \<longrightarrow> e = ValueError)"
  by (cases v) (auto simp: is_text_def split: if_splits)

lemma int_of_error: "int_of v = Inl e \<Longrightarrow> e \<in> {ValueError, TypeError, OverflowError} \<and> (is_text v \<longrightarrow> e = ValueError)"
  by (cases v) (auto simp: is_text_def split: if_splits)

lemma attempt_Inl: "attempt caught res = Inl e \<longleftrightarrow> res = Inl e \<and> e \<notin> caught"
  by (auto simp: attempt_def split: sum.splits)

lemma readable_Inr [intro!]: "readable r (Inr x)"
  by (simp add: readable_def)

lemma readable_bind [intro!]: "readable r res \<Longrightarrow> (\<And>x. res = Inr x \<Longrightarrow> readable r (f x)) \<Longrightarrow> readable r (bind_result res f)"
  by (cases res) (auto simp: readable_def)

lemma readable_each [intro!]: "(\<And>x. x \<in> set xs \<Longrightarrow> readable r (f x)) \<Longrightarrow> readable r (each_result f xs)"
  unfolding readable_def by (meson each_result_Inl)

lemma readable_attempt: "text_metadata r \<longrightarrow> is_text v \<Longrightarrow> readable r (attempt {ValueError} (float_of v))"
  by (auto simp: readable_def attempt_Inl conversion_errors_def dest!: float_of_error)

lemma readable_lenient:
  assumes "text_metadata r \<longrightarrow> is_text v" shows "readable r (lenient_float v)" "readable r (lenient_int v)"
  using assms by (auto simp: readable_def lenient_float_def lenient_int_def attempt_Inl conversion_errors_def
    dest!: float_of_error int_of_error)

lemma readable_amount_or_zero: "text_metadata r \<longrightarrow> is_text v \<Longrightarrow> readable r (amount_or_zero v)"
  unfolding amount_or_zero_def by (auto intro: readable_attempt)

lemma readable_first_amount: "text_metadata r \<longrightarrow> (\<forall>v \<in> set vs. v = VNone \<or> is_text v) \<Longrightarrow> readable r (first_amount vs)"
  by (induction vs) (auto intro!: readable_attempt split: option.split)

lemma readable_first_float: "text_metadata r \<longrightarrow> (\<forall>v \<in> set vs. v = VNone \<or> is_text v) \<Longrightarrow> readable r (first_float vs)"
  by (induction vs) (auto intro!: readable_lenient split: option.split)

lemma readable_first_nonneg:
  "text_metadata r \<longrightarrow> (\<forall>v \<in> set vs. v = VNone \<or> is_text v) \<Longrightarrow> readable r (first_nonneg_float vs)"
  by (induction vs) (auto intro!: readable_lenient split: option.split)

lemma text_values: "text_metadata r \<longrightarrow> (\<forall>v \<in> set (map (metadata_get r) ks). v = VNone \<or> is_text v)"
  using text_value by auto

text \<open>A reading that dispatches on a missing value\<close>

lemma readable_option_float:
  assumes "\<And>v. v \<noteq> VNone \<Longrightarrow> f v = bind_result (lenient_float v) (\<lambda>x. Inr (g x))" "f VNone = Inr y"
  shows "readable r (f (metadata_get r k))"
proof (cases "metadata_get r k = VNone")
  case False
  then show ?thesis using text_value [of r k] assms(1) [OF False] readable_lenient(1) [of r "metadata_get r k"] by auto
qed (simp add: assms(2) readable_Inr)

lemma truthy_text: "text_metadata r \<Longrightarrow> py_truth (metadata_get r k) \<Longrightarrow> is_text (metadata_get r k)"
  using text_value [of r k] by auto

lemma readable_ttl: "readable r (ttl_remaining r p)" and readable_spend: "readable r (spend_for r p)"
  unfolding ttl_remaining_def spend_for_def Let_def
  by (rule readable_amount_or_zero, simp add: truthy_text text_value_default)+

lemma first_truthy_in: "vs \<noteq> [] \<Longrightarrow> first_truthy vs \<in> set vs"
  by (induction vs rule: first_truthy.induct) auto

lemma first_truthy_last: "py_truth (last vs) \<Longrightarrow> vs \<noteq> [] \<Longrightarrow> py_truth (first_truthy vs)"
  by (induction vs rule: first_truthy.induct) auto

lemma readable_preferred_region: "readable r (preferred_region_lower r)"
proof -
  let ?vs = "[metadata_get r ''region'', metadata_get r ''preferred_region'', VStr ''global'']"
  have "is_text (first_truthy ?vs)" if tm: "text_metadata r"
    by (simp add: truthy_text [OF tm]) (simp add: is_text_def)
  then obtain t where "text_metadata r \<Longrightarrow> first_truthy ?vs = VStr t" by (cases "first_truthy ?vs") (auto simp: is_text_def)
  then show ?thesis
    unfolding preferred_region_lower_def by (cases "first_truthy ?vs") (auto simp: readable_def conversion_errors_def)
qed

lemma readable_amounts: "set vs \<subseteq> range (metadata_get r) \<Longrightarrow> readable r (first_amount vs)"
  by (rule readable_first_amount) (use text_value [of r] in blast)

lemma readable_carbon:
  "readable r (carbon_aware_intensity r c)" "readable r (region_carbon_intensity r c)" "readable r (carbon_latency_intensity r c)"
  unfolding carbon_aware_intensity_def region_carbon_intensity_def carbon_latency_intensity_def Let_def
  by (auto simp del: first_amount.simps intro!: readable_amounts readable_preferred_region split: option.split)

lemma readable_warmup: "readable r (warmup_score r p)"
  using nested_no_text [of r] by (auto simp: warmup_score_def intro!: readable_lenient split: option.split)

lemma readable_rpm: "readable r (tenant_rpm r)"
  unfolding tenant_rpm_def by (intro readable_bind readable_first_float text_values readable_Inr)

lemma readable_risk: "readable r (injection_risk r)"
  unfolding injection_risk_def by (rule readable_option_float) (auto split: py_val.splits)

lemma readable_complexity: "readable r (asked_complexity r s)"
  unfolding asked_complexity_def by (rule readable_option_float) (auto split: py_val.splits)

lemma readable_threshold: "readable r (min_context_threshold r)"
  using text_value [of r "''min_context_tokens''"]
  by (auto simp: min_context_threshold_def Let_def intro!: readable_lenient split: py_val.split)

lemma readable_window: "readable r (context_window_of known r c)"
  using nested_no_text [of r] by (auto simp: context_window_of_def intro!: readable_lenient split: option.split)

subsection \<open>The contract\<close>

text \<open>A result that is a proper decision, and the rules that build one\<close>

definition proper_result :: "catalog \<Rightarrow> routing_decision result \<Rightarrow> bool" where
  "proper_result cat res \<longleftrightarrow> (\<exists>d. res = Inr d \<and> decision_ok cat d)"

lemma proper_if: "(P \<Longrightarrow> proper_result cat a) \<Longrightarrow> (\<not> P \<Longrightarrow> proper_result cat b) \<Longrightarrow> proper_result cat (if P then a else b)"
  by simp

lemma proper_bind:
  "sel \<noteq> None \<Longrightarrow> (\<And>c. sel = Some c \<Longrightarrow> proper_result cat (f c)) \<Longrightarrow> proper_result cat (bind_result (of_opt e sel) f)"
  by (cases sel) auto

lemma proper_decision:
  "wf_catalog cat \<Longrightarrow> c \<in> set (catalog_values cat) \<Longrightarrow> proper_result cat (decision name cat (mc_model c) ra)"
  using decision_value decision_Inr unfolding proper_result_def by blast

lemma proper_pick_by:
  assumes "wf_catalog cat" "sel \<noteq> None" "set_option sel \<subseteq> set (catalog_values cat)"
  shows "proper_result cat (pick_by name cat sel ra)"
  unfolding pick_by_def by (rule proper_bind [OF assms(2)], rule proper_decision [OF assms(1)]) (use assms(3) in auto)

lemma proper_pick_rest:
  assumes "wf_catalog cat" "sel \<noteq> None" "set_option sel \<subseteq> set pool" "set pool \<subseteq> set (catalog_values cat)"
    "distinct (map mc_model pool)"
  shows "proper_result cat (pick_rest name pool sel ra key)"
  using pick_rest_pool_ok [OF assms(1) _ assms(3-5)] assms(2) by (auto simp: proper_result_def pick_rest_def)

lemma total_strategyI:
  assumes "\<And>cat r s. wf_catalog cat \<Longrightarrow> proper_result cat (pick cat r s)" shows "total_strategy pick"
proof
  show "wf_catalog cat \<Longrightarrow> pick cat r s = Inr d \<Longrightarrow> decision_ok cat d" for cat r s d
    using assms [of cat r s] by (simp add: proper_result_def)
  show "wf_catalog cat \<Longrightarrow> \<exists>d. pick cat r s = Inr d" for cat r s
    using assms [of cat r s] by (auto simp: proper_result_def)
qed

text \<open>A result that is a proper decision, or an exception of a conversion of a value that is no text\<close>

definition sound_result :: "catalog \<Rightarrow> router_request \<Rightarrow> routing_decision result \<Rightarrow> bool" where
  "sound_result cat r res \<longleftrightarrow> (case res of
      Inr d \<Rightarrow> decision_ok cat d
    | Inl e \<Rightarrow> e \<in> conversion_errors \<and> \<not> text_metadata r)"

locale metadata_strategy =
  fixes pick :: "catalog \<Rightarrow> router_request \<Rightarrow> task_signals \<Rightarrow> routing_decision result"
  assumes sound: "wf_catalog cat \<Longrightarrow> sound_result cat r (pick cat r s)"

sublocale metadata_strategy \<subseteq> routing_strategy pick
proof
  fix cat r s d
  assume "wf_catalog cat" "pick cat r s = Inr d"
  then show "decision_ok cat d" using sound [of cat r s] by (simp add: sound_result_def)
qed

context metadata_strategy
begin

lemma texts_decide: "wf_catalog cat \<Longrightarrow> text_metadata r \<Longrightarrow> \<exists>d. pick cat r s = Inr d \<and> decision_ok cat d"
  using sound [of cat r s] by (cases "pick cat r s") (auto simp: sound_result_def)

lemma only_conversions_raise: "wf_catalog cat \<Longrightarrow> pick cat r s = Inl e \<Longrightarrow> e \<in> conversion_errors"
  using sound [of cat r s] by (simp add: sound_result_def)

end

lemma sound_bind: "readable r res \<Longrightarrow> (\<And>x. res = Inr x \<Longrightarrow> sound_result cat r (f x)) \<Longrightarrow> sound_result cat r (bind_result res f)"
  by (cases res) (auto simp: readable_def sound_result_def)

lemma sound_if:
  "(P \<Longrightarrow> sound_result cat r a) \<Longrightarrow> (\<not> P \<Longrightarrow> sound_result cat r b) \<Longrightarrow> sound_result cat r (if P then a else b)"
  by simp

lemma sound_option:
  "sound_result cat r a \<Longrightarrow> (\<And>y. sound_result cat r (f y)) \<Longrightarrow> sound_result cat r (case x of None \<Rightarrow> a | Some y \<Rightarrow> f y)"
  by (cases x) auto

lemma sound_proper: "proper_result cat res \<Longrightarrow> sound_result cat r res"
  by (auto simp: proper_result_def sound_result_def)

lemmas sound_pick_by = sound_proper [OF proper_pick_by] and sound_pick_rest = sound_proper [OF proper_pick_rest]

lemma active_pool:
  assumes "wf_catalog cat"
  shows "prefer_active healthy cat s \<noteq> []" "set (prefer_active healthy cat s) \<subseteq> set (catalog_values cat)"
    "distinct (map mc_model (prefer_active healthy cat s))"
  using filter_pool(3-5) [OF assms] by (simp_all add: prefer_active_def healthy_first_def healthy_pool_def)

lemma eligible_pool:
  assumes "wf_catalog cat"
  shows "eligible cat s \<noteq> []" "set (eligible cat s) \<subseteq> set (catalog_values cat)" "distinct (map mc_model (eligible cat s))"
  using assms eligible_sub by auto

lemma available_pool:
  assumes "wf_catalog cat"
  shows "available_eligible healthy cat s \<noteq> []" "set (available_eligible healthy cat s) \<subseteq> set (catalog_values cat)"
  using values_nonempty [OF assms] by (auto simp: available_eligible_def Let_def or_else_def supporting_domain_def)

lemma best_pool: "cs \<noteq> [] \<Longrightarrow> best_quality cost cs \<noteq> None" "set_option (best_quality cost cs) \<subseteq> set cs"
  by (simp_all add: best_quality_def set_max_by)

lemma fastest_pool: "cs \<noteq> [] \<Longrightarrow> fastest ls cost cs \<noteq> None" "set_option (fastest ls cost cs) \<subseteq> set cs"
proof -
  show "cs \<noteq> [] \<Longrightarrow> fastest ls cost cs \<noteq> None" by (simp add: fastest_def Let_def)
  show "set_option (fastest ls cost cs) \<subseteq> set cs"
    unfolding fastest_def Let_def by (rule set_min_by) (auto simp: or_else_def)
qed

lemmas pool_rules = by_None set_max_by set_min_by best_pool fastest_pool order_refl

lemma sound_two_lane: "wf_catalog cat \<Longrightarrow> sound_result cat r (two_lane_pick name cheap healthy cat r s calm pressed)"
  unfolding two_lane_pick_def Let_def by (intro sound_if sound_pick_rest pool_rules active_pool)

lemma sound_blended:
  assumes "wf_catalog cat" shows "sound_result cat r (blended_pick name r s (eligible cat s) score ra)"
proof (cases score)
  case (Some f)
  then show ?thesis unfolding blended_pick_def by (simp, intro sound_pick_rest pool_rules eligible_pool assms)
next
  case None
  obtain c cs where cs: "eligible cat s = c # cs" using eligible_pool(1) [OF assms] by (cases "eligible cat s") auto
  have "decision_ok cat (decide name c (ra c (Lit ''nan'')) (without (mc_model c) (c # cs)))"
    by (rule decide_ok [OF assms]) (use eligible_pool(2,3) [OF assms, of s] in \<open>auto simp: cs without_def distinct_filter_models\<close>)
  then show ?thesis by (simp add: blended_pick_def None cs sound_result_def)
qed

interpretation cache_ttl: metadata_strategy "cache_ttl_choose h ttl" for h ttl
proof
  fix cat r s
  assume wf: "wf_catalog cat"
  note av = available_pool [OF wf, of h s]
  show "sound_result cat r (cache_ttl_choose h ttl cat r s)"
    unfolding cache_ttl_choose_def Let_def
    by (intro sound_bind readable_each readable_ttl sound_if sound_pick_by pool_rules)
       (use wf av in auto)
qed

interpretation spend_telemetry: metadata_strategy "spend_telemetry_choose h usd" for h usd
proof
  fix cat r s
  assume wf: "wf_catalog cat"
  show "sound_result cat r (spend_telemetry_choose h usd cat r s)"
    unfolding spend_telemetry_choose_def Let_def
    by (intro sound_bind readable_each readable_spend sound_if sound_pick_by pool_rules available_pool wf)
qed

interpretation carbon_aware: metadata_strategy "carbon_aware_choose h most" for h most
proof
  fix cat r s
  assume wf: "wf_catalog cat"
  note av = available_pool [OF wf, of h s]
  show "sound_result cat r (carbon_aware_choose h most cat r s)"
    unfolding carbon_aware_choose_def Let_def
    by (intro sound_bind readable_each readable_carbon sound_pick_by pool_rules)
       (use wf av in \<open>auto simp: or_else_def\<close>)
qed

interpretation region_carbon: metadata_strategy "region_carbon_choose ls w" for ls w
  by unfold_locales (simp add: region_carbon_choose_def Let_def, intro sound_bind readable_each readable_carbon sound_blended)

interpretation carbon_latency: metadata_strategy "carbon_latency_choose ls ws" for ls ws
  by unfold_locales
     (simp add: carbon_latency_choose_def Let_def case_prod_beta, intro sound_bind readable_each readable_carbon sound_blended)

interpretation warmup_weight: metadata_strategy "warmup_weight_choose h b" for h b
  by unfold_locales
     (simp only: warmup_weight_choose_def Let_def, intro sound_bind readable_each readable_warmup sound_pick_rest pool_rules active_pool)

interpretation soft_isolation: metadata_strategy "soft_isolation_choose h n" for h n
  by unfold_locales (simp only: soft_isolation_choose_def Let_def, intro sound_bind readable_rpm sound_two_lane)

interpretation injection_shed: metadata_strategy "injection_shed_choose h x" for h x
  by unfold_locales (simp only: injection_shed_choose_def, intro sound_bind readable_risk sound_two_lane)

interpretation thinking: metadata_strategy "thinking_choose h x" for h x
  by unfold_locales
     (simp only: thinking_choose_def Let_def, intro sound_bind readable_complexity sound_if sound_pick_rest pool_rules active_pool)

interpretation long_context: metadata_strategy "long_context_choose known h" for known h
  by unfold_locales
     (simp only: long_context_choose_def Let_def, intro sound_bind readable_each readable_threshold readable_window sound_option
        sound_pick_rest pool_rules active_pool)

interpretation deadline: metadata_strategy "deadline_choose h ls x" for h ls x
  by unfold_locales
     (simp only: deadline_choose_def Let_def, intro sound_bind readable_first_nonneg text_values sound_if sound_pick_rest pool_rules active_pool)

subsection \<open>An infinite intensity\<close>

lemma inverse_amounts_NaN:
  assumes "Amount x \<in> set vs" "Unbounded \<in> set vs" shows "inverse_amounts vs = None"
proof -
  have top: "Max (set vs) = Unbounded" by (rule Max_eqI) (use assms(2) in auto)
  have "Min (set vs) \<le> Amount x" using assms(1) by simp
  then obtain l where "Min (set vs) = Amount l" by (cases "Min (set vs)") auto
  then show ?thesis by (simp add: inverse_amounts_def Let_def top)
qed

text \<open>
  A finite and an infinite carbon intensity among the eligible models make every blended score NaN:
  the strategy then takes the first eligible model of the catalog, whatever the intensities,
  latencies, qualities and costs are.
\<close>

lemma infinite_intensity_routes_first:
  assumes "wf_catalog cat" "each_result (region_carbon_intensity r) (eligible cat s) = Inr vals"
    "c \<in> set (eligible cat s)" "region_carbon_intensity r c = Inr Unbounded"
    "k \<in> set (eligible cat s)" "region_carbon_intensity r k = Inr (Amount x)"
  shows "\<exists>d. region_carbon_choose ls w cat r s = Inr d \<and> rd_chosen_model d = mc_model (hd (eligible cat s))"
proof -
  let ?cs = "eligible cat s"
  let ?f = "\<lambda>c. dict_of (map mc_model ?cs) vals (mc_model c)"
  note d = eligible_pool(3) [OF assms(1), of s]
  have v: "length vals = length ?cs" "list_all2 (\<lambda>c v. region_carbon_intensity r c = Inr v) ?cs vals"
    using each_result_Inr [OF assms(2)] by auto
  have f: "?f m = y" if m: "m \<in> set ?cs" "region_carbon_intensity r m = Inr y" for m y
  proof -
    obtain i where i: "i < length ?cs" "?cs ! i = m" using m(1) by (auto simp: in_set_conv_nth)
    have "vals ! i = y" using list_all2_nthD [OF v(2) i(1)] i(2) m(2) by simp
    moreover have "map_of (rev (zip (map mc_model ?cs) vals)) (mc_model m) = Some (vals ! i)"
    proof (rule map_of_is_SomeI)
      show "distinct (map fst (rev (zip (map mc_model ?cs) vals)))" using d v(1) by (simp add: rev_map [symmetric])
      show "(mc_model m, vals ! i) \<in> set (rev (zip (map mc_model ?cs) vals))"
        using i v(1) by (auto simp: in_set_zip intro!: exI [of _ i])
    qed
    ultimately show ?thesis by (simp add: dict_of_def)
  qed
  have "Amount x \<in> set (map ?f ?cs)" "Unbounded \<in> set (map ?f ?cs)"
    using f [OF assms(3,4)] f [OF assms(5,6)] assms(3,5) by (auto intro: rev_image_eqI)
  then have "inverse_amounts (map ?f ?cs) = None" by (rule inverse_amounts_NaN)
  moreover obtain h t where "?cs = h # t" using eligible_pool(1) [OF assms(1)] by (cases ?cs) auto
  ultimately show ?thesis using assms(2)
    by (simp add: region_carbon_choose_def Let_def blended_pick_def decide_def)
qed

end
