(* ===== verification/Strategies_Health.thy ===== *)
theory Strategies_Health
  imports Strategies_Meta
begin

text \<open>
  The remaining strategies of \<open>src/router/strategies.py\<close> that read the shared statistics without
  changing them: tenant concurrency leases, the two latency hedges across providers, request
  classes, the success floor, the capability gate and provider exclusion.
\<close>

subsection \<open>Leases and hedges\<close>

definition make_tenant_lease :: "int \<Rightarrow> int result" where
  "make_tenant_lease n = (if n < 1 then Inl ValueError else Inr n)"

definition tenant_lease_choose :: "inflight_stats \<Rightarrow> int \<Rightarrow> catalog \<Rightarrow> router_request \<Rightarrow> task_signals \<Rightarrow> routing_decision result" where
  "tenant_lease_choose fs lease cat r s =
     (let tenant = tenant_scope r;
          cs = eligible cat s;
          load = (\<lambda>c. tenant_load_score fs tenant (mc_provider c));
          under = filter (\<lambda>c. load c < lease) cs;
          quoted = [Lit [CHR 0x27], Str tenant, Lit [CHR 0x27]];
          key = (\<lambda>c. (lease \<le> load c, - mc_quality_score c, cost_of r s c, mc_model c))
      in if under \<noteq> []
         then pick_rest ''tenant-concurrency-lease'' cs (max_by (quality_model_key r s) under)
           (\<lambda>c. [Lit ''tenant-concurrency-lease selected under lease '', IntF lease, Lit '' for tenant ''] @ quoted @
             [Lit ''; '', Str (mc_provider c), Lit '' load '', IntF (load c), Lit ''/'', IntF lease,
              Lit '' with highest eligible quality '', Fixed 2 (mc_quality_score c)]) key
         else pick_rest ''tenant-concurrency-lease'' cs
           (min_by (\<lambda>c. (load c, - mc_quality_score c, cost_of r s c, mc_model c)) cs)
           (\<lambda>c. [Lit ''tenant-concurrency-lease found every eligible provider at or above lease '', IntF lease,
             Lit '' for tenant ''] @ quoted @ [Lit ''; routed to least-loaded fallback '', Str (mc_provider c), Lit '' load '',
             IntF (load c), Lit ''/'', IntF lease]) key)"

definition make_timeout_hedge :: "rat \<Rightarrow> rat result" where
  "make_timeout_hedge ratio = (if ratio < 1 then Inl ValueError else Inr ratio)"

definition timeout_hedge_choose :: "latency_stats \<Rightarrow> rat \<Rightarrow> catalog \<Rightarrow> router_request \<Rightarrow> task_signals \<Rightarrow> routing_decision result" where
  "timeout_hedge_choose ls ratio cat r s =
     (let cs = eligible cat s;
          lat = by_model (\<lambda>c. p95 ls (mc_provider c)) cs;
          observed = filter (\<lambda>c. 0 < lat c) cs;
          name = ''adaptive-timeout-hedge''
      in bind_result (of_opt ValueError (max_by (quality_model_key r s) cs)) (\<lambda>best.
         if observed = [] \<or> lat best \<le> 0
         then decision name cat (mc_model best)
           [Lit ''adaptive-timeout-hedge kept highest-quality '', Str (mc_model best),
            Lit ''; insufficient positive p95 observations for an adaptive hedge threshold'']
         else (let fastest_p95 = Min (set (map lat observed));
                   threshold = fmul fastest_p95 ratio;
                   faster = filter (\<lambda>c. mc_provider c \<noteq> mc_provider best \<and> lat c < lat best) observed;
                   basis = [Fixed 1 threshold, Lit ''ms (fastest observed '', Fixed 1 fastest_p95, Lit ''ms x '', Fixed 2 ratio, Lit '')'']
               in if threshold < lat best \<and> faster \<noteq> []
                  then pick_by name cat (min_by (\<lambda>c. (lat c, - mc_quality_score c, cost_of r s c, mc_model c)) faster)
                    (\<lambda>c. [Lit ''adaptive-timeout-hedge hedged from quality leader '', Str (mc_model best), Lit '' at p95 '',
                      Fixed 1 (lat best), Lit ''ms because it exceeded adaptive threshold ''] @ basis @
                      [Lit ''; selected faster alternative '', Str (mc_model c), Lit '' at p95 '', Fixed 1 (lat c), Lit ''ms''])
                  else decision name cat (mc_model best)
                    ([Lit ''adaptive-timeout-hedge kept quality leader '', Str (mc_model best), Lit '' at p95 '', Fixed 1 (lat best),
                      Lit ''ms within adaptive threshold ''] @ basis @
                     (if faster = [] then [Lit ''; no faster observed provider alternative''] else [])))))"

definition make_tail_hedge :: "rat \<Rightarrow> rat result" where
  "make_tail_hedge ms = (if ms < 0 then Inl ValueError else Inr ms)"

definition tail_hedge_choose :: "(string \<Rightarrow> bool) \<Rightarrow> latency_stats \<Rightarrow> rat \<Rightarrow> catalog \<Rightarrow> router_request \<Rightarrow> task_signals \<Rightarrow>
    routing_decision result" where
  "tail_hedge_choose healthy ls threshold cat r s =
     (let cs = prefer_active healthy cat s;
          lat = (\<lambda>c. p95 ls (mc_provider c));
          name = ''provider-tail-latency-hedge''
      in bind_result (of_opt ValueError (max_by (quality_model_key r s) cs)) (\<lambda>primary.
         let others = filter (\<lambda>c. mc_provider c \<noteq> mc_provider primary \<and> 0 < lat c) cs
         in if threshold < lat primary \<and> others \<noteq> []
            then pick_by name cat (min_by (\<lambda>c. (lat c, - mc_quality_score c, cost_of r s c, mc_model c)) others)
              (\<lambda>c. [Lit ''provider-tail-latency-hedge quality leader '', Str (mc_model primary), Lit '' tail p95 '', Fixed 1 (lat primary),
                Lit ''ms exceeded '', Fixed 1 threshold, Lit ''ms; hedged across providers to '', Str (mc_model c), Lit '' at p95 '',
                Fixed 1 (lat c), Lit ''ms''])
            else decision name cat (mc_model primary)
              [Lit ''provider-tail-latency-hedge stayed on quality leader '', Str (mc_model primary), Lit '': provider p95 '',
               Fixed 1 (lat primary), Lit ''ms, threshold '', Fixed 1 threshold, Lit ''ms ('',
               Lit (if others = [] then ''no observed healthy provider alternative'' else ''tail p95 remained within threshold''),
               Lit '')'']))"

subsection \<open>Request classes\<close>

datatype request_class = Interactive | BatchClass | BulkClass

fun class_value :: "request_class \<Rightarrow> string" where
  "class_value Interactive = ''interactive''"
| "class_value BatchClass = ''batch''"
| "class_value BulkClass = ''bulk''"

definition class_of_text :: "string \<Rightarrow> request_class option" where
  "class_of_text t = find (\<lambda>k. class_value k = t) [Interactive, BatchClass, BulkClass]"

fun first_class :: "py_val list \<Rightarrow> request_class" where
  "first_class [] = Interactive"
| "first_class (v # vs) = (if v = VNone then first_class vs
     else (case class_of_text (lower (strip (py_str v))) of Some k \<Rightarrow> k | None \<Rightarrow> first_class vs))"

text \<open>The values of a dict keyed by model\<close>

fun distinct_models :: "model_candidate list \<Rightarrow> model_candidate list" where
  "distinct_models [] = []"
| "distinct_models (c # cs) = (if mc_model c \<in> set (map mc_model cs) then distinct_models cs else c # distinct_models cs)"

definition request_class_choose :: "(string \<Rightarrow> bool) \<Rightarrow> latency_stats \<Rightarrow> catalog \<Rightarrow> router_request \<Rightarrow> task_signals \<Rightarrow>
    routing_decision result" where
  "request_class_choose healthy ls cat r s =
     (let k = first_class (map (metadata_get r) [''request_class'', ''qos_class'']);
          active = prefer_active healthy cat s;
          cost = by_model (cost_of r s) active;
          costs = sort (map cost (distinct_models active));
          median_cost = costs ! (length costs div 2);
          off_median = (\<lambda>c. \<bar>fsub (cost c) median_cost\<bar>);
          rationale = (\<lambda>policy c. [Lit ''request-class-qos mapped class '', Lit [CHR 0x27], Lit (class_value k), Lit [CHR 0x27], Lit '' to '',
            Lit policy, Lit ''; selected '', availability_note healthy cat s ''emergency'', Lit '' '', Str (mc_model c)])
      in case k of
        BulkClass \<Rightarrow> pick_rest ''request-class-qos'' active (min_by (by_cost cost) active)
          (rationale ''cheapest healthy route'') (by_cost cost)
      | BatchClass \<Rightarrow> if active = [] then Inl IndexError
          else pick_rest ''request-class-qos'' active
            (max_by (\<lambda>c. (mc_quality_score c, - off_median c, - cost c, mc_model c)) active)
            (rationale ''quality-first mid-cost route'')
            (\<lambda>c. (- mc_quality_score c, off_median c, cost c, mc_model c))
      | Interactive \<Rightarrow> pick_rest ''request-class-qos'' active (fastest ls cost active)
          (rationale ''lowest observed latency high-quality route'') (by_latency ls))"

subsection \<open>Success floor, capability gate and exclusion\<close>

definition success_floor_choose :: "(string \<Rightarrow> bool) \<Rightarrow> success_stats \<Rightarrow> rat \<Rightarrow> catalog \<Rightarrow> router_request \<Rightarrow> task_signals \<Rightarrow>
    routing_decision result" where
  "success_floor_choose healthy ss lowest cat r s =
     (let active = prefer_active healthy cat s;
          rate = by_model (\<lambda>c. success_rate ss (mc_provider c)) active;
          cost = by_model (cost_of r s) active;
          above = filter (\<lambda>c. lowest \<le> rate c) active;
          note = availability_note healthy cat s ''circuit-open emergency'';
          key = (\<lambda>c. (rate c < lowest, - rate c, by_quality cost c))
      in if above \<noteq> []
         then pick_rest ''provider-success-floor'' active
           (max_by (\<lambda>c. (mc_quality_score c, rate c, - cost c, mc_model c)) above)
           (\<lambda>c. [Lit ''provider-success-floor provider success '', Percent 2 (rate c), Lit '' meets floor '', Percent 2 lowest,
             Lit ''; selected '', note, Lit '' highest-quality provider meeting success floor '', Str (mc_model c)]) key
         else pick_rest ''provider-success-floor'' active
           (max_by (\<lambda>c. (rate c, mc_quality_score c, - cost c, mc_model c)) active)
           (\<lambda>c. [Lit ''provider-success-floor every eligible provider below floor '', Percent 2 lowest, Lit ''; retained '',
             Str (mc_provider c), Lit '' at '', Percent 2 (rate c), Lit ''; selected '', note,
             Lit '' emergency highest-success retain '', Str (mc_model c), Lit ''; emergency retain'']) key)"

text \<open>\<open>_required_capabilities\<close> and \<open>_parse_exclusion_list\<close>: a missing list is an empty one\<close>

definition name_list :: "string \<Rightarrow> router_request \<Rightarrow> string set" where
  "name_list key r = (case allowlist key r of None \<Rightarrow> {} | Some names \<Rightarrow> names)"

definition make_capability_gate :: "(string \<times> string set) list option \<Rightarrow> string \<rightharpoonup> string set" where
  "make_capability_gate given = (case given of
      Some (kv # kvs) \<Rightarrow> map_of (kv # kvs)
    | _ \<Rightarrow> known_model_capabilities)"

definition gate_capabilities :: "(string \<rightharpoonup> string set) \<Rightarrow> router_request \<Rightarrow> string \<Rightarrow> string set" where
  "gate_capabilities caps r model =
     (let known = (case caps model of Some ks \<Rightarrow> ks | None \<Rightarrow> {})
      in case nested_get r ''model_capabilities'' model of
           Some (VStr t) \<Rightarrow> override_set (VStr t)
         | Some (VList xs t) \<Rightarrow> override_set (VList xs t)
         | Some (VDict kvs t) \<Rightarrow> override_set (VDict kvs t)
         | _ \<Rightarrow> known)"

definition capability_gate_choose :: "(string \<rightharpoonup> string set) \<Rightarrow> (string \<Rightarrow> bool) \<Rightarrow> catalog \<Rightarrow> router_request \<Rightarrow> task_signals \<Rightarrow>
    routing_decision result" where
  "capability_gate_choose caps healthy cat r s =
     (let required = name_list ''required_capabilities'' r;
          active = prefer_active healthy cat s;
          offers = by_model (\<lambda>c. gate_capabilities caps r (mc_model c)) active;
          cost = by_model (cost_of r s) active;
          capable = (if required = {} then active else filter (\<lambda>c. required \<subseteq> offers c) active);
          note = availability_note healthy cat s ''circuit-open emergency'';
          names = (\<lambda>S. Names (sorted_list_of_set S))
      in if capable \<noteq> []
         then pick_rest ''model-capability-gate'' capable (best_quality cost capable)
           (\<lambda>c. Lit ''model-capability-gate '' #
             (if required \<noteq> {} then [Lit ''required capabilities '', names required, Lit '' satisfied by '', names (offers c)]
              else [Lit ''no required capabilities declared'']) @
             [Lit ''; selected '', note, Lit '' highest-quality capability match '', Str (mc_model c)]) (by_quality cost)
         else pick_rest ''model-capability-gate'' active (best_quality cost active)
           (\<lambda>c. [Lit ''model-capability-gate no candidate satisfies required capabilities '', names required, Lit ''; nearest '',
             Str (mc_model c), Lit '' offers '', names (offers c), Lit ''; selected '', note,
             Lit '' emergency quality-first retain '', Str (mc_model c), Lit ''; emergency retain'']) (by_quality cost))"

definition is_excluded :: "router_request \<Rightarrow> model_candidate \<Rightarrow> bool" where
  "is_excluded r c \<longleftrightarrow> lower (mc_provider c) \<in> name_list ''excluded_providers'' r \<or>
     lower (mc_model c) \<in> name_list ''excluded_models'' r"

definition exclusion_choose :: "(string \<Rightarrow> bool) \<Rightarrow> catalog \<Rightarrow> router_request \<Rightarrow> task_signals \<Rightarrow> routing_decision result" where
  "exclusion_choose healthy cat r s =
     (let active = prefer_active healthy cat s;
          cost = by_model (cost_of r s) active;
          kept = filter (\<lambda>c. \<not> is_excluded r c) active;
          names = (\<lambda>key. Names (sorted_list_of_set (name_list key r)));
          rationale = (\<lambda>policy end_note c. [Lit ''provider-exclusion excluded_providers='', names ''excluded_providers'',
            Lit '' excluded_models='', names ''excluded_models'', Lit ''; selected '',
            availability_note healthy cat s ''circuit-open emergency'', Lit '' '', Lit policy, Lit '' '', Str (mc_model c), Lit end_note])
      in if kept \<noteq> []
         then pick_rest ''provider-exclusion'' kept (best_quality cost kept)
           (rationale ''highest-quality after exclusion'' []) (by_quality cost)
         else pick_rest ''provider-exclusion'' (eligible cat s) (best_quality cost (eligible cat s))
           (rationale ''emergency quality-first retain from full eligible'' ''; emergency retain'') (by_quality cost))"

subsection \<open>The contract\<close>

lemma filter_sub: "set (filter P cs) \<subseteq> set cs"
  by (rule filter_is_subset)

interpretation tenant_lease: total_strategy "tenant_lease_choose fs n" for fs n
  by (rule total_strategyI, simp only: tenant_lease_choose_def Let_def,
      intro proper_if proper_pick_rest pool_rules eligible_pool filter_sub)

interpretation timeout_hedge: total_strategy "timeout_hedge_choose ls x" for ls x
proof (rule total_strategyI)
  fix cat r s
  assume wf: "wf_catalog cat"
  show "proper_result cat (timeout_hedge_choose ls x cat r s)"
    unfolding timeout_hedge_choose_def Let_def
    by (intro proper_bind proper_if proper_decision proper_pick_by by_None set_min_by wf)
       (use wf eligible_sub in \<open>auto dest!: max_by_in\<close>)
qed

interpretation tail_hedge: total_strategy "tail_hedge_choose h ls x" for h ls x
proof (rule total_strategyI)
  fix cat r s
  assume wf: "wf_catalog cat"
  show "proper_result cat (tail_hedge_choose h ls x cat r s)"
    unfolding tail_hedge_choose_def Let_def
    by (intro proper_bind proper_if proper_decision proper_pick_by by_None set_min_by wf)
       (use active_pool [OF wf, of h s] in \<open>auto dest!: max_by_in\<close>)
qed

lemma request_class_proper:
  assumes "wf_catalog cat" shows "proper_result cat (request_class_choose h ls cat r s)"
  unfolding request_class_choose_def Let_def
  by (cases "first_class (map (metadata_get r) [''request_class'', ''qos_class''])";
      simp only: request_class.case if_not_P [OF active_pool(1) [OF assms]];
      intro proper_pick_rest pool_rules active_pool assms)

interpretation request_classes: total_strategy "request_class_choose h ls" for h ls
  by (rule total_strategyI) (rule request_class_proper)

interpretation success_floor: total_strategy "success_floor_choose h ss x" for h ss x
  by (rule total_strategyI, simp only: success_floor_choose_def Let_def,
      intro proper_if proper_pick_rest pool_rules active_pool filter_sub)

lemma pool_filter:
  assumes "set cs \<subseteq> set (catalog_values cat)" "distinct (map mc_model cs)"
  shows "set (filter P cs) \<subseteq> set (catalog_values cat)" "distinct (map mc_model (filter P cs))"
  using assms by (auto simp: distinct_filter_models)

lemma pool_if:
  assumes "set cs \<subseteq> set (catalog_values cat)" "distinct (map mc_model cs)"
  shows "set (if b then cs else filter P cs) \<subseteq> set (catalog_values cat)" "distinct (map mc_model (if b then cs else filter P cs))"
  using pool_filter [OF assms, of P] assms by simp_all

interpretation capability_gate: total_strategy "capability_gate_choose caps h" for caps h
proof (rule total_strategyI)
  fix cat r s
  assume wf: "wf_catalog cat"
  note ap = active_pool [OF wf, of h s]
  show "proper_result cat (capability_gate_choose caps h cat r s)"
    unfolding capability_gate_choose_def Let_def
    by (intro proper_if proper_pick_rest pool_rules wf ap pool_if [OF ap(2,3)])
qed

interpretation exclusion: total_strategy "exclusion_choose h" for h
proof (rule total_strategyI)
  fix cat r s
  assume wf: "wf_catalog cat"
  note ap = active_pool [OF wf, of h s]
  show "proper_result cat (exclusion_choose h cat r s)"
    unfolding exclusion_choose_def Let_def
    by (intro proper_if proper_pick_rest pool_rules wf eligible_pool pool_filter [OF ap(2,3)])
qed

end
