(* ===== verification/Session_Stats.thy ===== *)
theory Session_Stats
  imports Guardrails Timed_Stats Strategy_Base
begin

text \<open>
  The statistics of \<open>src/router/strategies.py\<close> that one strategy alone reads and writes: session pins
  and their migrations, region warm-ups, expiring pins, request windows of tenants, and bounded
  lookback lists. \<open>now\<close> is \<open>time.monotonic()\<close>.
\<close>

subsection \<open>Counters\<close>

definition counted :: "('k \<rightharpoonup> int) \<Rightarrow> 'k \<Rightarrow> int" where
  "counted m k = (case m k of None \<Rightarrow> 0 | Some n \<Rightarrow> n)"

definition count_up :: "'k \<Rightarrow> ('k \<rightharpoonup> int) \<Rightarrow> 'k \<rightharpoonup> int" where
  "count_up k m = m(k \<mapsto> counted m k + 1)"

lemma counted_up [simp]: "counted (count_up k m) k' = counted m k' + (if k' = k then 1 else 0)"
  by (simp add: counted_def count_up_def)

subsection \<open>StickyRegionWarmupStats\<close>

record warmup_stats =
  wu_request_counts :: "string \<rightharpoonup> int"
  wu_pinned_regions :: "string \<rightharpoonup> string"

definition new_warmup_stats :: warmup_stats where
  "new_warmup_stats = \<lparr> wu_request_counts = Map.empty, wu_pinned_regions = Map.empty \<rparr>"

definition wu_advance :: "string \<Rightarrow> warmup_stats \<Rightarrow> int \<times> warmup_stats" where
  "wu_advance session wu = (counted (wu_request_counts wu) session + 1,
     wu\<lparr> wu_request_counts := count_up session (wu_request_counts wu) \<rparr>)"

definition wu_request_count :: "string \<Rightarrow> warmup_stats \<Rightarrow> int" where
  "wu_request_count session wu = counted (wu_request_counts wu) session"

definition wu_pinned_region :: "string \<Rightarrow> warmup_stats \<Rightarrow> string option" where
  "wu_pinned_region session wu = wu_pinned_regions wu session"

definition wu_pin :: "string \<Rightarrow> string \<Rightarrow> warmup_stats \<Rightarrow> unit result \<times> warmup_stats" where
  "wu_pin session region wu = (if norm_region region = [] then (Inl ValueError, wu)
     else (Inr (), wu\<lparr> wu_pinned_regions := (wu_pinned_regions wu)(session \<mapsto> norm_region region) \<rparr>))"

subsection \<open>TenantQuotaBurstStats\<close>

record quota_burst_stats =
  qb_window_seconds :: rat
  qb_requests :: "string \<rightharpoonup> rat list"

definition make_quota_burst_stats :: "rat \<Rightarrow> quota_burst_stats result" where
  "make_quota_burst_stats seconds = (if seconds \<le> 0 then Inl ValueError
     else Inr \<lparr> qb_window_seconds = seconds, qb_requests = Map.empty \<rparr>)"

definition qb_trim :: "string \<Rightarrow> rat \<Rightarrow> quota_burst_stats \<Rightarrow> rat list \<times> quota_burst_stats" where
  "qb_trim tenant now qb =
     (let cutoff = fsub now (qb_window_seconds qb);
          requests = filter (\<lambda>t. cutoff \<le> t) (get_list (qb_requests qb) tenant)
      in (requests, qb\<lparr> qb_requests := (qb_requests qb)(tenant := (if requests \<noteq> [] then Some requests else None)) \<rparr>))"

definition qb_record :: "rat \<Rightarrow> string \<Rightarrow> quota_burst_stats \<Rightarrow> quota_burst_stats" where
  "qb_record now tenant qb =
     snd (qb_trim tenant now (qb\<lparr> qb_requests := (qb_requests qb)(tenant \<mapsto> get_list (qb_requests qb) tenant @ [now]) \<rparr>))"

definition qb_usage :: "rat \<Rightarrow> string \<Rightarrow> quota_burst_stats \<Rightarrow> int \<times> quota_burst_stats" where
  "qb_usage now tenant qb = (let (requests, qb') = qb_trim tenant now qb in (int (length requests), qb'))"

subsection \<open>StickySessionMigrateStats and StickyRegionDrainStats\<close>

record migrate_stats =
  mg_pinned_models :: "string \<rightharpoonup> string"
  mg_migration_counts :: "string \<rightharpoonup> int"

definition new_migrate_stats :: migrate_stats where
  "new_migrate_stats = \<lparr> mg_pinned_models = Map.empty, mg_migration_counts = Map.empty \<rparr>"

definition mg_pinned_model :: "string \<Rightarrow> migrate_stats \<Rightarrow> string option" where
  "mg_pinned_model session mg = mg_pinned_models mg session"

definition mg_pin :: "string \<Rightarrow> string \<Rightarrow> migrate_stats \<Rightarrow> migrate_stats" where
  "mg_pin session model mg = mg\<lparr> mg_pinned_models := (mg_pinned_models mg)(session \<mapsto> model) \<rparr>"

definition mg_migrate :: "string \<Rightarrow> string \<Rightarrow> migrate_stats \<Rightarrow> migrate_stats" where
  "mg_migrate session model mg =
     (let mg1 = mg\<lparr> mg_pinned_models := (mg_pinned_models mg)(session \<mapsto> model) \<rparr>
      in case mg_pinned_models mg session of
           Some previous \<Rightarrow> if previous \<noteq> model
             then mg1\<lparr> mg_migration_counts := count_up session (mg_migration_counts mg1) \<rparr> else mg1
         | None \<Rightarrow> mg1)"

definition mg_migration_count :: "string \<Rightarrow> migrate_stats \<Rightarrow> int" where
  "mg_migration_count session mg = counted (mg_migration_counts mg) session"

record drain_stats =
  dr_pinned_regions :: "string \<rightharpoonup> string"
  dr_migration_counts :: "string \<rightharpoonup> int"

definition new_drain_stats :: drain_stats where
  "new_drain_stats = \<lparr> dr_pinned_regions = Map.empty, dr_migration_counts = Map.empty \<rparr>"

definition dr_pinned_region :: "string \<Rightarrow> drain_stats \<Rightarrow> string option" where
  "dr_pinned_region session dr = dr_pinned_regions dr session"

definition dr_pin :: "string \<Rightarrow> string \<Rightarrow> drain_stats \<Rightarrow> unit result \<times> drain_stats" where
  "dr_pin session region dr =
     (let normalized = norm_region region;
          moved = (case dr_pinned_regions dr session of None \<Rightarrow> False | Some previous \<Rightarrow> previous \<noteq> normalized);
          dr1 = (if moved then dr\<lparr> dr_migration_counts := count_up session (dr_migration_counts dr) \<rparr> else dr)
      in if normalized = [] then (Inl ValueError, dr)
         else (Inr (), dr1\<lparr> dr_pinned_regions := (dr_pinned_regions dr1)(session \<mapsto> normalized) \<rparr>))"

definition dr_migration_count :: "string \<Rightarrow> drain_stats \<Rightarrow> int" where
  "dr_migration_count session dr = counted (dr_migration_counts dr) session"

subsection \<open>Lookback lists\<close>

text \<open>
  \<open>ProviderColdStartStats\<close>, \<open>TenantFairQueueStats\<close> and \<open>TenantPriorityLaneStats\<close> keep the last
  \<open>lookback\<close> observations of some kind.
\<close>

record 'a lookback_stats =
  lb_lookback :: nat
  lb_observations :: "'a list"

definition make_lookback :: "int \<Rightarrow> 'a lookback_stats result" where
  "make_lookback n = (if n < 1 then Inl ValueError else Inr \<lparr> lb_lookback = nat n, lb_observations = [] \<rparr>)"

definition lb_observe :: "'a \<Rightarrow> 'a lookback_stats \<Rightarrow> 'a lookback_stats" where
  "lb_observe x lb = lb\<lparr> lb_observations := push (lb_lookback lb) x (lb_observations lb) \<rparr>"

definition lb_count :: "'a \<Rightarrow> 'a lookback_stats \<Rightarrow> int" where
  "lb_count x lb = int (count_list (lb_observations lb) x)"

definition total_observations :: "string set \<Rightarrow> string lookback_stats \<Rightarrow> int" where
  "total_observations providers lb = int (length (filter (\<lambda>p. p \<in> providers) (lb_observations lb)))"

definition active_tenants :: "string lookback_stats \<Rightarrow> string set" where
  "active_tenants lb = set (lb_observations lb)"

definition total_requests :: "string lookback_stats \<Rightarrow> int" where
  "total_requests lb = int (length (lb_observations lb))"

datatype tenant_lane = HighLane | NormalLane | LowLane

fun lane_value :: "tenant_lane \<Rightarrow> string" where
  "lane_value HighLane = ''high''"
| "lane_value NormalLane = ''normal''"
| "lane_value LowLane = ''low''"

definition at_quota :: "tenant_lane \<Rightarrow> int \<Rightarrow> tenant_lane lookback_stats \<Rightarrow> bool result" where
  "at_quota lane quota lb = (if quota < 1 then Inl ValueError else Inr (quota \<le> lb_count lane lb))"

subsection \<open>CanaryShadowSplitStats\<close>

record shadow_stats =
  sp_primary_counts :: "string \<rightharpoonup> int"
  sp_shadow_counts :: "(string \<times> int) list"
  sp_split_counts :: "string \<times> string \<rightharpoonup> int"

definition new_shadow_stats :: shadow_stats where
  "new_shadow_stats = \<lparr> sp_primary_counts = Map.empty, sp_shadow_counts = [], sp_split_counts = Map.empty \<rparr>"

definition sp_observe_primary :: "string \<Rightarrow> shadow_stats \<Rightarrow> shadow_stats" where
  "sp_observe_primary p sp = sp\<lparr> sp_primary_counts := count_up p (sp_primary_counts sp) \<rparr>"

definition sp_observe_shadow :: "string \<Rightarrow> string \<Rightarrow> shadow_stats \<Rightarrow> shadow_stats" where
  "sp_observe_shadow primary shadow sp =
     sp\<lparr> sp_shadow_counts := AList.update shadow (get_count (sp_shadow_counts sp) shadow + 1) (sp_shadow_counts sp),
         sp_split_counts := count_up (primary, shadow) (sp_split_counts sp) \<rparr>"

definition sp_primary_count :: "string \<Rightarrow> shadow_stats \<Rightarrow> int" where
  "sp_primary_count p sp = counted (sp_primary_counts sp) p"

definition sp_shadow_count :: "string \<Rightarrow> shadow_stats \<Rightarrow> int" where
  "sp_shadow_count p sp = get_count (sp_shadow_counts sp) p"

definition sp_split_count :: "string \<Rightarrow> string \<Rightarrow> shadow_stats \<Rightarrow> int" where
  "sp_split_count primary shadow sp = counted (sp_split_counts sp) (primary, shadow)"

definition total_shadows :: "shadow_stats \<Rightarrow> int" where
  "total_shadows sp = sum_list (map snd (sp_shadow_counts sp))"

subsection \<open>StickyModelPinExpireStats\<close>

record model_pin =
  pn_model :: string
  pn_expires_at :: rat

record pin_stats =
  pe_pins :: "string \<rightharpoonup> model_pin"
  pe_expiration_counts :: "string \<rightharpoonup> int"

definition new_pin_stats :: pin_stats where
  "new_pin_stats = \<lparr> pe_pins = Map.empty, pe_expiration_counts = Map.empty \<rparr>"

definition pe_pin :: "rat \<Rightarrow> string \<Rightarrow> string \<Rightarrow> rat \<Rightarrow> pin_stats \<Rightarrow> unit result \<times> pin_stats" where
  "pe_pin now session model ttl pe = (if ttl \<le> 0 then (Inl ValueError, pe)
     else (Inr (), pe\<lparr> pe_pins := (pe_pins pe)(session \<mapsto> \<lparr> pn_model = model, pn_expires_at = fadd now ttl \<rparr>) \<rparr>))"

definition pe_pinned_model :: "rat \<Rightarrow> string \<Rightarrow> pin_stats \<Rightarrow> string option \<times> pin_stats" where
  "pe_pinned_model now session pe = (case pe_pins pe session of
      None \<Rightarrow> (None, pe)
    | Some pin \<Rightarrow> if pn_expires_at pin \<le> now
        then (None, pe\<lparr> pe_pins := (pe_pins pe)(session := None),
          pe_expiration_counts := count_up session (pe_expiration_counts pe) \<rparr>)
        else (Some (pn_model pin), pe))"

definition pe_remaining_seconds :: "rat \<Rightarrow> string \<Rightarrow> pin_stats \<Rightarrow> rat" where
  "pe_remaining_seconds now session pe = (case pe_pins pe session of
      None \<Rightarrow> 0
    | Some pin \<Rightarrow> max 0 (fsub (pn_expires_at pin) now))"

definition pe_clear :: "string \<Rightarrow> pin_stats \<Rightarrow> pin_stats" where
  "pe_clear session pe = pe\<lparr> pe_pins := (pe_pins pe)(session := None) \<rparr>"

definition pe_expiration_count :: "string \<Rightarrow> pin_stats \<Rightarrow> int" where
  "pe_expiration_count session pe = counted (pe_expiration_counts pe) session"

text \<open>Every shadow is counted for its provider and for its pair.\<close>

lemma get_count_Cons: "get_count ((a, n) # m) p = (if p = a then n else get_count m p)"
  by (simp add: get_count_def)

lemma sum_counts_update: "sum_list (map snd (AList.update k (get_count m k + 1) m)) = sum_list (map snd m) + 1"
  by (induction m) (auto simp: get_count_Cons, simp add: get_count_def)

lemma total_shadows_observed [simp]: "total_shadows (sp_observe_shadow p q sp) = total_shadows sp + 1"
  by (simp add: total_shadows_def sp_observe_shadow_def sum_counts_update)

subsection \<open>All of them\<close>

text \<open>
  The statistics the router creates for these strategies, in the order of its constructor, and the
  probe counts that \<open>ProviderCircuitProbeStrategy\<close> keeps itself
\<close>

record session_state =
  se_warmup :: warmup_stats
  se_quota_burst :: quota_burst_stats
  se_migrate :: migrate_stats
  se_cold_start :: "string lookback_stats"
  se_fair_queue :: "string lookback_stats"
  se_drain :: drain_stats
  se_shadow :: shadow_stats
  se_pins :: pin_stats
  se_lanes :: "tenant_lane lookback_stats"
  se_probes :: "string \<rightharpoonup> int"

definition new_session_state :: "rat \<Rightarrow> int \<Rightarrow> int \<Rightarrow> int \<Rightarrow> session_state result" where
  "new_session_state burst_seconds cold_lookback fair_lookback lane_lookback =
     bind_result (make_quota_burst_stats burst_seconds) (\<lambda>burst.
     bind_result (make_lookback cold_lookback) (\<lambda>cold.
     bind_result (make_lookback fair_lookback) (\<lambda>fair.
     bind_result (make_lookback lane_lookback) (\<lambda>lanes.
     Inr \<lparr> se_warmup = new_warmup_stats, se_quota_burst = burst, se_migrate = new_migrate_stats,
       se_cold_start = cold, se_fair_queue = fair, se_drain = new_drain_stats, se_shadow = new_shadow_stats,
       se_pins = new_pin_stats, se_lanes = lanes, se_probes = Map.empty \<rparr>))))"

end
