(* ===== verification/Strategies_Session.thy ===== *)
theory Strategies_Session
  imports Strategies_Health Session_Stats
begin

text \<open>
  The strategies of \<open>src/router/strategies.py\<close> that keep a memory of sessions, tenants and providers
  of their own: region warm-up and drain, tenant bursts, session migration, cold starts, fair
  queues, canary shadows, expiring pins, priority lanes and circuit probes. As in
  Strategies_Window, a choice returns the statistics it leaves behind.
\<close>

subsection \<open>Building blocks\<close>

text \<open>A decision among \<open>cs\<close> with the sorted rest as fallbacks, and the statistics after it\<close>

definition pick_observe :: "strategy_name \<Rightarrow> model_candidate list \<Rightarrow> model_candidate option \<Rightarrow> (model_candidate \<Rightarrow> fstring) \<Rightarrow>
    (model_candidate \<Rightarrow> 'k::linorder) \<Rightarrow> (model_candidate \<Rightarrow> 's) \<Rightarrow> 's \<Rightarrow> routing_decision result \<times> 's" where
  "pick_observe name cs sel rationale key after st = (case sel of
      None \<Rightarrow> (Inl ValueError, st)
    | Some c \<Rightarrow> (Inr (decide name c (rationale c) (sorted_by key (without (mc_model c) cs))), after c))"

definition supports_region :: "string \<Rightarrow> model_candidate \<Rightarrow> bool" where
  "supports_region region c \<longleftrightarrow> region \<in> norm_region ` mc_supported_regions c"

definition request_region :: "router_request \<Rightarrow> string" where
  "request_region r = norm_region (case rq_region r of None \<Rightarrow> [] | Some x \<Rightarrow> x)"

definition quoted :: "string \<Rightarrow> fstring" where
  "quoted text = [Lit [CHR 0x27], Str text, Lit [CHR 0x27]]"

text \<open>\<open>[region.strip().lower() for region in (preferences or defaults) if region.strip()]\<close>\<close>

definition clean_regions :: "string list option \<Rightarrow> string list" where
  "clean_regions preferences = filter (\<lambda>region. region \<noteq> []) (make_sticky_region preferences)"

subsection \<open>Region warm-up\<close>

definition make_region_warmup :: "string list option \<Rightarrow> int \<Rightarrow> (string list \<times> int) result" where
  "make_region_warmup preferences n = (if n < 1 then Inl ValueError
     else let regions = clean_regions preferences in
       if regions = [] then Inl ValueError else Inr (regions, n))"

definition warmup_region :: "string list \<Rightarrow> router_request \<Rightarrow> string" where
  "warmup_region regions r = (let given = metadata_get r ''warmup_region'' in
     if given \<noteq> VNone \<and> strip (py_str given) \<noteq> [] then norm_region (py_str given) else hd regions)"

definition post_warmup_region :: "string list \<Rightarrow> warmup_stats \<Rightarrow> router_request \<Rightarrow> string \<Rightarrow> string" where
  "post_warmup_region regions wu r region = (case wu_pinned_region (rq_session_id r) wu of
      Some pinned \<Rightarrow> pinned
    | None \<Rightarrow> if request_region r \<noteq> [] then request_region r
        else let alternatives = or_else (filter (\<lambda>x. x \<noteq> region) regions) [region] in
          alternatives ! nat (hash32 (rq_session_id r) mod int (length alternatives)))"

definition warmup_pick :: "(string \<Rightarrow> bool) \<Rightarrow> router_request \<Rightarrow> model_candidate list \<Rightarrow> string \<Rightarrow> fstring \<Rightarrow>
    routing_decision result" where
  "warmup_pick healthy r cs region rationale =
     (let up = filter (\<lambda>c. healthy (mc_provider c));
          healthy_region = up (filter (supports_region region) cs);
          regional = (healthy_region \<noteq> []);
          pool = (if regional then healthy_region else or_else (up cs) cs);
          active_region = (if regional then region else ''fallback'');
          note = (if regional then [] else [Lit ''; region ''] @ quoted region @ [Lit '' unavailable, using healthy fallback pool'']);
          ordered = sorted_by mc_model pool;
          bucket = nat (hash32 (rq_session_id r @ '':'' @ active_region) mod int (length ordered));
          c = ordered ! bucket
      in if ordered = [] then Inl ZeroDivisionError
         else Inr (decide ''sticky-region-warmup'' c
           (rationale @ note @ [Lit ''; sticky bucket '', IntF (int bucket), Lit ''/'', IntF (int (length ordered)), Lit '' -> '',
             Str (mc_model c)])
           (without (mc_model c) ordered)))"

definition region_warmup_choose :: "(string \<Rightarrow> bool) \<Rightarrow> string list \<times> int \<Rightarrow> catalog \<Rightarrow> router_request \<Rightarrow> task_signals \<Rightarrow>
    warmup_stats \<Rightarrow> routing_decision result \<times> warmup_stats" where
  "region_warmup_choose healthy config cat r s wu =
     (let (regions, requests) = config;
          cs = eligible cat s;
          session = rq_session_id r;
          (n, wu1) = wu_advance session wu;
          region = warmup_region regions r;
          target = post_warmup_region regions wu1 r region
      in if n \<le> requests
         then (warmup_pick healthy r cs region
           ([Lit ''sticky-region-warmup warmup request '', IntF n, Lit ''/'', IntF requests, Lit '' for session ''] @ quoted session @
            [Lit '' in region ''] @ quoted region), wu1)
         else case (if wu_pinned_region session wu1 = None then wu_pin session target wu1 else (Inr (), wu1)) of
             (Inl e, wu2) \<Rightarrow> (Inl e, wu2)
           | (Inr _, wu2) \<Rightarrow> (warmup_pick healthy r cs target
               ([Lit ''sticky-region-warmup completed '', IntF requests, Lit '' warmup requests; pinned session ''] @ quoted session @
                [Lit '' to region ''] @ quoted target), wu2))"

subsection \<open>Tenant bursts\<close>

definition make_quota_burst :: "int \<Rightarrow> int \<Rightarrow> (int \<times> int) result" where
  "make_quota_burst soft hard = (if soft < 1 then Inl ValueError else if hard \<le> soft then Inl ValueError else Inr (soft, hard))"

definition quota_burst_choose :: "rat \<Rightarrow> int \<times> int \<Rightarrow> catalog \<Rightarrow> router_request \<Rightarrow> task_signals \<Rightarrow> quota_burst_stats \<Rightarrow>
    routing_decision result \<times> quota_burst_stats" where
  "quota_burst_choose now quotas cat r s qb =
     (let (soft, hard) = quotas;
          tenant = tenant_scope r;
          (usage, qb1) = qb_usage now tenant qb;
          cs = eligible cat s;
          cost = by_model (cost_of r s) cs
      in if hard \<le> usage then (Inl (TenantQuotaBurstExceededError tenant), qb1)
         else (let qb2 = qb_record now tenant qb1 in
           (if usage < soft
            then pick_rest ''tenant-quota-burst'' cs (best_quality cost cs)
              (\<lambda>c. [Lit ''tenant-quota-burst tenant ''] @ quoted tenant @ [Lit '' steady usage '', IntF (usage + 1), Lit ''/'', IntF soft,
                Lit ''; selected quality-first '', Str (mc_model c)]) (by_quality cost)
            else pick_rest ''tenant-quota-burst'' cs (min_by (by_cost cost) cs)
              (\<lambda>c. [Lit ''tenant-quota-burst tenant ''] @ quoted tenant @ [Lit '' admitted burst request '', IntF (usage + 1), Lit ''/'',
                IntF hard, Lit '' above soft quota '', IntF soft, Lit ''; shed to cheapest fallback '', Str (mc_model c)])
              (by_cost cost), qb2)))"

subsection \<open>Session migration\<close>

definition migrate_key :: "(string \<Rightarrow> bool) \<Rightarrow> success_stats \<Rightarrow> router_request \<Rightarrow> task_signals \<Rightarrow> model_candidate \<Rightarrow>
    bool \<times> rat \<times> rat \<times> rat \<times> string" where
  "migrate_key healthy ss r s c = (\<not> healthy (mc_provider c), - success_rate ss (mc_provider c), - mc_quality_score c, cost_of r s c,
     mc_model c)"

definition session_migrate_choose :: "(string \<Rightarrow> bool) \<Rightarrow> success_stats \<Rightarrow> rat \<Rightarrow> catalog \<Rightarrow> router_request \<Rightarrow> task_signals \<Rightarrow>
    migrate_stats \<Rightarrow> routing_decision result \<times> migrate_stats" where
  "session_migrate_choose healthy ss threshold cat r s mg =
     (let cs = eligible cat s;
          session = rq_session_id r;
          rate = (\<lambda>c. success_rate ss (mc_provider c));
          lookup = (\<lambda>m. find (\<lambda>c. mc_model c = m) (rev cs));
          ordered = sorted_by mc_model cs;
          kept = (case mg_pinned_model session mg of None \<Rightarrow> None | Some m \<Rightarrow> lookup m);
          initial = ordered ! nat (hash32 session mod int (length ordered));
          mg1 = (if kept = None then mg_pin session (mc_model initial) mg else mg);
          current = (case kept of Some c \<Rightarrow> Some c | None \<Rightarrow> lookup (mc_model initial));
          name = ''sticky-session-migrate'';
          decided = (\<lambda>c rationale. pick_rest name cs (Some c) (\<lambda>_. rationale) (migrate_key healthy ss r s))
      in if ordered = [] then (Inl ZeroDivisionError, mg)
         else (case current of
             None \<Rightarrow> (Inl (KeyError (mc_model initial)), mg1)
           | Some cur \<Rightarrow>
               (let available = healthy (mc_provider cur);
                    targets = filter (\<lambda>c. mc_provider c \<noteq> mc_provider cur \<and> healthy (mc_provider c) \<and> threshold \<le> rate c) cs
                in if available \<and> threshold \<le> rate cur
                   then (decided cur ([Lit ''sticky-session-migrate '', Lit (if kept = None then ''initialized'' else ''retained''),
                       Lit '' session ''] @ quoted session @ [Lit '' on '', Str (mc_model cur), Lit ''; provider available with success '',
                       Percent 2 (rate cur), Lit '' >= '', Percent 2 threshold]), mg1)
                   else (case max_by (\<lambda>c. (rate c, mc_quality_score c, - cost_of r s c, mc_model c)) targets of
                       None \<Rightarrow> (decided cur ([Lit ''sticky-session-migrate pinned provider '', Str (mc_provider cur), Lit '' degraded ('']
                         @ (if \<not> available then [Lit ''unavailable''] else [Lit ''at '', Percent 2 (rate cur)]) @
                         [Lit '') but no healthy target met '', Percent 2 threshold, Lit ''; preserved session pin'']), mg1)
                     | Some c \<Rightarrow> (let mg2 = mg_migrate session (mc_model c) mg1 in
                         (decided c ([Lit ''sticky-session-migrate moved session ''] @ quoted session @ [Lit '' from '', Str (mc_model cur),
                           Lit '' to healthier '', Str (mc_model c), Lit '': ''] @
                           (if \<not> available then [Lit ''provider unavailable'']
                            else [Lit ''success '', Percent 2 (rate cur), Lit '' below '', Percent 2 threshold]) @
                           [Lit ''; migration '', IntF (mg_migration_count session mg2)]), mg2))))))"

subsection \<open>Cold starts and fair queues\<close>

definition make_cold_start :: "int \<Rightarrow> int result" where
  "make_cold_start n = (if n < 1 then Inl ValueError else Inr n)"

definition cold_start_choose :: "(string \<Rightarrow> bool) \<Rightarrow> int \<Rightarrow> catalog \<Rightarrow> router_request \<Rightarrow> task_signals \<Rightarrow> string lookback_stats \<Rightarrow>
    routing_decision result \<times> string lookback_stats" where
  "cold_start_choose healthy target cat r s lb =
     (let cs = prefer_active healthy cat s;
          count = (\<lambda>c. lb_count (mc_provider c) lb);
          under = filter (\<lambda>c. count c < target) cs;
          lowest = Min (set (map count under));
          total = total_observations (mc_provider ` set cs) lb;
          name = ''provider-cold-start-bias'';
          key = (\<lambda>c. (count c, by_quality (cost_of r s) c));
          after = (\<lambda>c. lb_observe (mc_provider c) lb)
      in if under \<noteq> []
         then pick_observe name cs (max_by (quality_model_key r s) (filter (\<lambda>c. count c = lowest) under))
           (\<lambda>c. if total = 0
             then [Lit ''provider-cold-start-bias cold start; all healthy providers have 0/'', IntF target,
               Lit '' observations, selected highest-quality '', Str (mc_model c)]
             else [Lit ''provider-cold-start-bias filled exploration gap; selected least-observed healthy provider '', Str (mc_provider c),
               Lit '' at '', IntF (count c), Lit ''/'', IntF target, Lit '' observations within lookback '', IntF (int (lb_lookback lb))])
           key after lb
         else pick_observe name cs (max_by (quality_model_key r s) cs)
           (\<lambda>c. [Lit ''provider-cold-start-bias coverage warm; every healthy provider reached '', IntF target,
             Lit '' recent observations, selected highest-quality '', Str (mc_model c)])
           key after lb)"

definition fair_queue_choose :: "(string \<Rightarrow> bool) \<Rightarrow> catalog \<Rightarrow> router_request \<Rightarrow> task_signals \<Rightarrow> string lookback_stats \<Rightarrow>
    routing_decision result \<times> string lookback_stats" where
  "fair_queue_choose healthy cat r s lb =
     (let tenant = tenant_scope r;
          cs = prefer_active healthy cat s;
          fair_share = idiv (total_requests lb) (int (card (insert tenant (active_tenants lb))));
          count = lb_count tenant lb;
          deficit = fsub fair_share (fint count);
          name = ''tenant-fair-queue'';
          shares = [IntF count, Lit '' recent requests ''];
          numbers = [Lit ''fair share '', Fixed 2 fair_share, Lit '' (deficit '', Fixed 2 deficit, Lit '')''];
          after = (\<lambda>_. lb_observe tenant lb)
      in if of_int count \<le> fair_share
         then pick_observe name cs (max_by (quality_model_key r s) cs)
           (\<lambda>c. [Lit ''tenant-fair-queue deficit priority for tenant ''] @ quoted tenant @ [Lit '': ''] @ shares @ [Lit ''versus ''] @
             numbers @ [Lit ''; selected highest-quality healthy '', Str (mc_model c)])
           (by_quality (cost_of r s)) after lb
         else pick_observe name cs (min_by (by_cost (cost_of r s)) cs)
           (\<lambda>c. [Lit ''tenant-fair-queue relief lane for tenant ''] @ quoted tenant @ [Lit '': ''] @ shares @ [Lit ''exceeds ''] @
             numbers @ [Lit ''; selected cheapest healthy '', Str (mc_model c)])
           (by_cost (cost_of r s)) after lb)"

subsection \<open>Region drain\<close>

definition request_draining :: "router_request \<Rightarrow> string set" where
  "request_draining r = (case metadata_get r ''draining_regions'' of
      VNone \<Rightarrow> {}
    | VStr t \<Rightarrow> name_set (comma_parts t)
    | VList xs _ \<Rightarrow> name_set xs
    | v \<Rightarrow> name_set [v])"

text \<open>\<open>_draining_regions\<close> of the constructor\<close>

definition drained_regions :: "string list \<Rightarrow> string set" where
  "drained_regions draining = norm_region ` set (filter (\<lambda>region. strip region \<noteq> []) draining)"

definition ordered_regions :: "string list \<Rightarrow> string \<Rightarrow> model_candidate list \<Rightarrow> string list" where
  "ordered_regions regions desired cs =
     (let known = sorted_list_of_set (Set.filter (\<lambda>x. x \<noteq> []) (\<Union>c \<in> set cs. norm_region ` mc_supported_regions c))
      in fold (\<lambda>region ordered. if region \<in> set ordered then ordered else ordered @ [region]) (regions @ known) [desired])"

definition drain_candidates :: "(string \<Rightarrow> bool) \<Rightarrow> model_candidate list \<Rightarrow> string \<Rightarrow> model_candidate list" where
  "drain_candidates healthy cs region = filter (\<lambda>c. supports_region region c \<and> healthy (mc_provider c)) cs"

text \<open>\<open>pinned or requested or preferences[0]\<close>: None when the last raises IndexError\<close>

definition desired_region :: "string list \<Rightarrow> drain_stats \<Rightarrow> router_request \<Rightarrow> string option" where
  "desired_region regions dr r = (case dr_pinned_region (rq_session_id r) dr of
      Some (c # cs) \<Rightarrow> Some (c # cs)
    | _ \<Rightarrow> if request_region r \<noteq> [] then Some (request_region r)
        else (case regions of [] \<Rightarrow> None | region # _ \<Rightarrow> Some region))"

text \<open>The region and pool a request is served from, and why; \<open>[]\<close> is the empty reason.\<close>

definition drain_pool :: "(string \<Rightarrow> bool) \<Rightarrow> string list \<Rightarrow> string set \<Rightarrow> router_request \<Rightarrow> model_candidate list \<Rightarrow> string \<Rightarrow>
    string \<times> model_candidate list \<times> fstring" where
  "drain_pool healthy regions draining r cs desired =
     (let pool = drain_candidates healthy cs;
          marked = (desired \<in> draining);
          alternate = (if marked \<or> pool desired = []
            then find (\<lambda>region. region \<noteq> desired \<and> region \<notin> draining \<and> pool region \<noteq> []) (ordered_regions regions desired cs)
            else None);
          desired_cs = filter (supports_region desired) cs;
          session = quoted (rq_session_id r)
      in case alternate of
           Some region \<Rightarrow> (region, pool region,
             if marked then [Lit ''drained session ''] @ session @ [Lit '' away from marked region ''] @ quoted desired @
               [Lit '' to healthy alternate ''] @ quoted region
             else [Lit ''sticky region ''] @ quoted desired @ [Lit '' had no healthy providers; failed over session ''] @ session @
               [Lit '' to ''] @ quoted region)
         | None \<Rightarrow> if \<not> marked \<and> pool desired \<noteq> [] then (desired, pool desired, [])
             else (if desired_cs \<noteq> [] then desired else ''fallback'',
               or_else (pool desired) (or_else (filter (\<lambda>c. healthy (mc_provider c)) cs) (or_else desired_cs cs)),
               if marked then [Lit ''region ''] @ quoted desired @
                 [Lit '' is marked draining but no healthy non-draining alternate exists; emergency fallback retained'']
               else [Lit ''sticky region ''] @ quoted desired @
                 [Lit '' and alternates had no healthy regional pool; emergency fallback retained'']))"

definition region_drain_choose :: "(string \<Rightarrow> bool) \<Rightarrow> string list \<Rightarrow> string set \<Rightarrow> catalog \<Rightarrow> router_request \<Rightarrow> task_signals \<Rightarrow>
    drain_stats \<Rightarrow> routing_decision result \<times> drain_stats" where
  "region_drain_choose healthy regions draining cat r s dr =
     (case desired_region regions dr r of
        None \<Rightarrow> (Inl IndexError, dr)
      | Some desired \<Rightarrow>
          (let cs = eligible cat s;
               (active, pool, reason) = drain_pool healthy regions (draining \<union> request_draining r) r cs desired;
               (pinned, dr1) = dr_pin (rq_session_id r) active dr;
               ordered = sorted_by mc_model pool;
               bucket = nat (hash32 (rq_session_id r @ '':'' @ active) mod int (length ordered));
               c = ordered ! bucket;
               note = (if reason \<noteq> [] then reason else [Lit ''kept session ''] @ quoted (rq_session_id r) @
                 [Lit '' pinned to healthy non-draining region ''] @ quoted active)
           in case pinned of
             Inl e \<Rightarrow> (Inl e, dr1)
           | Inr _ \<Rightarrow> if ordered = [] then (Inl ZeroDivisionError, dr1)
               else (Inr (decide ''sticky-region-drain'' c
                 ([Lit ''sticky-region-drain ''] @ note @ [Lit ''; sticky bucket '', IntF (int bucket), Lit ''/'', IntF (int (length ordered)),
                   Lit '' -> '', Str (mc_model c)])
                 (sorted_by (\<lambda>k. (\<not> supports_region active k, - mc_quality_score k, mc_model k))
                   (filter (\<lambda>k. healthy (mc_provider k)) (without (mc_model c) cs)))), dr1)))"

subsection \<open>Canary shadows\<close>

definition make_shadow_split :: "string \<Rightarrow> rat \<Rightarrow> (string \<times> rat) result" where
  "make_shadow_split provider percent = (if norm_region provider = [] then Inl ValueError
     else if \<not> (0 \<le> percent \<and> percent \<le> 100) then Inl ValueError else Inr (norm_region provider, percent))"

definition split_key :: "router_request \<Rightarrow> string" where
  "split_key r =
     (case find (\<lambda>v. v \<noteq> VNone \<and> strip (py_str v) \<noteq> []) (map (metadata_get r) [''tenant_id'', ''sticky_key'']) of
        Some v \<Rightarrow> ''tenant:'' @ py_str v
      | None \<Rightarrow> if rq_user_id r \<noteq> ''anonymous'' then ''tenant:'' @ rq_user_id r else ''request:'' @ rq_request_id r)"

definition shadow_bucket :: "router_request \<Rightarrow> rat" where
  "shadow_bucket r = idiv (hash32 (split_key r)) 0x100000000"

definition shadow_split_choose :: "(string \<Rightarrow> bool) \<Rightarrow> string \<times> rat \<Rightarrow> catalog \<Rightarrow> router_request \<Rightarrow> task_signals \<Rightarrow>
    shadow_stats \<Rightarrow> routing_decision result \<times> shadow_stats" where
  "shadow_split_choose healthy config cat r s sp =
     (let (provider, percent) = config;
          cs = prefer_active healthy cat s;
          preferred = filter (\<lambda>c. lower (mc_provider c) = provider) cs;
          best = max_by (quality_model_key r s);
          bucket = fmul (shadow_bucket r) 100
      in case best (or_else preferred cs) of
           None \<Rightarrow> (Inl ValueError, sp)
         | Some c \<Rightarrow>
             (let secondary = best (filter (\<lambda>k. mc_provider k \<noteq> mc_provider c) cs);
                  sp1 = sp_observe_primary (mc_provider c) sp;
                  chosen = [Str (mc_model c), Lit '' ('', Str (mc_provider c), Lit '')''];
                  intro_text = (if preferred \<noteq> [] then [Lit ''provider-canary-shadow-split selected preferred primary ''] @ chosen
                    else [Lit ''provider-canary-shadow-split preferred provider ''] @ quoted provider @
                      [Lit '' unavailable; selected healthy primary ''] @ chosen);
                  shadowed = (\<lambda>k verb sign. [Lit ''; shadow candidate '', Str (mc_model k), Lit '' ('', Str (mc_provider k), Lit '') '',
                    Lit verb, Lit '' (bucket='', Fixed 2 bucket, Lit ''% '', Lit sign, Lit '' '', Fixed 2 percent, Lit ''%)'']);
                  (note, sp2) = (case secondary of
                      None \<Rightarrow> ([Lit ''; no different-provider shadow candidate is available''], sp1)
                    | Some k \<Rightarrow> if bucket < percent
                        then (shadowed k ''queued for comparison'' ''<'', sp_observe_shadow (mc_provider c) (mc_provider k) sp1)
                        else (shadowed k ''held off'' ''>='', sp1))
              in (Inr (decide ''provider-canary-shadow-split'' c (intro_text @ note)
                   (sorted_by (\<lambda>k. (Some k \<noteq> secondary, - mc_quality_score k, mc_model k)) (without (mc_model c) cs))), sp2)))"

subsection \<open>Expiring pins\<close>

definition make_pin_expire :: "rat \<Rightarrow> rat result" where
  "make_pin_expire ttl = (if ttl \<le> 0 then Inl ValueError else Inr ttl)"

definition quality_order :: "model_candidate \<Rightarrow> rat \<times> string" where
  "quality_order c = (- mc_quality_score c, mc_model c)"

text \<open>Selecting and pinning a model anew, after the reason it is needed\<close>

definition repin :: "rat \<Rightarrow> (string \<Rightarrow> bool) \<Rightarrow> rat \<Rightarrow> catalog \<Rightarrow> router_request \<Rightarrow> task_signals \<Rightarrow> fstring \<Rightarrow> pin_stats \<Rightarrow>
    routing_decision result \<times> pin_stats" where
  "repin now healthy ttl cat r s reason pe =
     (let cs = prefer_active healthy cat s
      in case max_by (quality_model_key r s) cs of
           None \<Rightarrow> (Inl ValueError, pe)
         | Some c \<Rightarrow> (case pe_pin now (rq_session_id r) (mc_model c) ttl pe of
               (Inl e, pe1) \<Rightarrow> (Inl e, pe1)
             | (Inr _, pe1) \<Rightarrow> (Inr (decide ''sticky-model-pin-expire'' c
                 ([Lit ''sticky-model-pin-expire ''] @ reason @ [Lit ''; selected '', availability_note healthy cat s ''emergency'',
                   Lit '' quality leader '', Str (mc_model c), Lit '' and created a '', Fixed 2 ttl, Lit ''s pin for session ''] @
                   quoted (rq_session_id r))
                 (sorted_by quality_order (without (mc_model c) cs))), pe1)))"

definition pin_expire_choose :: "rat \<Rightarrow> (string \<Rightarrow> bool) \<Rightarrow> rat \<Rightarrow> catalog \<Rightarrow> router_request \<Rightarrow> task_signals \<Rightarrow> pin_stats \<Rightarrow>
    routing_decision result \<times> pin_stats" where
  "pin_expire_choose now healthy ttl cat r s pe =
     (let cs = eligible cat s;
          session = rq_session_id r;
          (pinned, pe1) = pe_pinned_model now session pe;
          expired = pe_expiration_count session pe < pe_expiration_count session pe1;
          again = repin now healthy ttl cat r s
      in case pinned of
           None \<Rightarrow> again [Lit (if expired then ''model pin TTL expired'' else ''no existing model pin'')] pe1
         | Some m \<Rightarrow>
             if m \<notin> mc_model ` set cs then again [Lit ''pinned model is no longer domain-eligible''] (pe_clear session pe1)
             else (case map_of cat m of
                 None \<Rightarrow> (Inl (KeyError m), pe1)
               | Some c \<Rightarrow>
                   if healthy (mc_provider c)
                   then (Inr (decide ''sticky-model-pin-expire'' c
                     ([Lit ''sticky-model-pin-expire kept session ''] @ quoted session @ [Lit '' on unexpired pin '', Str (mc_model c),
                       Lit ''; '', Fixed 2 (pe_remaining_seconds now session pe1), Lit ''s remain''])
                     (sorted_by quality_order (filter (\<lambda>k. healthy (mc_provider k)) (without (mc_model c) cs)))), pe1)
                   else again [Lit ''pinned provider '', Str (mc_provider c), Lit '' became unavailable before TTL''] (pe_clear session pe1)))"

subsection \<open>Priority lanes\<close>

record lane_config =
  ln_high_tenants :: "string set"
  ln_low_tenants :: "string set"
  ln_quota :: "tenant_lane \<Rightarrow> int"

definition tenant_names :: "string list \<Rightarrow> string set" where
  "tenant_names tenants = set (filter (\<lambda>x. x \<noteq> []) (map strip tenants))"

definition make_priority_lanes :: "string list \<Rightarrow> string list \<Rightarrow> int \<Rightarrow> int \<Rightarrow> int \<Rightarrow> lane_config result" where
  "make_priority_lanes high low high_quota normal_quota low_quota =
     (if high_quota < 1 \<or> normal_quota < 1 \<or> low_quota < 1 then Inl ValueError
      else if tenant_names high \<inter> tenant_names low \<noteq> {} then Inl ValueError
      else Inr \<lparr> ln_high_tenants = tenant_names high, ln_low_tenants = tenant_names low,
        ln_quota = (\<lambda>lane. case lane of HighLane \<Rightarrow> high_quota | NormalLane \<Rightarrow> normal_quota | LowLane \<Rightarrow> low_quota) \<rparr>)"

definition lane_of :: "lane_config \<Rightarrow> router_request \<Rightarrow> string \<Rightarrow> tenant_lane" where
  "lane_of lc r tenant =
     (let given = metadata_get r ''priority_lane'';
          asked = (if given = VNone then None
            else find (\<lambda>lane. lane_value lane = lower (strip (py_str given))) [HighLane, NormalLane, LowLane])
      in case asked of
           Some lane \<Rightarrow> lane
         | None \<Rightarrow> if tenant \<in> ln_high_tenants lc then HighLane
             else if tenant \<in> ln_low_tenants lc then LowLane else NormalLane)"

definition priority_lanes_choose :: "(string \<Rightarrow> bool) \<Rightarrow> latency_stats \<Rightarrow> lane_config \<Rightarrow> catalog \<Rightarrow> router_request \<Rightarrow>
    task_signals \<Rightarrow> tenant_lane lookback_stats \<Rightarrow> routing_decision result \<times> tenant_lane lookback_stats" where
  "priority_lanes_choose healthy ls lc cat r s lb =
     (let tenant = tenant_scope r;
          lane = lane_of lc r tenant;
          cs = eligible cat s;
          healthy_cs = filter (\<lambda>c. healthy (mc_provider c)) cs;
          candidates = prefer_active healthy cat s;
          health_constrained = (mc_provider ` set healthy_cs \<noteq> mc_provider ` set cs);
          quota = ln_quota lc lane;
          cost = by_model (cost_of r s) candidates;
          name = ''tenant-priority-lanes'';
          after = (\<lambda>_. lb_observe lane lb)
      in case at_quota lane quota lb of
           Inl e \<Rightarrow> (Inl e, lb)
         | Inr quota_constrained \<Rightarrow>
             (let constrained = (health_constrained \<or> quota_constrained);
                  health_note = [Lit ''provider health reduced capacity''];
                  quota_note = [Lit (lane_value lane), Lit '' lane reached '', IntF quota, Lit '' recent decisions''];
                  note = (if health_constrained \<and> quota_constrained then health_note @ [Lit ''; ''] @ quota_note
                    else if health_constrained then health_note else if quota_constrained then quota_note
                    else [Lit ''capacity available'']);
                  rationale = (\<lambda>policy c. [Lit ''tenant-priority-lanes mapped tenant ''] @ quoted tenant @ [Lit '' to '',
                    Lit (lane_value lane), Lit '' lane; ''] @ note @ [Lit ''; selected '', Lit policy, Lit '' '', Str (mc_model c)])
              in if constrained \<and> lane = HighLane
                 then pick_observe name candidates (fastest ls cost candidates)
                   (rationale ''fastest observed healthy priority route'') (by_latency ls) after lb
                 else if constrained \<and> lane = LowLane
                 then pick_observe name candidates (min_by (by_cost cost) candidates)
                   (rationale ''cost-efficient relief route'') (by_cost cost) after lb
                 else pick_observe name candidates (best_quality cost candidates)
                   (rationale ''quality-first route'') (by_quality cost) after lb))"

subsection \<open>Circuit probes\<close>

definition make_circuit_probe :: "int \<Rightarrow> int result" where
  "make_circuit_probe n = (if n < 1 then Inl ValueError else Inr n)"

text \<open>The strategy object itself counts the probes of a provider.\<close>

definition circuit_probe_choose :: "(string \<Rightarrow> bool) \<Rightarrow> (string \<Rightarrow> bool) \<Rightarrow> int \<Rightarrow> catalog \<Rightarrow> router_request \<Rightarrow> task_signals \<Rightarrow>
    (string \<rightharpoonup> int) \<Rightarrow> routing_decision result \<times> (string \<rightharpoonup> int)" where
  "circuit_probe_choose healthy half_open budget cat r s probes =
     (let cs = eligible cat s;
          best = max_by (quality_model_key r s);
          name = ''provider-circuit-probe'';
          key = (\<lambda>c. (\<not> (healthy (mc_provider c) \<and> \<not> half_open (mc_provider c)), half_open (mc_provider c), - mc_quality_score c,
            cost_of r s c, mc_model c));
          shown = (\<lambda>c. [Str (mc_provider c), Lit ''/'', Str (mc_model c)])
      in case best cs of
           None \<Rightarrow> (Inl ValueError, probes)
         | Some leader \<Rightarrow>
             (let p = mc_provider leader;
                  others = or_else (filter (\<lambda>c. c \<noteq> leader) cs) [leader];
                  alternates = filter (\<lambda>c. mc_provider c \<noteq> p \<and> healthy (mc_provider c) \<and> \<not> half_open (mc_provider c)) cs;
                  used = counted probes p;
                  pick = (\<lambda>sel rationale probes'. (pick_rest name cs sel rationale key, probes'))
              in if healthy p \<and> \<not> half_open p
                 then pick (Some leader) (\<lambda>c. [Lit ''provider-circuit-probe kept closed quality leader ''] @ shown c @
                     [Lit '' at quality '', Fixed 2 (mc_quality_score c)]) (probes(p := None))
                 else if half_open p
                 then (if used < budget
                   then pick (Some leader) (\<lambda>c. [Lit ''provider-circuit-probe allowed half-open quality-leader probe '', IntF (used + 1),
                       Lit ''/'', IntF budget, Lit '' to ''] @ shown c) (count_up p probes)
                   else if alternates \<noteq> []
                   then pick (best alternates) (\<lambda>c. [Lit ''provider-circuit-probe exhausted half-open probe budget '', IntF used,
                       Lit ''/'', IntF budget, Lit '' for '', Str p, Lit ''; fell back to healthy ''] @ shown c) probes
                   else pick (best others) (\<lambda>c. [Lit ''provider-circuit-probe exhausted half-open leader budget with no healthy '',
                       Lit ''alternate; chose deterministic non-leader ''] @ shown c) probes)
                 else if alternates \<noteq> []
                 then pick (best alternates) (\<lambda>c. [Lit ''provider-circuit-probe quality leader ''] @ shown leader @
                     [Lit '' circuit open; actively selected healthy alternate ''] @ shown c) probes
                 else pick (best others) (\<lambda>c. [Lit ''provider-circuit-probe quality leader circuit open with no healthy '',
                     Lit ''alternate; chose deterministic fallback ''] @ shown c) probes))"

subsection \<open>The contract\<close>

text \<open>All of them but two always decide; a proper first component whatever the statistics are.\<close>

lemma total_statefulI:
  assumes "\<And>cat r s st. wf_catalog cat \<Longrightarrow> proper_result cat (fst (pick cat r s st))" shows "total_stateful_strategy pick"
proof
  show "wf_catalog cat \<Longrightarrow> pick cat r s st = (Inr d, st') \<Longrightarrow> decision_ok cat d" for cat r s st d st'
    using assms [of cat r s st] by (simp add: proper_result_def)
  show "wf_catalog cat \<Longrightarrow> \<exists>d. fst (pick cat r s st) = Inr d" for cat r s st
    using assms [of cat r s st] by (auto simp: proper_result_def)
qed

lemma proper_Inr: "decision_ok cat d \<Longrightarrow> proper_result cat (Inr d)"
  by (simp add: proper_result_def)

lemma proper_decide:
  assumes "wf_catalog cat" "c \<in> set (catalog_values cat)" "set rest \<subseteq> set (catalog_values cat)" "distinct (map mc_model rest)"
    "mc_model c \<notin> mc_model ` set rest"
  shows "proper_result cat (Inr (decide name c ra rest))"
  using decide_ok [OF assms] by (simp add: proper_result_def)

lemma proper_observe:
  assumes "wf_catalog cat" "sel \<noteq> None" "set_option sel \<subseteq> set pool" "set pool \<subseteq> set (catalog_values cat)"
    "distinct (map mc_model pool)"
  shows "proper_result cat (fst (pick_observe name pool sel ra key after st))"
  using assms(2,3) by (auto simp: pick_observe_def proper_result_def intro: decide_sorted_ok [OF assms(1) _ assms(4,5)])

lemma proper_fst_if:
  "(P \<Longrightarrow> proper_result cat (fst a)) \<Longrightarrow> (\<not> P \<Longrightarrow> proper_result cat (fst b)) \<Longrightarrow> proper_result cat (fst (if P then a else b))"
  by simp

lemma proper_sorted_arm:
  assumes "wf_catalog cat" "pool \<noteq> []" "set pool \<subseteq> set (catalog_values cat)" "distinct (map mc_model pool)"
  shows "sorted_by mc_model pool ! (n mod length (sorted_by mc_model pool)) \<in> set pool"
  using assms(2) nth_mem [of "n mod length pool" "sorted_by mc_model pool"] by simp

lemma lowest_nonempty:
  fixes f :: "'a \<Rightarrow> int"
  assumes "xs \<noteq> []" shows "filter (\<lambda>c. f c = Min (set (map f xs))) xs \<noteq> []"
proof -
  have "Min (set (map f xs)) \<in> set (map f xs)" using assms by (intro Min_in) simp_all
  then show ?thesis by (auto simp: filter_empty_conv)
qed

lemma filter2_sub: "set (filter P (filter Q cs)) \<subseteq> set cs"
  by auto

interpretation cold_start: total_stateful_strategy "cold_start_choose h n" for h n
  by (rule total_statefulI, simp only: cold_start_choose_def Let_def,
      intro proper_fst_if proper_observe active_pool pool_rules lowest_nonempty filter2_sub)

interpretation fair_queue: total_stateful_strategy "fair_queue_choose h" for h
  by (rule total_statefulI, simp only: fair_queue_choose_def Let_def,
      intro proper_fst_if proper_observe active_pool pool_rules)

interpretation priority_lanes: stateful_strategy "priority_lanes_choose h ls lc" for h ls lc
proof
  fix cat r s st d st'
  assume wf: "wf_catalog cat" and d: "priority_lanes_choose h ls lc cat r s st = (Inr d, st')"
  note ap = active_pool [OF wf, of h s]
  have "proper_result cat (fst (priority_lanes_choose h ls lc cat r s st))"
  proof (cases "at_quota (lane_of lc r (tenant_scope r)) (ln_quota lc (lane_of lc r (tenant_scope r))) st")
    case (Inr q)
    then show ?thesis
      unfolding priority_lanes_choose_def Let_def by (simp only: sum.case) (intro proper_fst_if proper_observe wf ap pool_rules)
  qed (use d in \<open>simp add: priority_lanes_choose_def Let_def\<close>)
  with d show "decision_ok cat d" by (simp add: proper_result_def)
qed

lemma priority_lanes_total:
  assumes "make_priority_lanes high low hq nq lq = Inr lc" "wf_catalog cat"
  shows "proper_result cat (fst (priority_lanes_choose h ls lc cat r s st))"
proof -
  have "1 \<le> ln_quota lc lane" for lane using assms(1) by (cases lane) (auto simp: make_priority_lanes_def split: if_splits)
  then obtain q where "at_quota (lane_of lc r (tenant_scope r)) (ln_quota lc (lane_of lc r (tenant_scope r))) st = Inr q"
    by (simp add: at_quota_def not_less)
  then show ?thesis
    unfolding priority_lanes_choose_def Let_def
    by (simp only: sum.case) (intro proper_fst_if proper_observe assms(2) active_pool pool_rules)
qed

interpretation circuit_probe: total_stateful_strategy "circuit_probe_choose h ho n" for h ho n
proof (rule total_statefulI)
  fix cat r s and probes :: "string \<rightharpoonup> int"
  assume wf: "wf_catalog cat"
  note ep = eligible_pool [OF wf, of s]
  obtain leader where l: "max_by (quality_model_key r s) (eligible cat s) = Some leader" "leader \<in> set (eligible cat s)"
    using max_by_Some [OF ep(1)] by blast
  have sel: "set_option (Some leader) \<subseteq> set (eligible cat s)" "Some leader \<noteq> None"
    "set (or_else (filter P (eligible cat s)) [leader]) \<subseteq> set (eligible cat s)" "or_else (filter P (eligible cat s)) [leader] \<noteq> []" for P
    using l(2) by (auto simp: or_else_def)
  show "proper_result cat (fst (circuit_probe_choose h ho n cat r s probes))"
    unfolding circuit_probe_choose_def Let_def l(1) option.case
    by (intro proper_fst_if; simp only: fst_conv; intro proper_pick_rest wf sel pool_rules ep filter_sub; assumption?)
qed

text \<open>A tenant below the hard quota is admitted, one that reached it is refused and nothing is recorded.\<close>

lemma quota_burst_admits:
  assumes "wf_catalog cat" "\<not> hard \<le> fst (qb_usage now (tenant_scope r) qb)"
  shows "proper_result cat (fst (quota_burst_choose now (soft, hard) cat r s qb))"
    "snd (quota_burst_choose now (soft, hard) cat r s qb) = qb_record now (tenant_scope r) (snd (qb_usage now (tenant_scope r) qb))"
  unfolding quota_burst_choose_def Let_def case_prod_beta fst_conv snd_conv if_not_P [OF assms(2)]
  by (intro proper_if proper_pick_rest assms(1) eligible_pool pool_rules, rule refl)

lemma quota_burst_refuses:
  assumes "hard \<le> fst (qb_usage now (tenant_scope r) qb)"
  shows "quota_burst_choose now (soft, hard) cat r s qb =
    (Inl (TenantQuotaBurstExceededError (tenant_scope r)), snd (qb_usage now (tenant_scope r) qb))"
  using assms by (simp add: quota_burst_choose_def Let_def case_prod_beta)

interpretation quota_burst: stateful_strategy "quota_burst_choose now qs" for now qs
proof
  fix cat r s st d st'
  assume wf: "wf_catalog cat" and d: "quota_burst_choose now qs cat r s st = (Inr d, st')"
  obtain soft hard where qs: "qs = (soft, hard)" by (cases qs)
  have "\<not> hard \<le> fst (qb_usage now (tenant_scope r) st)" using quota_burst_refuses d unfolding qs by fastforce
  from quota_burst_admits(1) [OF wf this, of soft s] d show "decision_ok cat d" by (simp add: qs proper_result_def)
qed

interpretation shadow_split: total_stateful_strategy "shadow_split_choose h config" for h config
proof (rule total_statefulI)
  fix cat r s sp
  assume wf: "wf_catalog cat"
  note ap = active_pool [OF wf, of h s]
  let ?pool = "or_else (filter (\<lambda>c. lower (mc_provider c) = fst config) (prefer_active h cat s)) (prefer_active h cat s)"
  obtain c where c: "max_by (quality_model_key r s) ?pool = Some c" "c \<in> set ?pool"
    using max_by_Some [of ?pool] ap(1) unfolding or_else_Nil by blast
  then have cin: "c \<in> set (prefer_active h cat s)" by (auto simp: or_else_def split: if_splits)
  show "proper_result cat (fst (shadow_split_choose h config cat r s sp))"
    unfolding shadow_split_choose_def Let_def case_prod_beta c(1) option.case fst_conv
    by (rule proper_Inr [OF decide_sorted_ok [OF wf cin ap(2,3)]])
qed

lemma repin_proper:
  assumes "wf_catalog cat" "0 < ttl" shows "proper_result cat (fst (repin now h ttl cat r s reason pe))"
proof -
  note ap = active_pool [OF assms(1), of h s]
  obtain c where c: "max_by (quality_model_key r s) (prefer_active h cat s) = Some c" "c \<in> set (prefer_active h cat s)"
    using max_by_Some [OF ap(1)] by blast
  show ?thesis using assms(2) decide_sorted_ok [OF assms(1) c(2) ap(2,3)]
    by (simp add: repin_def Let_def c(1) pe_pin_def proper_result_def)
qed

lemma pin_expire_proper:
  assumes wf: "wf_catalog cat" and ttl: "0 < ttl" shows "proper_result cat (fst (pin_expire_choose now h ttl cat r s pe))"
proof -
  obtain pinned pe1 where p: "pe_pinned_model now (rq_session_id r) pe = (pinned, pe1)" by fastforce
  note again = repin_proper [OF wf ttl]
  show ?thesis
  proof (cases pinned)
    case (Some m)
    show ?thesis
    proof (cases "m \<in> mc_model ` set (eligible cat s)")
      case True
      then obtain c where c: "c \<in> set (eligible cat s)" "mc_model c = m" by blast
      then have "map_of cat m = Some c" using map_of_values [OF wf eligible_value] by metis
      moreover have "proper_result cat (Inr (decide n c ra (sorted_by key (filter P (without (mc_model c) (eligible cat s))))))"
        for n ra P and key :: "model_candidate \<Rightarrow> rat \<times> string"
        using eligible_pool(2,3) [OF wf, of s]
        by (intro proper_decide [OF wf eligible_value [OF c(1)]])
           (auto simp: without_def sorted_models distinct_filter_models)
      ultimately show ?thesis using Some True again by (auto simp: pin_expire_choose_def Let_def p)
    qed (use Some again in \<open>auto simp: pin_expire_choose_def Let_def p\<close>)
  qed (use again in \<open>auto simp: pin_expire_choose_def Let_def p\<close>)
qed

text \<open>A hashed arm of a sorted pool\<close>

lemma hashed_arm:
  assumes "xs \<noteq> []" shows "xs ! nat (hash32 key mod int (length xs)) \<in> set xs"
proof (rule nth_mem)
  have "hash32 key mod int (length xs) < int (length xs)" using assms by (intro pos_mod_bound) simp
  then show "nat (hash32 key mod int (length xs)) < length xs" using assms by (simp add: nat_less_iff pos_mod_sign)
qed

interpretation session_migrate: total_stateful_strategy "session_migrate_choose h ss x" for h ss x
proof (rule total_statefulI)
  fix cat s mg and r :: router_request
  assume wf: "wf_catalog cat"
  let ?cs = "eligible cat s" and ?o = "sorted_by mc_model (eligible cat s)"
  let ?lookup = "\<lambda>m. find (\<lambda>c. mc_model c = m) (rev ?cs)"
  let ?kept = "case mg_pinned_model (rq_session_id r) mg of None \<Rightarrow> None | Some m \<Rightarrow> ?lookup m"
  let ?init = "?o ! nat (hash32 (rq_session_id r) mod int (length ?o))"
  note ep = eligible_pool [OF wf, of s]
  have found: "?lookup m = Some c \<Longrightarrow> c \<in> set ?cs" for m c by (auto simp: find_Some_iff) (metis length_rev nth_mem set_rev)
  have o: "?o \<noteq> []" using ep(1) by simp
  have "?init \<in> set ?cs" using hashed_arm [OF o] by simp
  then have "?lookup (mc_model ?init) \<noteq> None" by (auto simp: find_None_iff)
  then obtain cur where cur: "(case ?kept of Some c \<Rightarrow> Some c | None \<Rightarrow> ?lookup (mc_model ?init)) = Some cur" "cur \<in> set ?cs"
    using found by (cases ?kept) (fastforce split: option.splits)+
  have pick: "c \<in> set ?cs \<Longrightarrow> proper_result cat (pick_rest n ?cs (Some c) ra key)" for n c ra
      and key :: "model_candidate \<Rightarrow> bool \<times> rat \<times> rat \<times> rat \<times> string"
    by (intro proper_pick_rest wf ep) simp_all
  have target: "max_by f (filter P ?cs) = Some c \<Longrightarrow> c \<in> set ?cs" for P c and f :: "model_candidate \<Rightarrow> rat \<times> rat \<times> rat \<times> string"
    by (auto dest: max_by_in)
  show "proper_result cat (fst (session_migrate_choose h ss x cat r s mg))"
    unfolding session_migrate_choose_def Let_def if_not_P [OF o] cur(1) option.case
    by (intro proper_fst_if) (auto intro!: pick cur(2) target split: option.split)
qed

lemma space_lower: "is_space (lower_char c) = is_space c"
proof -
  have "(of_char c :: nat) < 256" by simp
  then show ?thesis by (auto simp: lower_char_def is_space_def Let_def)
qed

lemma strip_lower: "strip (lower s) = lower (strip s)"
  by (simp add: strip_def lower_def rev_map dropWhile_map comp_def space_lower)

lemma norm_norm [simp]: "norm_region (norm_region region) = norm_region region"
  by (simp add: norm_region_def strip_lower)

text \<open>Regions that are normalised and not blank\<close>

definition proper_region :: "string \<Rightarrow> bool" where
  "proper_region region \<longleftrightarrow> region \<noteq> [] \<and> norm_region region = region"

lemma proper_region_norm: "norm_region region \<noteq> [] \<Longrightarrow> proper_region (norm_region region)"
  by (simp add: proper_region_def)

lemma norm_region_blank [simp]: "norm_region x = [] \<longleftrightarrow> strip x = []"
  by (simp add: norm_region_def lower_def)

lemma clean_regions_proper: "region \<in> set (clean_regions ps) \<Longrightarrow> proper_region region"
  by (auto simp: clean_regions_def make_sticky_region_def proper_region_def norm_region_def [symmetric])

lemma arm_in_pool:
  assumes "pool \<noteq> []" shows "sorted_by mc_model pool ! nat (hash32 key mod int (length (sorted_by mc_model pool))) \<in> set pool"
  using hashed_arm [of "sorted_by mc_model pool" key] assms by simp

lemma warmup_pick_proper:
  assumes wf: "wf_catalog cat" shows "proper_result cat (warmup_pick h r (eligible cat s) region ra)"
proof -
  let ?pool = "if filter (\<lambda>c. h (mc_provider c)) (filter (supports_region region) (eligible cat s)) \<noteq> []
    then filter (\<lambda>c. h (mc_provider c)) (filter (supports_region region) (eligible cat s))
    else or_else (filter (\<lambda>c. h (mc_provider c)) (eligible cat s)) (eligible cat s)"
  note ep = eligible_pool [OF wf, of s]
  have pool: "?pool \<noteq> []" "set ?pool \<subseteq> set (catalog_values cat)" "distinct (map mc_model ?pool)"
    using ep by (auto simp: or_else_def distinct_filter_models)
  note arm = arm_in_pool [OF pool(1)]
  have "decision_ok cat (decide n (sorted_by mc_model ?pool ! nat (hash32 key mod int (length (sorted_by mc_model ?pool)))) rat
      (without (mc_model (sorted_by mc_model ?pool ! nat (hash32 key mod int (length (sorted_by mc_model ?pool))))) (sorted_by mc_model ?pool)))"
    for n key rat
    by (intro decide_ok wf subsetD [OF pool(2) arm])
       (use pool(2,3) in \<open>auto simp: without_def distinct_filter_models sorted_models\<close>)
  then show ?thesis
    unfolding warmup_pick_def Let_def sorted_by_Nil if_not_P [OF pool(1)] by (rule proper_Inr)
qed

lemma proper_region_strip: "proper_region x \<Longrightarrow> strip x \<noteq> []"
  by (auto simp: proper_region_def norm_region_def lower_def)

lemma region_warmup_total:
  assumes "make_region_warmup ps n = Inr config" "wf_catalog cat"
  shows "proper_result cat (fst (region_warmup_choose h config cat r s wu))"
proof -
  obtain regions k where c: "config = (regions, k)" "regions = clean_regions ps" "regions \<noteq> []"
    using assms(1) by (auto simp: make_region_warmup_def Let_def split: if_splits)
  have reg: "proper_region (warmup_region regions r)"
    using clean_regions_proper [of "hd regions" ps] c(2,3)
    by (auto simp: warmup_region_def Let_def norm_region_blank intro!: proper_region_norm)
  have target: "wu_pinned_region (rq_session_id r) w = None \<Longrightarrow> proper_region (post_warmup_region regions w r (warmup_region regions r))" for w
  proof -
    assume free: "wu_pinned_region (rq_session_id r) w = None"
    let ?alt = "or_else (filter (\<lambda>x. x \<noteq> warmup_region regions r) regions) [warmup_region regions r]"
    have "set ?alt \<subseteq> insert (warmup_region regions r) (set regions)" "?alt \<noteq> []" by (auto simp: or_else_def)
    moreover have "x \<in> set regions \<Longrightarrow> proper_region x" for x using clean_regions_proper c(2) by simp
    ultimately have "proper_region x" if "x \<in> set ?alt" for x
      using that reg by blast
    then have "proper_region (?alt ! nat (hash32 (rq_session_id r) mod int (length ?alt)))"
      using hashed_arm [OF \<open>?alt \<noteq> []\<close>] by blast
    then show ?thesis
      using free by (simp add: post_warmup_region_def Let_def proper_region_norm request_region_def)
  qed
  obtain m wu1 where adv: "wu_advance (rq_session_id r) wu = (m, wu1)" by fastforce
  let ?t = "post_warmup_region regions wu1 r (warmup_region regions r)"
  obtain wu2 where "(if wu_pinned_region (rq_session_id r) wu1 = None then wu_pin (rq_session_id r) ?t wu1 else (Inr (), wu1)) = (Inr (), wu2)"
    using target [of wu1] by (cases "wu_pinned_region (rq_session_id r) wu1") (auto simp: wu_pin_def proper_region_strip)
  then show ?thesis using warmup_pick_proper [OF assms(2)]
    by (simp add: region_warmup_choose_def Let_def c(1) adv)
qed

text \<open>Drains\<close>

definition drain_ok :: "drain_stats \<Rightarrow> bool" where
  "drain_ok dr \<longleftrightarrow> (\<forall>session region. dr_pinned_regions dr session = Some region \<longrightarrow> proper_region region)"

lemma dr_pin_ok: "drain_ok dr \<Longrightarrow> drain_ok (snd (dr_pin session region dr))"
  by (auto simp: drain_ok_def dr_pin_def Let_def proper_region_def split: option.splits)

lemma ordered_regions_in:
  "set (ordered_regions regions desired cs) \<subseteq> insert desired (set regions \<union> {x. x \<noteq> [] \<and> x \<in> range norm_region})"
proof -
  have keep: "set (fold (\<lambda>region ordered. if region \<in> set ordered then ordered else ordered @ [region]) xs acc) \<subseteq> set acc \<union> set xs"
    for xs acc :: "string list"
  proof (induction xs arbitrary: acc)
    case (Cons a xs)
    then show ?case using Cons.IH [of acc] Cons.IH [of "acc @ [a]"] by auto
  qed simp
  let ?known = "sorted_list_of_set (Set.filter (\<lambda>x. x \<noteq> []) (\<Union>c \<in> set cs. norm_region ` mc_supported_regions c))"
  have "set ?known \<subseteq> {x. x \<noteq> [] \<and> x \<in> range norm_region}"
    by (cases "finite (Set.filter (\<lambda>x. x \<noteq> []) (\<Union>c \<in> set cs. norm_region ` mc_supported_regions c))") (auto simp: sorted_list_of_set.fold_insort_key.infinite)
  then show ?thesis using keep [of "regions @ ?known" "[desired]"] by (auto simp: ordered_regions_def Let_def)
qed

lemma drain_pool_usable:
  assumes wf: "wf_catalog cat" and pool: "drain_pool h regions draining r (eligible cat s) desired = (active, pool, reason)"
  shows "pool \<noteq> []" "set pool \<subseteq> set (eligible cat s)" "distinct (map mc_model pool)"
proof -
  let ?cs = "eligible cat s"
  note ep = eligible_pool [OF wf, of s]
  have sub: "set (drain_candidates h ?cs x) \<subseteq> set ?cs" "distinct (map mc_model (drain_candidates h ?cs x))" for x
    using ep(3) by (auto simp: drain_candidates_def distinct_filter_models)
  show "pool \<noteq> []" "set pool \<subseteq> set ?cs" "distinct (map mc_model pool)"
    using pool sub ep
    by (auto simp: drain_pool_def Let_def or_else_def distinct_filter_models find_Some_iff split: if_splits option.splits)
qed

lemma drain_pool_region:
  assumes pool: "drain_pool h regions draining r cs desired = (active, pool, reason)"
    and desired: "proper_region desired" and regions: "\<forall>x \<in> set regions. proper_region x"
  shows "proper_region active"
proof -
  let ?alt = "if desired \<in> draining \<or> drain_candidates h cs desired = []
    then find (\<lambda>x. x \<noteq> desired \<and> x \<notin> draining \<and> drain_candidates h cs x \<noteq> []) (ordered_regions regions desired cs) else None"
  have fallback: "proper_region ''fallback''" by code_simp
  show ?thesis
  proof (cases ?alt)
    case (Some x)
    then have "x \<in> set (ordered_regions regions desired cs)" by (auto simp: find_Some_iff split: if_splits)
    then have "proper_region x" using ordered_regions_in desired regions by (fastforce simp: proper_region_def)
    then show ?thesis using pool Some by (simp add: drain_pool_def Let_def)
  next
    case None
    then show ?thesis using pool desired fallback by (auto simp: drain_pool_def Let_def split: if_splits)
  qed
qed

lemma region_drain_chosen:
  assumes wf: "wf_catalog cat" and d: "fst (region_drain_choose h regions draining cat r s dr) = Inr d"
  shows "decision_ok cat d"
proof (cases "desired_region regions dr r")
  case None
  then show ?thesis using d by (simp add: region_drain_choose_def)
next
  case (Some desired)
  obtain active pool reason where p: "drain_pool h regions (draining \<union> request_draining r) r (eligible cat s) desired = (active, pool, reason)"
    by (metis prod_cases3)
  note pp = drain_pool_usable [OF wf p]
  have "decision_ok cat (decide n c ra (sorted_by key (filter P (without (mc_model c) (eligible cat s)))))"
    if "c \<in> set pool" for n c ra P and key :: "model_candidate \<Rightarrow> bool \<times> rat \<times> string"
    using eligible_pool(2,3) [OF wf, of s] pp that
    by (intro decide_ok wf) (auto simp: without_def sorted_models distinct_filter_models)
  then show ?thesis
    using d pp(1) arm_in_pool [OF pp(1)] by (auto simp: region_drain_choose_def Let_def Some p split: prod.splits sum.splits)
qed

text \<open>As long as the pins are normalised, a request is always decided, and the pins stay normalised.\<close>

lemma region_drain_total:
  assumes wf: "wf_catalog cat" and regions: "regions \<noteq> []" "\<forall>x \<in> set regions. proper_region x" and dr: "drain_ok dr"
  shows "\<exists>d. fst (region_drain_choose h regions draining cat r s dr) = Inr d"
proof -
  have "\<exists>x. desired_region regions dr r = Some x \<and> proper_region x"
    using regions dr proper_region_norm [of "case rq_region r of None \<Rightarrow> [] | Some x \<Rightarrow> x"]
    by (cases regions) (auto simp: desired_region_def dr_pinned_region_def drain_ok_def request_region_def proper_region_def
      split: option.splits list.splits)
  then obtain desired where d: "desired_region regions dr r = Some desired" "proper_region desired" by blast
  obtain active pool reason where p: "drain_pool h regions (draining \<union> request_draining r) r (eligible cat s) desired = (active, pool, reason)"
    by (metis prod_cases3)
  obtain dr1 where "dr_pin (rq_session_id r) active dr = (Inr (), dr1)"
    using drain_pool_region [OF p d(2) regions(2)] by (auto simp: dr_pin_def Let_def proper_region_strip)
  then show ?thesis
    using drain_pool_usable(1) [OF wf p] by (simp add: region_drain_choose_def Let_def d(1) p)
qed

lemma region_drain_keeps:
  assumes dr: "drain_ok dr" shows "drain_ok (snd (region_drain_choose h regions draining cat r s dr))"
  using dr dr_pin_ok [OF dr]
  by (auto simp: region_drain_choose_def Let_def split: option.splits sum.splits prod.splits) (metis snd_conv)+

end
