(* ===== verification/Lifecycle.thy ===== *)
theory Lifecycle
  imports Prelude
begin

text \<open>
  The request lifecycle of \<open>src/router/state.py\<close>: the seven states, the table of allowed
  transitions, and \<open>RoutingStateMachine.transition\<close>, which keeps the state and raises when the
  table does not allow the move. \<open>lifecycle_step\<close> is the same table as a step relation, for the
  reachability lemmas.
\<close>

datatype request_state = RECEIVED | CLASSIFIED | ROUTED | DISPATCHED | RESPONDED | FALLBACK | FAILED

fun state_value :: "request_state \<Rightarrow> string" where
  "state_value RECEIVED = ''RECEIVED''"
| "state_value CLASSIFIED = ''CLASSIFIED''"
| "state_value ROUTED = ''ROUTED''"
| "state_value DISPATCHED = ''DISPATCHED''"
| "state_value RESPONDED = ''RESPONDED''"
| "state_value FALLBACK = ''FALLBACK''"
| "state_value FAILED = ''FAILED''"

fun allowed_transitions :: "request_state \<Rightarrow> request_state set" where
  "allowed_transitions RECEIVED = {CLASSIFIED, FAILED}"
| "allowed_transitions CLASSIFIED = {ROUTED, FAILED}"
| "allowed_transitions ROUTED = {DISPATCHED, FAILED}"
| "allowed_transitions DISPATCHED = {RESPONDED, FALLBACK, FAILED}"
| "allowed_transitions FALLBACK = {DISPATCHED, RESPONDED, FAILED}"
| "allowed_transitions RESPONDED = {}"
| "allowed_transitions FAILED = {}"

definition transition :: "request_state \<Rightarrow> request_state \<Rightarrow> request_state result" where
  "transition current next_state =
     (if next_state \<in> allowed_transitions current then Inr next_state
      else Inl (StateTransitionError (state_value current) (state_value next_state)))"

text \<open>A sequence of requested moves; the first refused one raises.\<close>

fun transitions :: "request_state \<Rightarrow> request_state list \<Rightarrow> request_state result" where
  "transitions s [] = Inr s"
| "transitions s (t # ts) = bind_result (transition s t) (\<lambda>s'. transitions s' ts)"

inductive lifecycle_step :: "request_state \<Rightarrow> request_state \<Rightarrow> bool" where
  step: "t \<in> allowed_transitions s \<Longrightarrow> lifecycle_step s t"

inductive_simps lifecycle_step_simps: "lifecycle_step s t"

lemma transition_Inr [simp]: "transition s t = Inr u \<longleftrightarrow> lifecycle_step s t \<and> u = t"
  by (auto simp: transition_def lifecycle_step_simps)

lemma transition_Inl: "transition s t = Inl e \<longleftrightarrow>
  \<not> lifecycle_step s t \<and> e = StateTransitionError (state_value s) (state_value t)"
  by (auto simp: transition_def lifecycle_step_simps)

definition terminal :: "request_state \<Rightarrow> bool" where
  "terminal s \<longleftrightarrow> s = RESPONDED \<or> s = FAILED"

lemma terminal_iff_stuck: "terminal s \<longleftrightarrow> (\<forall>t. \<not> lifecycle_step s t)"
  by (cases s) (auto simp: terminal_def lifecycle_step_simps)

lemma transitions_append:
  "transitions s (ts @ us) = bind_result (transitions s ts) (\<lambda>s'. transitions s' us)"
  by (induction ts arbitrary: s) (auto simp: transition_def)

lemma transitions_terminal:
  "terminal s \<Longrightarrow> transitions s ts = Inr t \<Longrightarrow> ts = [] \<and> t = s"
  by (cases ts) (auto simp: bind_result_Inr terminal_iff_stuck)

lemma transitions_FAILED [simp]: "transitions FAILED ts = Inr u \<longleftrightarrow> ts = [] \<and> u = FAILED"
  by (cases ts) (auto simp: bind_result_Inr lifecycle_step_simps)

lemma transitions_RESPONDED [simp]: "transitions RESPONDED ts = Inr u \<longleftrightarrow> ts = [] \<and> u = RESPONDED"
  by (cases ts) (auto simp: bind_result_Inr lifecycle_step_simps)

lemma transitions_responded_last:
  assumes "transitions s ts = Inr u" "ts = us @ [t] @ vs" "terminal t"
  shows "vs = [] \<and> u = t"
  using assms by (auto simp: transitions_append bind_result_Inr dest: transitions_terminal)

text \<open>
  C1. A request reaches RESPONDED only through CLASSIFIED, ROUTED and at least one DISPATCHED, in
  this order, and whatever sequence of moves the engine asks for, the machine never leaves
  RESPONDED or FAILED: a terminal move is the last one that succeeds.
\<close>

theorem responded_was_dispatched:
  assumes "transitions RECEIVED ts = Inr RESPONDED"
  shows "\<exists>us. ts = CLASSIFIED # ROUTED # DISPATCHED # us \<and> last ts = RESPONDED \<and>
    (\<forall>i < length ts - 1. \<not> terminal (ts ! i))"
proof -
  from assms obtain us where us: "ts = CLASSIFIED # ROUTED # DISPATCHED # us"
    by (cases ts; cases "tl ts"; cases "tl (tl ts)")
       (auto simp: bind_result_Inr lifecycle_step_simps)
  have lastmove: "t = RESPONDED \<and> vs = []" if "ts = xs @ [t] @ vs" "terminal t" for xs t vs
    using transitions_responded_last [OF assms that] by auto
  have "\<not> terminal (ts ! i)" if "i < length ts - 1" for i
  proof
    assume t: "terminal (ts ! i)"
    have "ts = take i ts @ [ts ! i] @ drop (Suc i) ts" using that by (simp add: id_take_nth_drop)
    then have "drop (Suc i) ts = []" using t lastmove by blast
    with that show False by simp
  qed
  moreover have "last ts = RESPONDED"
  proof -
    have "ts \<noteq> []" using us by simp
    then have "transitions RECEIVED (butlast ts @ [last ts]) = Inr RESPONDED" using assms by simp
    then show ?thesis by (auto simp: transitions_append bind_result_Inr)
  qed
  ultimately show ?thesis using us by blast
qed

theorem responded_was_dispatched_witness:
  "\<exists>us. [CLASSIFIED, ROUTED, DISPATCHED, FALLBACK, DISPATCHED, RESPONDED]
    = CLASSIFIED # ROUTED # DISPATCHED # us"
proof -
  have "transitions RECEIVED [CLASSIFIED, ROUTED, DISPATCHED, FALLBACK, DISPATCHED, RESPONDED]
    = Inr RESPONDED" by (simp add: transition_def)
  from responded_was_dispatched [OF this] show ?thesis by blast
qed

end
