(* ===== verification/Scoreboard.thy ===== *)
theory Scoreboard
  imports Schemas
begin

text \<open>
  The provider scoreboard of \<open>src/router/fallback_scoreboard.py\<close>: per provider, decaying sums of
  attempts, successes and latencies, a health score from them, and the ranking the engine orders
  its fallbacks by. The dict of statistics is an association list in insertion order.
  \<open>math.pow(0.5, x)\<close> is the parameter \<open>half_pow\<close>; the lemmas assume only that it lies in
  \<open>[0, 1]\<close> for a non-negative argument. The locale \<open>ranking\<close> is what the engine relies on.
\<close>

subsection \<open>State and operations\<close>

record provider_stats =
  ps_successes :: rat
  ps_attempts :: rat
  ps_latency_sum_ms :: rat
  ps_updated_at :: rat

record scoreboard =
  sb_half_life :: "rat option"
  sb_latency_ref_ms :: rat
  sb_stats :: "(string \<times> provider_stats) list"

record health_snapshot =
  hs_provider :: string
  hs_attempts :: rat
  hs_successes :: rat
  hs_success_rate :: rat
  hs_error_rate :: rat
  hs_avg_latency_ms :: rat
  hs_score :: rat

definition make_scoreboard :: "rat option \<Rightarrow> rat \<Rightarrow> scoreboard result" where
  "make_scoreboard half_life latency_ref =
     (if (case half_life of None \<Rightarrow> False | Some h \<Rightarrow> h \<le> 0) then Inl ValueError
      else if latency_ref \<le> 0 then Inl ValueError
      else Inr \<lparr> sb_half_life = half_life, sb_latency_ref_ms = latency_ref, sb_stats = [] \<rparr>)"

definition decay_factor :: "(rat \<Rightarrow> rat) \<Rightarrow> scoreboard \<Rightarrow> provider_stats \<Rightarrow> rat \<Rightarrow> rat" where
  "decay_factor half_pow sb st now = (case sb_half_life sb of
      None \<Rightarrow> 1
    | Some h \<Rightarrow> if ps_attempts st \<le> 0 then 1
        else let age = max 0 (fsub now (ps_updated_at st))
          in if age \<le> 0 then 1 else half_pow (fdiv age h))"

definition apply_decay :: "(rat \<Rightarrow> rat) \<Rightarrow> scoreboard \<Rightarrow> rat \<Rightarrow> provider_stats \<Rightarrow> provider_stats" where
  "apply_decay half_pow sb now st = (let factor = decay_factor half_pow sb st now in
     if factor = 1 then st
     else st\<lparr> ps_successes := fmul (ps_successes st) factor,
              ps_attempts := fmul (ps_attempts st) factor,
              ps_latency_sum_ms := fmul (ps_latency_sum_ms st) factor,
              ps_updated_at := now \<rparr>)"

definition put_stats :: "string \<Rightarrow> provider_stats \<Rightarrow> scoreboard \<Rightarrow> scoreboard" where
  "put_stats p st sb = sb\<lparr> sb_stats := AList.update p st (sb_stats sb) \<rparr>"

definition record_outcome :: "(rat \<Rightarrow> rat) \<Rightarrow> rat \<Rightarrow> string \<Rightarrow> bool \<Rightarrow> rat \<Rightarrow> scoreboard \<Rightarrow>
    unit result \<times> scoreboard" where
  "record_outcome half_pow now provider success latency_ms sb =
     (if provider = [] then (Inl ValueError, sb)
      else if latency_ms < 0 then (Inl ValueError, sb)
      else let st0 = (case map_of (sb_stats sb) provider of
               None \<Rightarrow> \<lparr> ps_successes = 0, ps_attempts = 0, ps_latency_sum_ms = 0, ps_updated_at = now \<rparr>
             | Some st \<Rightarrow> st);
             st1 = apply_decay half_pow sb now st0
        in (Inr (), put_stats provider
             \<lparr> ps_successes = (if success then fadd (ps_successes st1) 1 else ps_successes st1),
               ps_attempts = fadd (ps_attempts st1) 1,
               ps_latency_sum_ms = fadd (ps_latency_sum_ms st1) latency_ms,
               ps_updated_at = now \<rparr> sb))"

text \<open>\<open>_score_locked\<close> after the decay has been applied\<close>

definition score_of :: "scoreboard \<Rightarrow> provider_stats \<Rightarrow> rat" where
  "score_of sb st =
     (if ps_attempts st \<le> 0 then 0
      else let success_rate = fdiv (ps_successes st) (ps_attempts st);
               avg_latency = fdiv (ps_latency_sum_ms st) (ps_attempts st)
        in fdiv success_rate (fadd 1 (fdiv avg_latency (sb_latency_ref_ms sb))))"

definition score_locked :: "(rat \<Rightarrow> rat) \<Rightarrow> rat \<Rightarrow> string \<Rightarrow> provider_stats \<Rightarrow> scoreboard \<Rightarrow> rat \<times> scoreboard" where
  "score_locked half_pow now p st sb =
     (let st1 = apply_decay half_pow sb now st in (score_of sb st1, put_stats p st1 sb))"

definition sb_score :: "(rat \<Rightarrow> rat) \<Rightarrow> rat \<Rightarrow> string \<Rightarrow> scoreboard \<Rightarrow> rat result \<times> scoreboard" where
  "sb_score half_pow now p sb =
     (if p = [] then (Inl ValueError, sb)
      else case map_of (sb_stats sb) p of
        None \<Rightarrow> (Inr 0, sb)
      | Some st \<Rightarrow> (let (score, sb') = score_locked half_pow now p st sb in (Inr score, sb')))"

definition sb_snapshot :: "(rat \<Rightarrow> rat) \<Rightarrow> rat \<Rightarrow> string \<Rightarrow> scoreboard \<Rightarrow>
    health_snapshot option result \<times> scoreboard" where
  "sb_snapshot half_pow now p sb =
     (if p = [] then (Inl ValueError, sb)
      else case map_of (sb_stats sb) p of
        None \<Rightarrow> (Inr None, sb)
      | Some st \<Rightarrow>
          (let (score, sb') = score_locked half_pow now p st sb;
               st1 = the (map_of (sb_stats sb') p);
               success_rate = (if ps_attempts st1 \<le> 0 then 0 else fdiv (ps_successes st1) (ps_attempts st1));
               avg_latency = (if ps_attempts st1 \<le> 0 then 0 else fdiv (ps_latency_sum_ms st1) (ps_attempts st1))
           in (Inr (Some \<lparr> hs_provider = p, hs_attempts = ps_attempts st1, hs_successes = ps_successes st1,
                 hs_success_rate = success_rate, hs_error_rate = fsub 1 success_rate,
                 hs_avg_latency_ms = avg_latency, hs_score = score \<rparr>), sb')))"

text \<open>
  \<open>rank\<close>: the scored triples, with \<open>None\<close> for the score \<open>-inf\<close> of an unknown provider, are sorted by
  \<open>(-score, index)\<close>, so the unknown ones come last.
\<close>

fun scored :: "(rat \<Rightarrow> rat) \<Rightarrow> rat \<Rightarrow> nat \<Rightarrow> string list \<Rightarrow> scoreboard \<Rightarrow>
    (rat option \<times> nat \<times> string) list \<times> scoreboard" where
  "scored half_pow now i [] sb = ([], sb)"
| "scored half_pow now i (p # ps) sb =
     (let (score, sb1) = (case map_of (sb_stats sb) p of
            None \<Rightarrow> (None, sb)
          | Some st \<Rightarrow> (let (x, sb') = score_locked half_pow now p st sb in (Some x, sb')));
          (rest, sb2) = scored half_pow now (Suc i) ps sb1
      in ((score, i, p) # rest, sb2))"

definition rank_key :: "rat option \<times> nat \<times> string \<Rightarrow> bool \<times> rat \<times> nat" where
  "rank_key t = (case t of (score, i, p) \<Rightarrow>
     (score = None, (case score of None \<Rightarrow> 0 | Some x \<Rightarrow> - x), i))"

definition rank :: "(rat \<Rightarrow> rat) \<Rightarrow> rat \<Rightarrow> string list option \<Rightarrow> scoreboard \<Rightarrow> string list \<times> scoreboard" where
  "rank half_pow now providers sb =
     (let candidates = (case providers of None \<Rightarrow> map fst (sb_stats sb) | Some ps \<Rightarrow> ps);
          (ts, sb') = scored half_pow now 0 candidates sb
      in (map (\<lambda>(_, _, p). p) (sorted_by rank_key ts), sb'))"

subsection \<open>Well-formed statistics\<close>

text \<open>Successes never exceed attempts, nothing is negative, and the successes are a double.\<close>

definition stats_ok :: "provider_stats \<Rightarrow> bool" where
  "stats_ok st \<longleftrightarrow> 0 \<le> ps_successes st \<and> ps_successes st \<le> ps_attempts st \<and> 0 \<le> ps_latency_sum_ms st \<and>
     fl (ps_successes st) = ps_successes st"

definition sb_ok :: "scoreboard \<Rightarrow> bool" where
  "sb_ok sb \<longleftrightarrow> 0 < sb_latency_ref_ms sb \<and> (case sb_half_life sb of None \<Rightarrow> True | Some h \<Rightarrow> 0 < h) \<and>
     (\<forall>st \<in> ran (map_of (sb_stats sb)). stats_ok st)"

definition pow_ok :: "(rat \<Rightarrow> rat) \<Rightarrow> bool" where
  "pow_ok half_pow \<longleftrightarrow> (\<forall>x \<ge> 0. 0 \<le> half_pow x \<and> half_pow x \<le> 1)"

lemma decay_factor_bounds:
  assumes "pow_ok hp" "sb_ok sb" shows "0 \<le> decay_factor hp sb st now \<and> decay_factor hp sb st now \<le> 1"
proof (cases "sb_half_life sb")
  case (Some h)
  with assms(2) have "0 < h" by (simp add: sb_ok_def)
  then have "0 \<le> fdiv (max 0 (fsub now (ps_updated_at st))) h" by (simp add: fdiv_nonneg)
  with assms(1) Some show ?thesis by (simp add: decay_factor_def pow_ok_def Let_def)
qed (simp add: decay_factor_def)

lemma apply_decay_ok:
  assumes "pow_ok hp" "sb_ok sb" "stats_ok st" shows "stats_ok (apply_decay hp sb now st)"
  using decay_factor_bounds [OF assms(1,2), of st now] assms(3)
  by (auto simp: apply_decay_def Let_def stats_ok_def fmul_nonneg intro!: fmul_mono) (simp add: fmul_def)

lemma map_of_AList_update [simp]: "map_of (AList.update k v al) = (map_of al)(k \<mapsto> v)"
  by (rule update_conv')

lemma put_stats_ok [inv_intros]: "sb_ok sb \<Longrightarrow> stats_ok st \<Longrightarrow> sb_ok (put_stats p st sb)"
  by (auto simp: sb_ok_def put_stats_def ran_def split: if_splits)

lemma put_stats_fields [simp]:
  "sb_half_life (put_stats p st sb) = sb_half_life sb" "sb_latency_ref_ms (put_stats p st sb) = sb_latency_ref_ms sb"
  by (simp_all add: put_stats_def)

lemma stats_ok_bump:
  assumes "stats_ok st" "0 \<le> l"
  shows "stats_ok \<lparr> ps_successes = (if success then fadd (ps_successes st) 1 else ps_successes st),
      ps_attempts = fadd (ps_attempts st) 1, ps_latency_sum_ms = fadd (ps_latency_sum_ms st) l,
      ps_updated_at = now \<rparr>"
proof -
  have "ps_successes st \<le> ps_attempts st + 1" using assms(1) by (simp add: stats_ok_def)
  then have "ps_successes st \<le> fadd (ps_attempts st) 1"
    using fl_mono [of "ps_successes st" "ps_attempts st + 1"] assms(1) by (simp add: stats_ok_def fadd_def)
  moreover have "fl (fadd a b) = fadd a b" for a b by (simp add: fadd_def)
  ultimately show ?thesis using assms by (simp add: stats_ok_def fadd_nonneg fadd_mono)
qed

lemma record_outcome_ok [inv_intros]:
  assumes "pow_ok hp" "sb_ok sb" shows "sb_ok (snd (record_outcome hp now p success l sb))"
proof -
  let ?st = "apply_decay hp sb now (case map_of (sb_stats sb) p of
    None \<Rightarrow> \<lparr> ps_successes = 0, ps_attempts = 0, ps_latency_sum_ms = 0, ps_updated_at = now \<rparr> | Some st \<Rightarrow> st)"
  have "stats_ok ?st"
    using assms by (intro apply_decay_ok) (auto simp: sb_ok_def stats_ok_def ran_def split: option.splits)
  then show ?thesis using assms stats_ok_bump [of ?st l success now]
    by (auto simp: record_outcome_def Let_def intro!: put_stats_ok)
qed

lemma score_locked_ok [inv_intros]:
  "pow_ok hp \<Longrightarrow> sb_ok sb \<Longrightarrow> stats_ok st \<Longrightarrow> sb_ok (snd (score_locked hp now p st sb))"
  by (simp add: score_locked_def Let_def put_stats_ok apply_decay_ok)

lemma score_bounds:
  assumes "0 < sb_latency_ref_ms sb" "stats_ok st" shows "0 \<le> score_of sb st \<and> score_of sb st \<le> 1"
proof (cases "ps_attempts st \<le> 0")
  case False
  let ?r = "fdiv (ps_successes st) (ps_attempts st)"
  let ?d = "fadd 1 (fdiv (fdiv (ps_latency_sum_ms st) (ps_attempts st)) (sb_latency_ref_ms sb))"
  have r: "0 \<le> ?r" "?r \<le> 1" using assms(2) False
    by (auto simp: stats_ok_def fdiv_nonneg) (simp add: fdiv_def dbl.ratio_le_one)
  have "1 \<le> ?d" unfolding fadd_def using assms False
    by (intro dbl.ge_one) (simp add: stats_ok_def fdiv_nonneg)
  with r have "0 \<le> ?r / ?d" "?r / ?d \<le> 1" by (simp_all add: divide_le_eq)
  then show ?thesis using False by (simp add: score_of_def Let_def fdiv_def [of _ ?d] dbl.nonneg dbl.le_one)
qed (simp add: score_of_def)

subsection \<open>The ranking the engine relies on\<close>

locale ranking =
  fixes rank_of :: "string list \<Rightarrow> 's \<Rightarrow> string list"
  assumes rank_perm: "mset (rank_of ps s) = mset ps"
begin

lemma rank_set: "set (rank_of ps s) = set ps"
  using rank_perm by (rule mset_eq_setD)

lemma rank_distinct: "distinct (rank_of ps s) = distinct ps"
  using rank_perm mset_eq_imp_distinct_iff by blast

text \<open>Grouping by a key, and concatenating the groups in ranked order, permutes the list.\<close>

lemma regroup_perm:
  assumes "distinct ps" "f ` set xs \<subseteq> set ps"
  shows "mset (concat (map (\<lambda>p. filter (\<lambda>x. f x = p) xs) (rank_of ps s))) = mset xs"
proof -
  have "mset (concat (map (\<lambda>p. filter (\<lambda>x. f x = p) xs) qs)) = mset xs"
    if "distinct qs" "f ` set xs \<subseteq> set qs" for qs
    using that
  proof (induction qs arbitrary: xs)
    case (Cons q qs)
    have eq: "filter (\<lambda>x. f x = p) xs = filter (\<lambda>x. f x = p) (filter (\<lambda>x. f x \<noteq> q) xs)" if "p \<in> set qs" for p
      using that Cons.prems(1) by (auto intro!: filter_cong)
    have "mset (concat (map (\<lambda>p. filter (\<lambda>x. f x = p) (filter (\<lambda>x. f x \<noteq> q) xs)) qs)) = mset (filter (\<lambda>x. f x \<noteq> q) xs)"
      using Cons.prems by (intro Cons.IH) auto
    moreover have "map (\<lambda>p. filter (\<lambda>x. f x = p) xs) qs = map (\<lambda>p. filter (\<lambda>x. f x = p) (filter (\<lambda>x. f x \<noteq> q) xs)) qs"
      using eq by simp
    ultimately have "mset (concat (map (\<lambda>p. filter (\<lambda>x. f x = p) xs) qs)) = mset (filter (\<lambda>x. f x \<noteq> q) xs)" by (simp only:)
    then show ?case by (simp add: multiset_partition [symmetric] mset_filter)
  qed simp
  from this [of "rank_of ps s"] show ?thesis using assms by (simp add: rank_set rank_distinct)
qed

end

lemma scored_names: "map (\<lambda>(_, _, p). p) (fst (scored hp now i ps sb)) = ps"
  by (induction hp now i ps sb rule: scored.induct) (auto split: prod.splits option.splits)

lemma rank_permutes: "mset (fst (rank hp now (Some ps) sb)) = mset ps"
proof -
  have "mset (map (\<lambda>(_, _, p). p) (sorted_by rank_key ts)) = mset (map (\<lambda>(_, _, p). p) ts)" for ts
    by (metis mset_map mset_sorted_by)
  then show ?thesis
    using scored_names [of hp now 0 ps sb] by (auto simp: rank_def split: prod.splits)
qed

interpretation scoreboard_rank: ranking "\<lambda>ps sb. fst (rank hp now (Some ps) sb)" for hp now
  by unfold_locales (rule rank_permutes)

subsection \<open>The order of the ranking\<close>

text \<open>The score a provider has now: what \<open>score\<close> returns, and \<open>None\<close> for an unknown one.\<close>

definition score_now :: "(rat \<Rightarrow> rat) \<Rightarrow> rat \<Rightarrow> scoreboard \<Rightarrow> string \<Rightarrow> rat option" where
  "score_now hp now sb p = map_option (\<lambda>st. score_of sb (apply_decay hp sb now st)) (map_of (sb_stats sb) p)"

lemma sb_score_now: "p \<noteq> [] \<Longrightarrow>
  fst (sb_score hp now p sb) = Inr (case score_now hp now sb p of None \<Rightarrow> 0 | Some x \<Rightarrow> x)"
  by (auto simp: sb_score_def score_now_def score_locked_def Let_def split: option.splits)

lemma decay_idem: "apply_decay hp sb now (apply_decay hp sb now st) = apply_decay hp sb now st"
proof (cases "decay_factor hp sb st now = 1")
  case False
  let ?st = "apply_decay hp sb now st"
  have "ps_updated_at ?st = now" using False by (simp add: apply_decay_def Let_def)
  then have "decay_factor hp sb ?st now = 1"
    by (auto simp: decay_factor_def fsub_def Let_def split: option.splits)
  then show ?thesis by (subst apply_decay_def) (simp add: Let_def)
qed (simp add: apply_decay_def)

lemma same_config:
  "sb_half_life sb' = sb_half_life sb \<Longrightarrow> sb_latency_ref_ms sb' = sb_latency_ref_ms sb \<Longrightarrow>
   score_of sb' st = score_of sb st \<and> apply_decay hp sb' now st = apply_decay hp sb now st"
  by (simp add: score_of_def apply_decay_def decay_factor_def)

lemma score_now_locked:
  assumes "map_of (sb_stats sb) p = Some st"
  shows "score_now hp now (snd (score_locked hp now p st sb)) q = score_now hp now sb q"
proof -
  let ?sb = "put_stats p (apply_decay hp sb now st) sb"
  have "score_of ?sb s = score_of sb s" "apply_decay hp ?sb now s = apply_decay hp sb now s" for s
    using same_config [of ?sb sb] by simp_all
  then show ?thesis using assms
    by (simp add: score_locked_def Let_def score_now_def decay_idem) (simp add: put_stats_def decay_idem)
qed

lemma scored_values: "(x, i, p) \<in> set (fst (scored hp now n ps sb)) \<Longrightarrow> x = score_now hp now sb p"
proof (induction hp now n ps sb rule: scored.induct)
  case (2 hp now n q ps sb)
  show ?case
  proof (cases "map_of (sb_stats sb) q")
    case None
    with 2 show ?thesis by (auto simp: score_now_def split: prod.splits)
  next
    case (Some st)
    with 2 show ?thesis using score_now_locked [OF Some, of hp now]
      by (auto simp: score_now_def [of hp now sb q] score_locked_def Let_def split: prod.splits)
  qed
qed simp

text \<open>Higher scores first, unknown providers last.\<close>

definition ranked_before :: "rat option \<Rightarrow> rat option \<Rightarrow> bool" where
  "ranked_before x y = (case y of None \<Rightarrow> True | Some b \<Rightarrow> (case x of None \<Rightarrow> False | Some a \<Rightarrow> b \<le> a))"

lemma rank_key_before: "rank_key (x, i, p) \<le> rank_key (y, j, q) \<Longrightarrow> ranked_before x y"
  by (auto simp: rank_key_def ranked_before_def split: option.splits if_splits)

definition record_all :: "(rat \<Rightarrow> rat) \<Rightarrow> (rat \<times> string \<times> bool \<times> rat) list \<Rightarrow> scoreboard \<Rightarrow> scoreboard" where
  "record_all hp h sb = foldl (\<lambda>sb (now, p, success, l). snd (record_outcome hp now p success l sb)) sb h"

lemma record_all_ok:
  assumes "pow_ok hp" "make_scoreboard hl lr = Inr sb" shows "sb_ok (record_all hp h sb)"
proof (induction h rule: rev_induct)
  case Nil
  then show ?case using assms(2)
    by (auto simp: record_all_def make_scoreboard_def sb_ok_def split: if_splits option.splits)
next
  case (snoc e h)
  then show ?case using assms(1) by (cases e) (auto simp: record_all_def intro: record_outcome_ok)
qed

text \<open>
  C13. After any history of outcomes, ranking a candidate list returns exactly these candidates,
  ordered by the score each has at that instant, unknown providers last; and every score lies
  between 0 and 1 in double arithmetic, for any decay.
\<close>

theorem rank_orders_by_health:
  assumes "pow_ok hp" "make_scoreboard half_life latency_ref = Inr sb0"
  shows "let sb = record_all hp h sb0; ps' = fst (rank hp now (Some ps) sb) in
    mset ps' = mset ps \<and>
    sorted_wrt (\<lambda>p q. ranked_before (score_now hp now sb p) (score_now hp now sb q)) ps' \<and>
    (\<forall>p x. score_now hp now sb p = Some x \<longrightarrow> 0 \<le> x \<and> x \<le> 1)"
proof -
  define sb where "sb = record_all hp h sb0"
  have ok: "sb_ok sb" unfolding sb_def using assms by (rule record_all_ok)
  let ?ts = "sorted_by rank_key (fst (scored hp now 0 ps sb))"
  let ?before = "\<lambda>p q. ranked_before (score_now hp now sb p) (score_now hp now sb q)"
  have "sorted_wrt (\<lambda>s t. rank_key s \<le> rank_key t) ?ts"
    using sorted_sorted_by [of rank_key] by (simp only: sorted_map)
  moreover have "?before p q" if "(x, i, p) \<in> set ?ts" "(y, j, q) \<in> set ?ts" "rank_key (x, i, p) \<le> rank_key (y, j, q)"
    for x i p y j q
    using that rank_key_before scored_values by (metis set_sorted_by)
  ultimately have "sorted_wrt (\<lambda>(_, _, p) (_, _, q). ?before p q) ?ts"
    by (elim sorted_wrt_mono_rel [rotated]) auto
  then have "sorted_wrt ?before (map (\<lambda>(_, _, p). p) ?ts)" by (simp add: sorted_wrt_map case_prod_beta')
  then have "sorted_wrt ?before (fst (rank hp now (Some ps) sb))" by (simp add: rank_def case_prod_beta)
  moreover have "0 \<le> x \<and> x \<le> 1" if "score_now hp now sb p = Some x" for p x
  proof -
    from that obtain st where st: "map_of (sb_stats sb) p = Some st" "x = score_of sb (apply_decay hp sb now st)"
      by (auto simp: score_now_def)
    from st(1) ok have "stats_ok st" by (auto simp: sb_ok_def ran_def)
    with st(2) ok assms(1) show ?thesis by (simp add: score_bounds apply_decay_ok sb_ok_def)
  qed
  ultimately show ?thesis using rank_permutes [of hp now ps sb] unfolding sb_def [symmetric] Let_def by blast
qed

theorem rank_orders_by_health_witness:
  "mset (fst (rank (\<lambda>_. 1) 9 (Some [''new'', ''bad'', ''good''])
     (record_all (\<lambda>_. 1) [(1, ''bad'', False, 5), (2, ''good'', True, 5)]
       \<lparr> sb_half_life = None, sb_latency_ref_ms = 1000, sb_stats = [] \<rparr>))) = {# ''new'', ''bad'', ''good'' #}"
proof -
  have "pow_ok (\<lambda>_. 1)" by (simp add: pow_ok_def)
  moreover have "make_scoreboard None 1000 = Inr \<lparr> sb_half_life = None, sb_latency_ref_ms = 1000, sb_stats = [] \<rparr>"
    by (simp add: make_scoreboard_def)
  ultimately show ?thesis
    using rank_orders_by_health [of "\<lambda>_. 1" None 1000 _ _ 9 "[''new'', ''bad'', ''good'']"]
    unfolding Let_def by (metis mset.simps)
qed

end
