(* ===== verification/Engine.thy ===== *)
theory Engine
  imports Lifecycle Token_Bucket Circuit_Breaker Timed_Stats Guardrails Scoreboard Strategy_Base Session_Stats
begin

text \<open>
  The Observe-Decide-Act engine of \<open>src/router/engine.py\<close>: \<open>complete\<close> and \<open>complete_stream\<close> with their
  helpers. The record \<open>engine\<close> is the router object's mutable state. The injected collaborators are
  the record \<open>deps\<close>: the analyzer, the strategies (their \<open>choose\<close> may read and change the engine
  state), the message scrubber and the adapters' price function, Python's \<open>float()\<close> of a text, and
  \<open>math.pow(0.5, x)\<close>. An adapter call is the only point where other tasks run: an \<open>attempt_env\<close> says
  what the call gave, what the other tasks did to the shared state meanwhile, at which instant the
  task resumed, and whether the ledger and audit writes after it fail. Code between two awaits
  runs at one instant. Logging and metrics are left out.
\<close>

subsection \<open>Provider exceptions\<close>

text \<open>
  What the engine reads of an exception: three status attributes, the message, and the objects
  that may hold a Retry-After value, in the order of the source.
\<close>

record provider_exn =
  xe_status_code :: py_val
  xe_status :: py_val
  xe_response_status :: py_val
  xe_message :: string
  xe_retry_candidates :: "py_val list"

definition plain_exn :: "string \<Rightarrow> provider_exn" where
  "plain_exn msg = \<lparr> xe_status_code = VNone, xe_status = VNone, xe_response_status = VNone,
     xe_message = msg, xe_retry_candidates = [] \<rparr>"

text \<open>
  The engine's own errors when they reach the handler; the messages of the \<open>ValueError\<close>s of the
  statistics contain none of the rate-limit markers.
\<close>

fun exn_of_error :: "py_error \<Rightarrow> provider_exn" where
  "exn_of_error (KeyError k) = plain_exn (CHR 0x27 # k @ [CHR 0x27])"
| "exn_of_error (StateTransitionError a b) = plain_exn (''invalid transition '' @ a @ '' -> '' @ b)"
| "exn_of_error _ = plain_exn []"

definition is_429 :: "py_val \<Rightarrow> bool" where
  "is_429 v \<longleftrightarrow> (case v of VInt n \<Rightarrow> n = 429 | VFloat x _ \<Rightarrow> x = 429 | _ \<Rightarrow> False)"

definition is_rate_limit_error :: "provider_exn \<Rightarrow> bool" where
  "is_rate_limit_error x = (let statuses = [xe_status_code x, xe_status x, xe_response_status x];
       message = lower (xe_message x)
     in if list_ex is_429 statuses \<or> ''429'' \<in> set (map py_str statuses) then True
        else list_ex (\<lambda>marker. contains marker message)
          [''rate limit'', ''rate-limit'', ''rate_limit'', ''too many requests'', ''http 429'', ''status 429''])"

fun extract_retry_after :: "(string \<Rightarrow> rat option) \<Rightarrow> py_val list \<Rightarrow> rat option" where
  "extract_retry_after parse_float [] = None"
| "extract_retry_after parse_float (v # vs) = (if v = VNone then extract_retry_after parse_float vs
     else (case parse_float (py_str v) of
        Some x \<Rightarrow> Some (max 0 x)
      | None \<Rightarrow> extract_retry_after parse_float vs))"

subsection \<open>State and collaborators\<close>

record engine =
  en_catalog :: catalog
  en_registered :: "string set"
  en_default_strategy :: strategy_name
  en_rate_limiter :: rate_limiter
  en_breakers :: circuit_registry
  en_budget :: budget_guardrail
  en_inflight :: inflight_stats
  en_success :: success_stats
  en_error_reset :: error_reset_stats
  en_weights :: weight_stats
  en_hysteresis :: hysteresis_stats
  en_rate_limits :: rate_limit_stats
  en_cooldown :: retry_cooldown
  en_scoreboard :: scoreboard
  en_latency :: latency_stats
  en_slope :: latency_slope_stats
  en_cascade :: cascade_stats
  en_family_spend :: "rat entry_window"
  en_hourly_spend :: "rat entry_window"
  en_token_rpm :: "int entry_window"
  en_cost_anomaly :: cost_anomaly_stats
  en_token_buckets :: token_bucket_stats
  en_tier_requests :: tier_request_stats
  en_request_shares :: request_share_stats
  en_tenant_buckets :: tenant_bucket_stats
  en_sessions :: session_state
  en_ledger :: "spend_record list"
  en_audit :: "audit_record list"

text \<open>
  The settings the router's constructor reads for this state, with their defaults, and the state it
  builds. The scoreboard has no half-life here, so its scores do not decay. Request shares and
  tenant buckets are created by \<open>build_strategies\<close> and live in its strategies.
\<close>

record router_settings =
  st_default_strategy :: strategy_name
  st_budget_cap_usd :: rat
  st_rate_limit_capacity :: int
  st_rate_limit_refill_per_second :: rat
  st_soft_family_budget_window_seconds :: rat
  st_provider_weight_decay_factor :: rat
  st_provider_weight_recover :: rat
  st_retry_after_default_seconds :: rat
  st_latency_slope_window :: int
  st_provider_error_budget_reset_seconds :: rat
  st_token_bucket_capacity :: int
  st_token_bucket_refill_per_sec :: rat
  st_provider_quota_lookback :: int
  st_token_bucket_tenant_rate :: rat
  st_tenant_quota_burst_window_seconds :: rat
  st_provider_cold_start_lookback :: int
  st_tenant_fair_queue_lookback :: int
  st_tenant_priority_lane_lookback :: int

definition default_settings :: router_settings where
  "default_settings = \<lparr> st_default_strategy = ''rule-based'', st_budget_cap_usd = 25,
     st_rate_limit_capacity = 120, st_rate_limit_refill_per_second = 2,
     st_soft_family_budget_window_seconds = 3600, st_provider_weight_decay_factor = 1/2,
     st_provider_weight_recover = fl (1/10), st_retry_after_default_seconds = 30,
     st_latency_slope_window = 10, st_provider_error_budget_reset_seconds = 60,
     st_token_bucket_capacity = 10, st_token_bucket_refill_per_sec = 1, st_provider_quota_lookback = 100,
     st_token_bucket_tenant_rate = 5, st_tenant_quota_burst_window_seconds = 60,
     st_provider_cold_start_lookback = 100, st_tenant_fair_queue_lookback = 100,
     st_tenant_priority_lane_lookback = 100 \<rparr>"

definition new_router :: "router_settings \<Rightarrow> catalog \<Rightarrow> string set \<Rightarrow> engine result" where
  "new_router st model_catalog registered =
     bind_result (make_rate_limit_stats 100) (\<lambda>rate_limits.
     bind_result (make_family_spend_window (st_soft_family_budget_window_seconds st)) (\<lambda>family.
     bind_result (make_weight_stats (st_provider_weight_decay_factor st) (st_provider_weight_recover st)) (\<lambda>weights.
     bind_result (make_retry_cooldown (st_retry_after_default_seconds st)) (\<lambda>cooldown.
     bind_result (make_latency_slope_stats (st_latency_slope_window st) (fl (3/10))) (\<lambda>slope.
     bind_result (make_hourly_spend_window 3600) (\<lambda>hourly.
     bind_result (make_token_rpm_window 60) (\<lambda>rpm.
     bind_result (make_cascade_stats 3600) (\<lambda>cascade.
     bind_result (make_error_reset_stats (st_provider_error_budget_reset_seconds st)) (\<lambda>error_reset.
     bind_result (new_session_state (st_tenant_quota_burst_window_seconds st) (st_provider_cold_start_lookback st)
       (st_tenant_fair_queue_lookback st) (st_tenant_priority_lane_lookback st)) (\<lambda>sessions.
     bind_result (make_scoreboard None 1000) (\<lambda>scores.
     bind_result (make_token_bucket_stats (st_token_bucket_capacity st) (st_token_bucket_refill_per_sec st)) (\<lambda>buckets.
     bind_result (make_tier_request_stats 60 500) (\<lambda>tiers.
     bind_result (make_request_share_stats (st_provider_quota_lookback st)) (\<lambda>shares.
     bind_result (make_tenant_bucket_stats (st_token_bucket_tenant_rate st)) (\<lambda>tenants.
     Inr \<lparr> en_catalog = (if model_catalog = [] then default_model_catalog else model_catalog),
       en_registered = registered, en_default_strategy = st_default_strategy st,
       en_rate_limiter = \<lparr> rl_capacity = st_rate_limit_capacity st,
         rl_refill_per_second = st_rate_limit_refill_per_second st, rl_buckets = Map.empty \<rparr>,
       en_breakers = new_registry 3 60,
       en_budget = \<lparr> bg_cap_usd = st_budget_cap_usd st, bg_spend = Map.empty \<rparr>,
       en_inflight = \<lparr> if_inflight = Map.empty \<rparr>,
       en_success = \<lparr> ss_successes = [], ss_attempts = [] \<rparr>,
       en_error_reset = error_reset, en_weights = weights,
       en_hysteresis = \<lparr> hy_recovery_streak = Map.empty, hy_active_failover = Map.empty \<rparr>,
       en_rate_limits = rate_limits, en_cooldown = cooldown, en_scoreboard = scores,
       en_latency = \<lparr> ls_observations = Map.empty \<rparr>, en_slope = slope, en_cascade = cascade,
       en_family_spend = family, en_hourly_spend = hourly, en_token_rpm = rpm,
       en_cost_anomaly = \<lparr> ca_observations = [], ca_max_observations = 100 \<rparr>,
       en_token_buckets = buckets, en_tier_requests = tiers, en_request_shares = shares, en_tenant_buckets = tenants,
       en_sessions = sessions, en_ledger = [], en_audit = [] \<rparr>)))))))))))))))"

type_synonym chooser = "rat \<Rightarrow> router_request \<Rightarrow> task_signals \<Rightarrow> engine \<Rightarrow> routing_decision result \<times> engine"

record deps =
  dp_analyze :: "router_request \<Rightarrow> task_signals"
  dp_strategies :: "strategy_name \<rightharpoonup> chooser"
  dp_scrub :: "chat_message list \<Rightarrow> chat_message list"
  dp_adapter_cost :: "string \<Rightarrow> string \<Rightarrow> int \<Rightarrow> int \<Rightarrow> rat"
  dp_parse_float :: "string \<Rightarrow> rat option"
  dp_half_pow :: "rat \<Rightarrow> rat"

datatype outcome = Responded provider_response | Raised provider_exn | Cancelled

record io_env =
  at_others :: "engine \<Rightarrow> engine"
  at_resumed :: rat
  at_wall_clock :: rat
  at_ledger_error :: "provider_exn option"
  at_audit_error :: "provider_exn option"

record attempt_env = io_env +
  at_outcome :: "string \<Rightarrow> chat_message list \<Rightarrow> int \<Rightarrow> outcome"

text \<open>The local variables of one request that its attempts read.\<close>

record request_context =
  cx_request :: router_request
  cx_signals :: task_signals
  cx_strategy_name :: strategy_name
  cx_rationale :: fstring
  cx_started_at :: rat

subsection \<open>Helpers\<close>

text \<open>\<open>_tenant_inflight_key\<close>, the same function as \<open>TenantBudgetCascadeStrategy._tenant_key\<close>\<close>

definition tenant_inflight_key :: "router_request \<Rightarrow> string" where
  "tenant_inflight_key r =
     (case find (\<lambda>v. v \<noteq> VNone \<and> strip (py_str v) \<noteq> [])
        (map (metadata_get r) [''tenant_id'', ''user_id'', ''sticky_key'']) of
        Some v \<Rightarrow> py_str v
      | None \<Rightarrow> if rq_user_id r \<noteq> ''anonymous'' then rq_user_id r else rq_session_id r)"

definition fallback_rationale :: "fstring \<Rightarrow> string \<Rightarrow> nat \<Rightarrow> fstring" where
  "fallback_rationale base model_name attempt_index =
     (if attempt_index = 0 then base
      else base @ [Lit ''; fallback attempt '', IntF (int attempt_index), Lit '' succeeded with '', Str model_name])"

definition region_label :: "router_request \<Rightarrow> string" where
  "region_label r = lower (strip (case rq_region r of
     Some region \<Rightarrow> if region \<noteq> [] then region else ''global'' | None \<Rightarrow> ''global''))"

text \<open>\<open>_order_attempts\<close>: providers in first-seen order, ranked, their models in chain order.\<close>

fun providers_of :: "catalog \<Rightarrow> string list \<Rightarrow> string list result" where
  "providers_of cat [] = Inr []"
| "providers_of cat (m # ms) = bind_result (catalog_get cat m) (\<lambda>c.
     bind_result (providers_of cat ms) (\<lambda>ps. Inr (mc_provider c # ps)))"

definition provider_in :: "catalog \<Rightarrow> string \<Rightarrow> string" where
  "provider_in cat m = (case map_of cat m of Some c \<Rightarrow> mc_provider c | None \<Rightarrow> [])"

definition first_seen :: "'a list \<Rightarrow> 'a list" where
  "first_seen xs = rev (remdups (rev xs))"

definition order_attempts :: "deps \<Rightarrow> rat \<Rightarrow> string \<Rightarrow> string list \<Rightarrow> engine \<Rightarrow> string list result \<times> engine" where
  "order_attempts d now chosen_model chain en =
     (if chain = [] then (Inr [chosen_model], en)
      else case providers_of (en_catalog en) chain of
        Inl e \<Rightarrow> (Inl e, en)
      | Inr ps \<Rightarrow>
          (let (ranked, sb) = rank (dp_half_pow d) now (Some (first_seen ps)) (en_scoreboard en)
           in (Inr (chosen_model #
                 concat (map (\<lambda>p. filter (\<lambda>m. provider_in (en_catalog en) m = p) chain) ranked)),
               en\<lparr> en_scoreboard := sb \<rparr>)))"

subsection \<open>Recording a failed and an answered attempt\<close>

text \<open>The handler of \<open>except Exception\<close>, up to the state transition.\<close>

definition record_attempt_failure :: "deps \<Rightarrow> rat \<Rightarrow> rat \<Rightarrow> router_request \<Rightarrow> string \<Rightarrow> provider_exn \<Rightarrow> engine \<Rightarrow>
    unit result \<times> engine" where
  "record_attempt_failure d now attempt_started_at r provider x en =
     (case record_outcome (dp_half_pow d) now provider False (fmul (fsub now attempt_started_at) 1000) (en_scoreboard en) of
        (Inl e, sb) \<Rightarrow> (Inl e, en\<lparr> en_scoreboard := sb \<rparr>)
      | (Inr _, sb) \<Rightarrow>
          (let rate_limited = is_rate_limit_error x in
           (Inr (), en\<lparr> en_scoreboard := sb,
              en_breakers := cb_record_failure now provider (en_breakers en),
              en_success := ss_observe provider False (en_success en),
              en_error_reset := er_observe now provider False (en_error_reset en),
              en_weights := ws_observe provider False (en_weights en),
              en_hysteresis := hy_record_failure (region_label r) (en_hysteresis en),
              en_rate_limits := rs_observe provider rate_limited (en_rate_limits en),
              en_cooldown := (if rate_limited
                 then set_cooldown now provider (extract_retry_after (dp_parse_float d) (xe_retry_candidates x)) (en_cooldown en)
                 else en_cooldown en) \<rparr>)))"

text \<open>
  \<open>_respond\<close>, in the order of its effects. An error leaves the effects before it; the state machine
  is returned with the engine. Pydantic refuses a \<open>RouterResponse\<close> with a negative number, by a
  \<open>ValidationError\<close>, which is a \<open>ValueError\<close>.
\<close>

definition respond_statistics :: "rat \<Rightarrow> string \<Rightarrow> engine \<Rightarrow> engine" where
  "respond_statistics now provider en = en\<lparr>
     en_breakers := cb_record_success provider (en_breakers en),
     en_success := ss_observe provider True (en_success en),
     en_error_reset := er_observe now provider True (en_error_reset en),
     en_weights := ws_observe provider True (en_weights en),
     en_rate_limits := rs_observe provider False (en_rate_limits en),
     en_cooldown := rc_clear provider (en_cooldown en) \<rparr>"

definition respond_latency :: "deps \<Rightarrow> rat \<Rightarrow> rat \<Rightarrow> rat \<Rightarrow> string \<Rightarrow> engine \<Rightarrow> unit result \<times> engine" where
  "respond_latency d now latency_ms attempt_started_at provider en =
     (case record_outcome (dp_half_pow d) now provider True (fmul (fsub now attempt_started_at) 1000) (en_scoreboard en) of
        (Inl e, sb) \<Rightarrow> (Inl e, en\<lparr> en_scoreboard := sb \<rparr>)
      | (Inr _, sb) \<Rightarrow> (Inr (), en\<lparr> en_scoreboard := sb,
          en_latency := ls_observe provider latency_ms (en_latency en),
          en_slope := lw_observe provider latency_ms (en_slope en) \<rparr>))"

definition respond_spend :: "'a io_env_scheme \<Rightarrow> router_request \<Rightarrow> string \<Rightarrow> provider_response \<Rightarrow> engine \<Rightarrow>
    provider_exn option \<times> engine" where
  "respond_spend env r provider pr en =
     (let en1 = en\<lparr> en_budget := record_spend (rq_user_id r) (pr_cost_usd pr) (en_budget en) \<rparr>
      in case at_ledger_error env of
           Some x \<Rightarrow> (Some x, en1)
         | None \<Rightarrow> (None, en1\<lparr> en_ledger := ledger_record (at_wall_clock env) (rq_request_id r) (rq_user_id r)
              provider (pr_model pr) (pr_cost_usd pr) (pr_input_tokens pr) (pr_output_tokens pr) (en_ledger en1) \<rparr>))"

definition respond_windows :: "rat \<Rightarrow> router_request \<Rightarrow> task_signals \<Rightarrow> string \<Rightarrow> provider_response \<Rightarrow> engine \<Rightarrow>
    unit result \<times> engine" where
  "respond_windows now r s provider pr en =
     (case tc_record_spend now (tenant_inflight_key r) (pr_cost_usd pr) (en_cascade en) of
        (Inl e, tc) \<Rightarrow> (Inl e, en\<lparr> en_cascade := tc \<rparr>)
      | (Inr _, tc) \<Rightarrow>
          (let en1 = en\<lparr> en_cascade := tc,
                 en_family_spend := fam_record now provider (pr_cost_usd pr) (en_family_spend en),
                 en_hourly_spend := hourly_record now provider (pr_cost_usd pr) (en_hourly_spend en) \<rparr>
           in case rpm_record now provider (ts_prompt_tokens_estimate s) (en_token_rpm en1) of
                (Inl e, w) \<Rightarrow> (Inl e, en1\<lparr> en_token_rpm := w \<rparr>)
              | (Inr _, w) \<Rightarrow>
                  (let total = pr_input_tokens pr + pr_output_tokens pr in
                   (Inr (), en1\<lparr> en_token_rpm := w,
                      en_hysteresis := hy_record_success (region_label r) (en_hysteresis en1),
                      en_cost_anomaly := (if 0 < total
                        then ca_observe (fmul (fdiv (pr_cost_usd pr) (fint total)) 1000) (en_cost_anomaly en1)
                        else en_cost_anomaly en1) \<rparr>))))"

definition respond :: "deps \<Rightarrow> 'a io_env_scheme \<Rightarrow> request_context \<Rightarrow> rat \<Rightarrow> rat \<Rightarrow> string \<Rightarrow> fstring \<Rightarrow>
    provider_response \<Rightarrow> request_state \<Rightarrow> engine \<Rightarrow> (provider_exn + router_response) \<times> request_state \<times> engine" where
  "respond d env cx now attempt_started_at provider rationale pr sm en =
     (let r = cx_request cx; en1 = respond_statistics now provider en in
      case transition sm RESPONDED of
        Inl e \<Rightarrow> (Inl (exn_of_error e), sm, en1)
      | Inr sm' \<Rightarrow>
          (let latency_ms = fmul (fsub now (cx_started_at cx)) 1000 in
           case respond_latency d now latency_ms attempt_started_at provider en1 of
             (Inl e, en2) \<Rightarrow> (Inl (exn_of_error e), sm', en2)
           | (Inr _, en2) \<Rightarrow>
               (case respond_spend env r provider pr en2 of
                  (Some x, en3) \<Rightarrow> (Inl x, sm', en3)
                | (None, en3) \<Rightarrow>
                    (case respond_windows now r (cx_signals cx) provider pr en3 of
                       (Inl e, en4) \<Rightarrow> (Inl (exn_of_error e), sm', en4)
                     | (Inr _, en4) \<Rightarrow>
                         if latency_ms < 0 \<or> pr_input_tokens pr < 0 \<or> pr_output_tokens pr < 0 \<or> pr_cost_usd pr < 0
                         then (Inl (exn_of_error ValueError), sm', en4)
                         else (case at_audit_error env of
                            Some x \<Rightarrow> (Inl x, sm', en4)
                          | None \<Rightarrow>
                              (Inr \<lparr> rr_content = pr_content pr, rr_model_used = pr_model pr,
                                 rr_routing_strategy = cx_strategy_name cx, rr_latency_ms = latency_ms,
                                 rr_input_tokens = pr_input_tokens pr, rr_output_tokens = pr_output_tokens pr,
                                 rr_cost_usd = pr_cost_usd pr, rr_rationale = rationale,
                                 rr_request_id = rq_request_id r, rr_finish_reason = pr_finish_reason pr \<rparr>,
                               sm',
                               en4\<lparr> en_audit := audit_append
                                 \<lparr> ar_request_id = rq_request_id r, ar_chosen_model = pr_model pr,
                                   ar_provider = provider, ar_routing_strategy = cx_strategy_name cx,
                                   ar_rationale = rationale, ar_latency_ms = latency_ms,
                                   ar_token_cost = pr_cost_usd pr, ar_input_tokens = pr_input_tokens pr,
                                   ar_output_tokens = pr_output_tokens pr, ar_state = state_value sm' \<rparr>
                                 (en_audit en4) \<rparr>))))))"

subsection \<open>One attempt\<close>

text \<open>The client-side guards before a dispatch: the budget cap, then the circuit.\<close>

definition attempt_guard :: "rat \<Rightarrow> request_context \<Rightarrow> model_candidate \<Rightarrow> engine \<Rightarrow> unit result \<times> engine" where
  "attempt_guard now cx c en =
     (let estimated_cost = estimate_cost c (ts_prompt_tokens_estimate (cx_signals cx)) (rq_max_tokens (cx_request cx))
      in case assert_can_spend (rq_user_id (cx_request cx)) estimated_cost (en_budget en) of
           Inl e \<Rightarrow> (Inl e, en)
         | Inr _ \<Rightarrow> (let (available, cb) = assert_available now (mc_provider c) (en_breakers en)
                     in (available, en\<lparr> en_breakers := cb \<rparr>)))"

text \<open>The in-flight counters around the adapter call, kept by the \<open>finally\<close> block.\<close>

definition begin_attempt :: "string \<Rightarrow> string \<Rightarrow> engine \<Rightarrow> engine" where
  "begin_attempt key provider en = en\<lparr> en_inflight := begin_for_tenant key provider (if_begin provider (en_inflight en)) \<rparr>"

definition finish_attempt :: "string \<Rightarrow> string \<Rightarrow> engine \<Rightarrow> engine" where
  "finish_attempt key provider en = en\<lparr> en_inflight := if_finish provider (finish_for_tenant key provider (en_inflight en)) \<rparr>"

definition mark_dispatched :: "request_state \<Rightarrow> request_state result" where
  "mark_dispatched sm = (if sm \<in> {ROUTED, FALLBACK} then transition sm DISPATCHED else Inr sm)"

text \<open>
  The body of the \<open>try\<close>: the first component is None when the task was cancelled, which no handler
  of the engine catches.
\<close>

definition dispatch :: "deps \<Rightarrow> attempt_env \<Rightarrow> request_context \<Rightarrow> rat \<Rightarrow> model_candidate \<Rightarrow> string \<Rightarrow> nat \<Rightarrow>
    request_state \<Rightarrow> engine \<Rightarrow> (provider_exn + router_response) option \<times> request_state \<times> rat \<times> engine" where
  "dispatch d env cx now c model attempt_index sm en =
     (let provider = mc_provider c; r = cx_request cx in
      if provider \<notin> en_registered en then (Some (Inl (exn_of_error (KeyError provider))), sm, now, en)
      else case mark_dispatched sm of
        Inl e \<Rightarrow> (Some (Inl (exn_of_error e)), sm, now, en)
      | Inr sm1 \<Rightarrow>
          (let key = tenant_inflight_key r;
               en1 = finish_attempt key provider (at_others env (begin_attempt key provider en));
               t = at_resumed env
           in case at_outcome env model (dp_scrub d (rq_messages r)) (rq_max_tokens r) of
                Cancelled \<Rightarrow> (None, sm1, t, en1)
              | Raised x \<Rightarrow> (Some (Inl x), sm1, t, en1)
              | Responded pr \<Rightarrow>
                  (let (res, sm2, en2) = respond d env cx t now provider
                         (fallback_rationale (cx_rationale cx) model attempt_index) pr sm1 en1
                   in (Some res, sm2, t, en2))))"

text \<open>The handler of \<open>except Exception\<close>: an error it raises itself leaves the method.\<close>

definition handle_failure :: "deps \<Rightarrow> rat \<Rightarrow> rat \<Rightarrow> request_context \<Rightarrow> string \<Rightarrow> provider_exn \<Rightarrow> bool \<Rightarrow>
    request_state \<Rightarrow> engine \<Rightarrow> unit result \<times> request_state \<times> engine" where
  "handle_failure d now attempt_started_at cx provider x is_last sm en =
     (case record_attempt_failure d now attempt_started_at (cx_request cx) provider x en of
        (Inl e, en1) \<Rightarrow> (Inl e, sm, en1)
      | (Inr _, en1) \<Rightarrow>
          (if \<not> is_last \<and> sm \<noteq> DISPATCHED then (Inr (), sm, en1)
           else case transition sm (if is_last then FAILED else FALLBACK) of
             Inl e \<Rightarrow> (Inl e, sm, en1)
           | Inr sm1 \<Rightarrow> (Inr (), sm1, en1)))"

subsection \<open>The attempts of one request\<close>

datatype 'a completion = Answer 'a | Error py_error | Interrupted

fun attempt_loop :: "deps \<Rightarrow> (nat \<Rightarrow> attempt_env) \<Rightarrow> request_context \<Rightarrow> nat \<Rightarrow> rat \<Rightarrow> string list \<Rightarrow>
    request_state \<Rightarrow> engine \<Rightarrow> router_response completion \<times> request_state \<times> engine" where
  "attempt_loop d envs cx i now [] sm en = (Error RoutingFailedError, sm, en)"
| "attempt_loop d envs cx i now (model # models) sm en =
     (case catalog_get (en_catalog en) model of
        Inl e \<Rightarrow> (Error e, sm, en)
      | Inr c \<Rightarrow>
          (case attempt_guard now cx c en of
             (Inl _, en1) \<Rightarrow>
               (if models \<noteq> [] then attempt_loop d envs cx (Suc i) now models sm en1
                else case transition sm FAILED of
                  Inl e \<Rightarrow> (Error e, sm, en1)
                | Inr sm1 \<Rightarrow> attempt_loop d envs cx (Suc i) now models sm1 en1)
           | (Inr _, en1) \<Rightarrow>
               (case dispatch d (envs i) cx now c model i sm en1 of
                  (None, sm1, t, en2) \<Rightarrow> (Interrupted, sm1, en2)
                | (Some (Inr response), sm1, t, en2) \<Rightarrow> (Answer response, sm1, en2)
                | (Some (Inl x), sm1, t, en2) \<Rightarrow>
                    (case handle_failure d t now cx (mc_provider c) x (models = []) sm1 en2 of
                       (Inl e, sm2, en3) \<Rightarrow> (Error e, sm2, en3)
                     | (Inr _, sm2, en3) \<Rightarrow> attempt_loop d envs cx (Suc i) t models sm2 en3))))"

text \<open>What both entry points do first: rate limit, observe, decide, order the attempts.\<close>

definition start_request :: "deps \<Rightarrow> rat \<Rightarrow> router_request \<Rightarrow> engine \<Rightarrow>
    (request_context \<times> string list) result \<times> request_state \<times> engine" where
  "start_request d now r en =
     (case assert_allowed now (rq_api_key_id r) 1 (en_rate_limiter en) of
        (Inl e, rl) \<Rightarrow> (Inl e, RECEIVED, en\<lparr> en_rate_limiter := rl \<rparr>)
      | (Inr _, rl) \<Rightarrow>
          (let en1 = en\<lparr> en_rate_limiter := rl \<rparr>;
               name = (case rq_strategy r of Some s \<Rightarrow> s | None \<Rightarrow> en_default_strategy en);
               signals = dp_analyze d r
           in case transition RECEIVED CLASSIFIED of
                Inl e \<Rightarrow> (Inl e, RECEIVED, en1)
              | Inr sm1 \<Rightarrow>
                  (case dp_strategies d name of
                     None \<Rightarrow> (Inl (KeyError name), sm1, en1)
                   | Some strategy \<Rightarrow>
                       (case strategy now r signals en1 of
                          (Inl e, en2) \<Rightarrow> (Inl e, sm1, en2)
                        | (Inr dec, en2) \<Rightarrow>
                            (case transition sm1 ROUTED of
                               Inl e \<Rightarrow> (Inl e, sm1, en2)
                             | Inr sm2 \<Rightarrow>
                                 (case order_attempts d now (rd_chosen_model dec) (rd_fallback_chain dec) en2 of
                                    (Inl e, en3) \<Rightarrow> (Inl e, sm2, en3)
                                  | (Inr attempts, en3) \<Rightarrow>
                                      (Inr (\<lparr> cx_request = r, cx_signals = signals, cx_strategy_name = name,
                                             cx_rationale = rd_rationale dec, cx_started_at = now \<rparr>, attempts),
                                       sm2, en3)))))))"

definition complete :: "deps \<Rightarrow> (nat \<Rightarrow> attempt_env) \<Rightarrow> rat \<Rightarrow> router_request \<Rightarrow> engine \<Rightarrow>
    router_response completion \<times> request_state \<times> engine" where
  "complete d envs now r en = (case start_request d now r en of
      (Inl e, sm, en1) \<Rightarrow> (Error e, sm, en1)
    | (Inr (cx, attempts), sm, en1) \<Rightarrow> attempt_loop d envs cx 0 now attempts sm en1)"

end
