(* ===== verification/PyRegex.thy ===== *)
theory PyRegex
  imports PyStr
begin

text \<open>
  The part of Python's \<open>re\<close> the source uses, on code points below 256: a pattern yields its matches at a
  position in the order the backtracking matcher tries them, so the first is the one Python finds;
  \<open>findall\<close> and \<open>sub\<close> scan for the leftmost match and go on behind it. A position is the character before
  it, if any, and the text from it on. The last section relates bounded keywords to the words of a text.
\<close>

subsection \<open>Patterns\<close>

definition is_word :: "char \<Rightarrow> bool" where
  "is_word c = (let n = of_char c :: nat in 48 \<le> n \<and> n \<le> 57 \<or> 65 \<le> n \<and> n \<le> 90 \<or> n = 95 \<or> 97 \<le> n \<and> n \<le> 122 \<or>
     n \<in> {170, 178, 179, 181, 185, 186} \<or> 188 \<le> n \<and> n \<le> 190 \<or> 192 \<le> n \<and> n \<noteq> 215 \<and> n \<noteq> 247)"

type_synonym rx_pos = "char option \<times> string"

text \<open>\<open>Bound\<close> is \<open>\\b\<close>, \<open>Many\<close> a class with a greedy \<open>+\<close>, and the last two are \<open>(?<!\\w)\<close> and \<open>(?!\\w)\<close>.\<close>

datatype rx = One "char \<Rightarrow> bool" | Many "char \<Rightarrow> bool" | Then rx rx | Or rx rx | Opt rx | Bound | NotAfterWord | NotBeforeWord

definition wordy :: "char option \<Rightarrow> bool" where
  "wordy p = (case p of None \<Rightarrow> False | Some c \<Rightarrow> is_word c)"

definition next_char :: "string \<Rightarrow> char option" where
  "next_char s = (case s of [] \<Rightarrow> None | c # _ \<Rightarrow> Some c)"

fun run_of :: "(char \<Rightarrow> bool) \<Rightarrow> string \<Rightarrow> rx_pos list" where
  "run_of P [] = []"
| "run_of P (c # cs) = (if P c then run_of P cs @ [(Some c, cs)] else [])"

fun rx_ends :: "rx \<Rightarrow> rx_pos \<Rightarrow> rx_pos list" where
  "rx_ends (One P) (p, s) = (case s of [] \<Rightarrow> [] | c # cs \<Rightarrow> if P c then [(Some c, cs)] else [])"
| "rx_ends (Many P) (p, s) = run_of P s"
| "rx_ends (Then a b) pos = concat (map (rx_ends b) (rx_ends a pos))"
| "rx_ends (Or a b) pos = rx_ends a pos @ rx_ends b pos"
| "rx_ends (Opt a) pos = rx_ends a pos @ [pos]"
| "rx_ends Bound (p, s) = (if wordy p \<noteq> wordy (next_char s) then [(p, s)] else [])"
| "rx_ends NotAfterWord (p, s) = (if wordy p then [] else [(p, s)])"
| "rx_ends NotBeforeWord (p, s) = (if wordy (next_char s) then [] else [(p, s)])"

text \<open>Literals, alternatives and counted repetitions\<close>

fun rx_all :: "rx list \<Rightarrow> rx" where
  "rx_all [] = Opt (One (\<lambda>_. False))"
| "rx_all [x] = x"
| "rx_all (x # xs) = Then x (rx_all xs)"

fun rx_any :: "rx list \<Rightarrow> rx" where
  "rx_any [] = One (\<lambda>_. False)"
| "rx_any [x] = x"
| "rx_any (x # xs) = Or x (rx_any xs)"

definition rx_text :: "string \<Rightarrow> rx" where
  "rx_text t = rx_all (map (\<lambda>c. One ((=) c)) t)"

text \<open>With \<open>re.I\<close>, for a lower-case literal\<close>

definition rx_text_i :: "string \<Rightarrow> rx" where
  "rx_text_i t = rx_all (map (\<lambda>c. One (\<lambda>x. lower_char x = c)) t)"

definition rx_class :: "string \<Rightarrow> rx" where
  "rx_class t = One (\<lambda>c. c \<in> set t)"

definition rx_class_i :: "string \<Rightarrow> rx" where
  "rx_class_i t = One (\<lambda>c. lower_char c \<in> set t)"

subsection \<open>Scanning\<close>

datatype piece = Gap char | Hit string

function pieces :: "rx \<Rightarrow> char option \<Rightarrow> string \<Rightarrow> piece list" where
  "pieces x p [] = []"
| "pieces x p (c # cs) = (case rx_ends x (p, c # cs) of
     (p', s) # _ \<Rightarrow> if length s \<le> length cs then Hit (take (length (c # cs) - length s) (c # cs)) # pieces x p' s
       else Gap c # pieces x (Some c) cs
   | [] \<Rightarrow> Gap c # pieces x (Some c) cs)"
  by pat_completeness auto
termination by (relation "measure (\<lambda>(x, p, s). length s)") auto

definition is_hit :: "piece \<Rightarrow> bool" where
  "is_hit y = (case y of Hit _ \<Rightarrow> True | Gap _ \<Rightarrow> False)"

text \<open>\<open>len(pattern.findall(text))\<close> and \<open>pattern.sub(replacement, text)\<close>; no pattern of the source matches the empty text.\<close>

definition rx_count :: "rx \<Rightarrow> string \<Rightarrow> int" where
  "rx_count x s = int (length (filter is_hit (pieces x None s)))"

definition rx_sub :: "rx \<Rightarrow> string \<Rightarrow> string \<Rightarrow> string" where
  "rx_sub x replacement s = concat (map (\<lambda>y. case y of Hit _ \<Rightarrow> replacement | Gap c \<Rightarrow> [c]) (pieces x None s))"

text \<open>\<open>re.findall(r"\\w+", text)\<close>\<close>

definition rx_words :: "string \<Rightarrow> string list" where
  "rx_words s = concat (map (\<lambda>y. case y of Hit w \<Rightarrow> [w] | Gap _ \<Rightarrow> []) (pieces (Many is_word) None s))"

subsection \<open>The pieces are the text\<close>

definition piece_text :: "piece \<Rightarrow> string" where
  "piece_text y = (case y of Hit w \<Rightarrow> w | Gap c \<Rightarrow> [c])"

lemma piece_texts [simp]: "piece_text (Hit w) = w" "piece_text (Gap c) = [c]"
  by (simp_all add: piece_text_def)

lemma run_of_ends: "(q, u) \<in> set (run_of P s) \<Longrightarrow> \<exists>t. s = t @ u \<and> t \<noteq> [] \<and> list_all P t \<and> q = Some (last t)"
proof (induction s)
  case (Cons c cs)
  show ?case
  proof (cases "(q, u) = (Some c, cs)")
    case True
    then show ?thesis using Cons.prems by (intro exI [of _ "[c]"]) (auto split: if_splits)
  next
    case False
    then obtain t where "cs = t @ u" "t \<noteq> []" "list_all P t" "q = Some (last t)" "P c"
      using Cons by (auto split: if_splits)
    then show ?thesis by (intro exI [of _ "c # t"]) simp
  qed
qed simp

lemma ends_suffix: "pos' \<in> set (rx_ends x pos) \<Longrightarrow> \<exists>t. snd pos = t @ snd pos' \<and> (t = [] \<longrightarrow> fst pos' = fst pos) \<and> (t \<noteq> [] \<longrightarrow> fst pos' = Some (last t))"
proof (induction x pos arbitrary: pos' rule: rx_ends.induct)
  case (2 P p s)
  then show ?case using run_of_ends [of "fst pos'" "snd pos'" P s] by auto
next
  case (3 a b pos)
  then obtain mid where "mid \<in> set (rx_ends a pos)" "pos' \<in> set (rx_ends b mid)" by auto
  with 3 obtain t t' where "snd pos = t @ snd mid" "t = [] \<longrightarrow> fst mid = fst pos" "t \<noteq> [] \<longrightarrow> fst mid = Some (last t)"
    "snd mid = t' @ snd pos'" "t' = [] \<longrightarrow> fst pos' = fst mid" "t' \<noteq> [] \<longrightarrow> fst pos' = Some (last t')" by meson
  then show ?case by (intro exI [of _ "t @ t'"]) (cases "t' = []"; auto)
qed (force split: list.splits if_splits)+

lemma pieces_step:
  assumes "rx_ends x (p, c # cs) = (q, u) # rest" "length u \<le> length cs" "c # cs = t @ u"
  shows "pieces x p (c # cs) = Hit t # pieces x q u"
proof -
  have "length (c # cs) - length u = length t" using assms(3) by simp
  then have "take (length (c # cs) - length u) (c # cs) = t" unfolding assms(3) by simp
  then show ?thesis using assms(1,2) by simp
qed

lemma pieces_partition: "concat (map piece_text (pieces x p s)) = s"
proof (induction x p s rule: pieces.induct)
  case (2 x p c cs)
  show ?case
  proof (cases "rx_ends x (p, c # cs)")
    case (Cons pos rest)
    obtain q u where pos: "pos = (q, u)" by fastforce
    obtain t where t: "c # cs = t @ u" using ends_suffix [of pos x "(p, c # cs)"] Cons pos by auto
    show ?thesis
    proof (cases "length u \<le> length cs")
      case True
      have "concat (map piece_text (pieces x q u)) = u" using 2(2) [OF Cons pos [symmetric] True] .
      then show ?thesis using pieces_step [OF Cons [unfolded pos] True t] t by simp
    next
      case False
      then show ?thesis using 2(3) [OF Cons pos [symmetric] False] Cons pos by simp
    qed
  qed (use 2 in simp)
qed simp

subsection \<open>Bounded keywords\<close>

text \<open>A keyword pattern has only classes of word characters and does not match the empty text.\<close>

fun word_only :: "rx \<Rightarrow> bool" where
  "word_only (One P) = (\<forall>c. P c \<longrightarrow> is_word c)"
| "word_only (Many P) = (\<forall>c. P c \<longrightarrow> is_word c)"
| "word_only (Then a b) = (word_only a \<and> word_only b)"
| "word_only (Or a b) = (word_only a \<and> word_only b)"
| "word_only (Opt a) = word_only a"
| "word_only _ = False"

fun solid :: "rx \<Rightarrow> bool" where
  "solid (Then a b) = (solid a \<or> solid b)"
| "solid (Or a b) = (solid a \<and> solid b)"
| "solid (One P) = True"
| "solid (Many P) = True"
| "solid _ = False"

definition bounded :: "rx \<Rightarrow> rx" where
  "bounded x = Then Bound (Then x Bound)"

text \<open>A whole word is of the language of a pattern.\<close>

definition accepts :: "rx \<Rightarrow> string \<Rightarrow> bool" where
  "accepts x w \<longleftrightarrow> [] \<in> snd ` set (rx_ends x (None, w))"

lemma run_of_append: "\<not> wordy (next_char rest) \<Longrightarrow> \<forall>c. P c \<longrightarrow> is_word c \<Longrightarrow> run_of P (w @ rest) = map (apsnd (\<lambda>u. u @ rest)) (run_of P w)"
proof (induction w)
  case Nil
  then show ?case by (cases rest) (auto simp: wordy_def next_char_def)
qed auto

lemma ends_append:
  "word_only x \<Longrightarrow> \<not> wordy (next_char rest) \<Longrightarrow>
    rx_ends x (fst pos, snd pos @ rest) = map (apsnd (\<lambda>u. u @ rest)) (rx_ends x pos)"
proof (induction x arbitrary: pos)
  case (One P)
  then show ?case by (cases pos; cases "snd pos"; cases rest) (auto simp: wordy_def next_char_def)
next
  case (Many P)
  then show ?case by (cases pos) (simp add: run_of_append)
next
  case (Then a b)
  have "rx_ends b (q, u @ rest) = map (apsnd (\<lambda>u. u @ rest)) (rx_ends b (q, u))" for q u
    using Then.IH(2) [of "(q, u)"] Then.prems by simp
  then have "concat (map (rx_ends b) (map (apsnd (\<lambda>u. u @ rest)) xs)) = map (apsnd (\<lambda>u. u @ rest)) (concat (map (rx_ends b) xs))" for xs
    by (induction xs) auto
  moreover have "rx_ends a (fst pos, snd pos @ rest) = map (apsnd (\<lambda>u. u @ rest)) (rx_ends a pos)"
    using Then.IH(1) Then.prems by simp
  ultimately show ?case by (simp only: rx_ends.simps)
qed auto

lemma ends_words: "word_only x \<Longrightarrow> pos' \<in> set (rx_ends x pos) \<Longrightarrow> \<exists>t. snd pos = t @ snd pos' \<and> list_all is_word t"
proof (induction x arbitrary: pos pos')
  case (Many P)
  obtain p s where "pos = (p, s)" by fastforce
  with Many obtain t where "s = t @ snd pos'" "list_all P t" using run_of_ends [of "fst pos'" "snd pos'" P s] by auto
  then show ?case using Many \<open>pos = (p, s)\<close> by (auto simp: list_all_iff)
next
  case (Then a b)
  then obtain mid where "mid \<in> set (rx_ends a pos)" "pos' \<in> set (rx_ends b mid)" by auto
  with Then obtain t t' where "snd pos = t @ snd mid" "list_all is_word t" "snd mid = t' @ snd pos'" "list_all is_word t'"
    by (meson word_only.simps(3))
  then show ?case by (intro exI [of _ "t @ t'"]) simp
next
  case (One P)
  then show ?case by (cases pos) (fastforce split: list.splits if_splits)
qed fastforce+

lemma ends_solid: "solid x \<Longrightarrow> word_only x \<Longrightarrow> pos' \<in> set (rx_ends x pos) \<Longrightarrow> length (snd pos') < length (snd pos)"
proof (induction x arbitrary: pos pos')
  case (Many P)
  obtain p s where "pos = (p, s)" by fastforce
  with Many show ?case using run_of_ends [of "fst pos'" "snd pos'" P s] by auto
next
  case (Then a b)
  then obtain mid where mid: "mid \<in> set (rx_ends a pos)" "pos' \<in> set (rx_ends b mid)" by auto
  have "length (snd mid) \<le> length (snd pos)" "length (snd pos') \<le> length (snd mid)"
    using ends_suffix [OF mid(1)] ends_suffix [OF mid(2)] by auto
  moreover have "length (snd mid) < length (snd pos) \<or> length (snd pos') < length (snd mid)"
    using Then.IH(1) [OF _ _ mid(1)] Then.IH(2) [OF _ _ mid(2)] Then.prems(1,2) by auto
  ultimately show ?case by linarith
next
  case (One P)
  then show ?case by (cases pos) (fastforce split: list.splits if_splits)
qed auto

lemma ends_after: "word_only x \<Longrightarrow> map snd (rx_ends x (p, s)) = map snd (rx_ends x (p', s))"
proof (induction x arbitrary: p p' s)
  case (Then a b)
  have b: "map snd (rx_ends b pos) = map snd (rx_ends b (p, snd pos))" for pos p
    using Then.IH(2) [of "fst pos" "snd pos"] Then.prems by simp
  have "concat (map (map snd) (map (rx_ends b) xs)) = concat (map (\<lambda>u. map snd (rx_ends b (p, u))) (map snd xs))" for xs p
    by (induction xs) (simp_all, metis b)
  then have "map snd (concat (map (rx_ends b) xs)) = concat (map (\<lambda>u. map snd (rx_ends b (p, u))) (map snd xs))" for xs p
    by (simp add: map_concat)
  from this [of "rx_ends a (p, s)" None] this [of "rx_ends a (p', s)" None] show ?case
    using Then.IH(1) [of p s p'] Then.prems by (metis rx_ends.simps(3) word_only.simps(3))
next
  case (Or a b)
  then show ?case by (metis map_append rx_ends.simps(4) word_only.simps(4))
next
  case (Opt a)
  then show ?case by (metis (no_types) list.simps(8,9) map_append rx_ends.simps(5) snd_conv word_only.simps(5))
qed (auto split: list.splits)

text \<open>At the start of a word only the whole word can match, elsewhere nothing.\<close>

lemma bounded_at_word:
  assumes x: "word_only x" "solid x" and p: "\<not> wordy p" and w: "w \<noteq> []" "list_all is_word w" and rest: "\<not> wordy (next_char rest)"
  shows "rx_ends (bounded x) (p, w @ rest) = map (\<lambda>_. (Some (last w), rest)) (filter (\<lambda>pos. snd pos = []) (rx_ends x (p, w)))"
proof -
  have bound: "rx_ends Bound (p, w @ rest) = [(p, w @ rest)]"
    using p w by (cases w) (simp_all add: wordy_def next_char_def)
  have each: "rx_ends Bound (apsnd (\<lambda>u. u @ rest) pos) = (if snd pos = [] then [(Some (last w), rest)] else [])"
    if pos: "pos \<in> set (rx_ends x (p, w))" for pos
  proof -
    obtain q u where qu: "pos = (q, u)" by fastforce
    obtain t where t: "w = t @ u" "t \<noteq> [] \<longrightarrow> q = Some (last t)" using ends_suffix [OF pos] qu by auto
    have "t \<noteq> []" using ends_solid [OF x(2,1) pos] t(1) qu by auto
    then have q: "wordy q" using t w(2) by (auto simp: wordy_def list_all_iff)
    show ?thesis
    proof (cases u)
      case Nil
      then show ?thesis using q rest t \<open>t \<noteq> []\<close> by (simp add: qu)
    next
      case (Cons c cs)
      then have "wordy (next_char (u @ rest))" using t(1) w(2) by (simp add: wordy_def next_char_def)
      then show ?thesis using q Cons by (simp add: qu)
    qed
  qed
  have "concat (map (rx_ends Bound) (map (apsnd (\<lambda>u. u @ rest)) xs)) = map (\<lambda>_. (Some (last w), rest)) (filter (\<lambda>pos. snd pos = []) xs)"
    if "set xs \<subseteq> set (rx_ends x (p, w))" for xs
    using that by (induction xs) (simp_all add: each)
  from this [of "rx_ends x (p, w)"] show ?thesis
    using ends_append [OF x(1) rest, of "(p, w)"] by (simp add: bounded_def bound del: rx_ends.simps(6))
qed

lemma bounded_in_word: "wordy p \<Longrightarrow> wordy (next_char s) \<Longrightarrow> rx_ends (bounded x) (p, s) = []"
  by (simp add: bounded_def)

lemma bounded_off_word:
  assumes x: "word_only x" "solid x" and "\<not> wordy (next_char s)" shows "rx_ends (bounded x) (p, s) = []"
proof -
  have "rx_ends x (p, s) = []"
  proof (rule ccontr)
    assume "rx_ends x (p, s) \<noteq> []"
    then obtain pos where pos: "pos \<in> set (rx_ends x (p, s))" by (meson list.set_sel(1))
    obtain t where "s = t @ snd pos" "list_all is_word t" using ends_words [OF x(1) pos] by auto
    moreover have "t \<noteq> []" using ends_solid [OF x(2,1) pos] calculation(1) by auto
    ultimately show False using assms(3) by (cases t) (auto simp: wordy_def next_char_def)
  qed
  then show ?thesis by (simp add: bounded_def)
qed

lemma skip_word:
  "wordy p \<Longrightarrow> list_all is_word v \<Longrightarrow>
    pieces (bounded x) p (v @ rest) = map Gap v @ pieces (bounded x) (if v = [] then p else Some (last v)) rest"
proof (induction v arbitrary: p)
  case (Cons c v)
  have "rx_ends (bounded x) (p, c # v @ rest) = []"
    using Cons.prems by (intro bounded_in_word) (simp_all add: wordy_def next_char_def)
  then show ?case using Cons.IH [of "Some c"] Cons.prems by (simp add: wordy_def)
qed simp

lemma longest_run: "w \<noteq> [] \<Longrightarrow> list_all P w \<Longrightarrow> (\<forall>c cs. rest = c # cs \<longrightarrow> \<not> P c) \<Longrightarrow> \<exists>ys. run_of P (w @ rest) = (Some (last w), rest) # ys"
proof (induction w)
  case (Cons c w)
  show ?case
  proof (cases "w = []")
    case True
    then show ?thesis using Cons.prems by (cases rest) auto
  next
    case False
    then obtain ys where "run_of P (w @ rest) = (Some (last w), rest) # ys" using Cons by auto
    then show ?thesis using Cons.prems False by simp
  qed
qed simp

text \<open>
  Counting a bounded keyword is counting the words of the text that are of its language: no keyword is
  found inside a longer word, and none is missed whatever stands before or after it.
\<close>

lemma first_word:
  assumes "is_word c" obtains w rest where "c # cs = w @ rest" "w \<noteq> []" "list_all is_word w" "\<not> wordy (next_char rest)"
proof
  show "c # cs = takeWhile is_word (c # cs) @ dropWhile is_word (c # cs)" by simp
  show "takeWhile is_word (c # cs) \<noteq> []" using assms by simp
  show "list_all is_word (takeWhile is_word (c # cs))" by (auto simp: list_all_iff dest: set_takeWhileD)
  have "\<not> wordy (next_char (dropWhile is_word s))" for s
    by (induction s) (simp_all add: wordy_def next_char_def)
  then show "\<not> wordy (next_char (dropWhile is_word (c # cs)))" .
qed

definition hit_words :: "piece list \<Rightarrow> string list" where
  "hit_words ys = concat (map (\<lambda>y. case y of Hit w \<Rightarrow> [w] | Gap _ \<Rightarrow> []) ys)"

lemma hit_words_simps [simp]:
  "hit_words [] = []" "hit_words (Hit w # ys) = w # hit_words ys" "hit_words (Gap c # ys) = hit_words ys"
  by (simp_all add: hit_words_def)

lemma hits_are_words:
  assumes x: "word_only x" "solid x" and "\<not> (wordy p \<and> wordy (next_char s))"
  shows "length (filter is_hit (pieces (bounded x) p s)) = length (filter (accepts x) (hit_words (pieces (Many is_word) p s)))"
  using assms(3)
proof (induction "length s" arbitrary: p s rule: less_induct)
  case less
  show ?case
  proof (cases s)
    case (Cons c cs)
    show ?thesis
    proof (cases "is_word c")
      case False
      then have off: "\<not> wordy (next_char s)" by (simp add: Cons wordy_def next_char_def)
      have "pieces (bounded x) p s = Gap c # pieces (bounded x) (Some c) cs"
        using bounded_off_word [OF x off, of p] by (simp add: Cons)
      moreover have "pieces (Many is_word) p s = Gap c # pieces (Many is_word) (Some c) cs" using False by (simp add: Cons)
      moreover have "\<not> (wordy (Some c) \<and> wordy (next_char cs))" using False by (simp add: wordy_def)
      ultimately show ?thesis using less.hyps [of cs "Some c"] by (simp add: Cons is_hit_def)
    next
      case True
      then have p: "\<not> wordy p" using less.prems by (simp add: Cons wordy_def next_char_def)
      obtain w rest where w: "s = w @ rest" "w \<noteq> []" "list_all is_word w" "\<not> wordy (next_char rest)"
        using first_word [OF True] Cons by metis
      have short: "length rest < length s" using w(1,2) by simp
      have split: "pieces y p s = Hit w # pieces y (Some (last w)) rest" if "rx_ends y (p, s) = (Some (last w), rest) # ys" for y ys
        using pieces_step [of y p c cs "Some (last w)" rest ys w] that short w(1) by (simp add: Cons)
      obtain ys where "run_of is_word s = (Some (last w), rest) # ys"
        using longest_run [OF w(2,3), of rest] w(1,4) by (cases rest) (auto simp: wordy_def next_char_def)
      then have words: "pieces (Many is_word) p s = Hit w # pieces (Many is_word) (Some (last w)) rest" by (intro split) simp
      have ends: "rx_ends (bounded x) (p, s) = map (\<lambda>_. (Some (last w), rest)) (filter (\<lambda>pos. snd pos = []) (rx_ends x (p, w)))"
        unfolding w(1) by (rule bounded_at_word [OF x p w(2-4)])
      have acc: "accepts x w \<longleftrightarrow> filter (\<lambda>pos. snd pos = []) (rx_ends x (p, w)) \<noteq> []"
      proof -
        have "accepts x w \<longleftrightarrow> [] \<in> set (map snd (rx_ends x (p, w)))" unfolding accepts_def ends_after [OF x(1), of None w p, symmetric] by simp
        then show ?thesis by (force simp: filter_empty_conv)
      qed
      have rec: "length (filter is_hit (pieces (bounded x) (Some (last w)) rest)) =
          length (filter (accepts x) (hit_words (pieces (Many is_word) (Some (last w)) rest)))"
        using less.hyps [OF short] w(4) by blast
      show ?thesis
      proof (cases "accepts x w")
        case True
        then obtain ys where "rx_ends (bounded x) (p, s) = (Some (last w), rest) # ys" using acc ends by (cases "filter (\<lambda>pos. snd pos = []) (rx_ends x (p, w))") auto
        then show ?thesis using split words rec True by (simp add: is_hit_def)
      next
        case False
        then have none: "rx_ends (bounded x) (p, s) = []" using acc ends by simp
        obtain v where v: "w = c # v" using w(1,2) Cons by (cases w) auto
        have "pieces (bounded x) p s = Gap c # pieces (bounded x) (Some c) (v @ rest)" using none w(1) by (simp add: v)
        also have "\<dots> = map Gap w @ pieces (bounded x) (Some (last w)) rest"
          using skip_word [of "Some c" v x rest] w(3) by (simp add: v wordy_def)
        finally show ?thesis using words rec False by (simp add: is_hit_def filter_map comp_def)
      qed
    qed
  qed simp
qed

lemma count_bounded:
  assumes "word_only x" "solid x" shows "rx_count (bounded x) s = int (length (filter (accepts x) (rx_words s)))"
  using hits_are_words [OF assms, of None s] by (simp add: rx_count_def rx_words_def hit_words_def wordy_def)

text \<open>The language of a pattern without assertions, and patterns that spell a list of words in any case\<close>

fun rx_lang :: "rx \<Rightarrow> string \<Rightarrow> bool" where
  "rx_lang (One P) w = (\<exists>c. w = [c] \<and> P c)"
| "rx_lang (Many P) w = (w \<noteq> [] \<and> list_all P w)"
| "rx_lang (Then a b) w = (\<exists>u v. w = u @ v \<and> rx_lang a u \<and> rx_lang b v)"
| "rx_lang (Or a b) w = (rx_lang a w \<or> rx_lang b w)"
| "rx_lang (Opt a) w = (w = [] \<or> rx_lang a w)"
| "rx_lang _ w = False"

fun plain :: "rx \<Rightarrow> bool" where
  "plain (One P) = True"
| "plain (Many P) = True"
| "plain (Then a b) = (plain a \<and> plain b)"
| "plain (Or a b) = (plain a \<and> plain b)"
| "plain (Opt a) = plain a"
| "plain _ = False"

lemma word_only_plain: "word_only x \<Longrightarrow> plain x"
  by (induction x) auto

lemma run_of_lang: "(\<exists>q. (q, v) \<in> set (run_of P s)) \<longleftrightarrow> (\<exists>u. s = u @ v \<and> u \<noteq> [] \<and> list_all P u)"
proof
  assume "\<exists>u. s = u @ v \<and> u \<noteq> [] \<and> list_all P u"
  then obtain u where "s = u @ v" "u \<noteq> []" "list_all P u" by blast
  then show "\<exists>q. (q, v) \<in> set (run_of P s)"
  proof (induction u arbitrary: s)
    case (Cons c u)
    then show ?case by (cases "u = []") auto
  qed simp
qed (use run_of_ends in blast)

lemma ends_lang: "plain x \<Longrightarrow> (\<exists>q. (q, v) \<in> set (rx_ends x (p, s))) \<longleftrightarrow> (\<exists>u. s = u @ v \<and> rx_lang x u)"
proof (induction x arbitrary: p s v)
  case (One P)
  then show ?case by (cases s) auto
next
  case (Many P)
  then show ?case by (simp add: run_of_lang)
next
  case (Then a b)
  have first: "(\<exists>q. (q, m) \<in> set (rx_ends a (p, s))) \<longleftrightarrow> (\<exists>u. s = u @ m \<and> rx_lang a u)" for m
    using Then.IH(1) Then.prems by simp
  have second: "(\<exists>q'. (q', v) \<in> set (rx_ends b (q, m))) \<longleftrightarrow> (\<exists>w. m = w @ v \<and> rx_lang b w)" for q m
    using Then.IH(2) Then.prems by simp
  have "(\<exists>q. (q, v) \<in> set (rx_ends (Then a b) (p, s))) \<longleftrightarrow>
      (\<exists>m. (\<exists>q. (q, m) \<in> set (rx_ends a (p, s)) \<and> (\<exists>q'. (q', v) \<in> set (rx_ends b (q, m)))))"
    by auto
  also have "\<dots> \<longleftrightarrow> (\<exists>m. (\<exists>u. s = u @ m \<and> rx_lang a u) \<and> (\<exists>w. m = w @ v \<and> rx_lang b w))"
    unfolding second first [symmetric] by blast
  also have "\<dots> \<longleftrightarrow> (\<exists>u w. s = (u @ w) @ v \<and> rx_lang a u \<and> rx_lang b w)" by auto
  also have "\<dots> \<longleftrightarrow> (\<exists>u. s = u @ v \<and> rx_lang (Then a b) u)" unfolding rx_lang.simps by blast
  finally show ?case .
next
  case (Or a b)
  have "(\<exists>q. (q, v) \<in> set (rx_ends (Or a b) (p, s))) \<longleftrightarrow> (\<exists>q. (q, v) \<in> set (rx_ends a (p, s))) \<or> (\<exists>q. (q, v) \<in> set (rx_ends b (p, s)))"
    by auto
  then show ?case using Or by auto
next
  case (Opt a)
  have "(\<exists>q. (q, v) \<in> set (rx_ends (Opt a) (p, s))) \<longleftrightarrow> (\<exists>q. (q, v) \<in> set (rx_ends a (p, s))) \<or> v = s"
    by auto
  then show ?case using Opt by auto
qed auto

lemma accepts_lang: "word_only x \<Longrightarrow> accepts x w = rx_lang x w"
  using ends_lang [OF word_only_plain, of x "[]" None w] by (force simp: accepts_def)

definition spells :: "rx \<Rightarrow> string list \<Rightarrow> bool" where
  "spells x ws \<longleftrightarrow> word_only x \<and> (\<forall>w. rx_lang x w \<longleftrightarrow> lower w \<in> set ws)"

lemma lower_append_iff: "lower w = x @ y \<longleftrightarrow> (\<exists>u v. w = u @ v \<and> lower u = x \<and> lower v = y)"
  unfolding lower_def by (metis map_eq_append_conv)

lemma spells_Then:
  assumes a: "spells a xs" and b: "spells b ys" shows "spells (Then a b) (concat (map (\<lambda>x. map ((@) x) ys) xs))"
proof -
  have "rx_lang (Then a b) w \<longleftrightarrow> lower w \<in> set (concat (map (\<lambda>x. map ((@) x) ys) xs))" for w
  proof -
    have "rx_lang (Then a b) w \<longleftrightarrow> (\<exists>x \<in> set xs. \<exists>y \<in> set ys. \<exists>u v. w = u @ v \<and> lower u = x \<and> lower v = y)"
      using a b by (auto simp: spells_def)
    then show ?thesis unfolding lower_append_iff [symmetric] by auto
  qed
  then show ?thesis using a b unfolding spells_def by simp
qed

lemma spells_Or: "spells a xs \<Longrightarrow> spells b ys \<Longrightarrow> spells (Or a b) (xs @ ys)"
  by (auto simp: spells_def)

lemma spells_Opt: "spells a xs \<Longrightarrow> spells (Opt a) ([] # xs)"
  by (auto simp: spells_def lower_def)

lemma word_letter: "list_all (\<lambda>n. \<forall>c \<in> {char_of n, char_of (n - 32)}. is_word c) [97..<123]"
  by code_simp

lemma lower_letter_word: "CHR ''a'' \<le> lower_char c \<Longrightarrow> lower_char c \<le> CHR ''z'' \<Longrightarrow> is_word c"
  by (auto simp: lower_char_def is_word_def Let_def less_eq_char_def split: if_splits)

definition letters :: "string \<Rightarrow> bool" where
  "letters t \<longleftrightarrow> list_all (\<lambda>c. CHR ''a'' \<le> c \<and> c \<le> CHR ''z'') t"

lemma lower_Cons [simp]: "lower (c # w) = lower_char c # lower w" and lower_Nil [simp]: "lower [] = []"
  by (simp_all add: lower_def)

lemma spells_class: "letters t \<Longrightarrow> spells (rx_class_i t) (map (\<lambda>c. [c]) t)"
  by (auto simp: spells_def rx_class_i_def letters_def list_all_iff lower_letter_word lower_def)

lemma spells_text: "letters t \<Longrightarrow> t \<noteq> [] \<Longrightarrow> spells (rx_text_i t) [t]"
proof (induction t)
  case (Cons c t)
  then have c: "spells (One (\<lambda>x. lower_char x = c)) [[c]]"
    by (auto simp: spells_def letters_def lower_letter_word lower_def)
  show ?case
  proof (cases t)
    case Nil
    then show ?thesis using c by (simp add: rx_text_i_def)
  next
    case (Cons d ds)
    then have "spells (rx_text_i t) [t]" using Cons.IH Cons.prems by (simp add: letters_def)
    from spells_Then [OF c this] show ?thesis by (simp add: rx_text_i_def Cons)
  qed
qed simp

end
