(* ===== verification/Analyzer.thy ===== *)
theory Analyzer
  imports PyRegex Schemas
begin

text \<open>
  The observe phase: \<open>src/classifier/features.py\<close> (keyword counts of a prompt), \<open>src/classifier/complexity.py\<close>
  (complexity, domain and latency classifiers) and \<open>src/router/analyzer.py\<close>. \<open>math.exp\<close> is the parameter
  \<open>py_exp\<close>; of it only monotonicity and positivity are used.
\<close>

subsection \<open>Features\<close>

definition CODE_PATTERN :: rx where
  "CODE_PATTERN = rx_any (rx_text ''```'' # map (\<lambda>w. bounded (rx_text w))
     [''def'', ''class'', ''import'', ''SELECT'', ''function'', ''const'', ''async''])"

definition plural :: "string \<Rightarrow> rx" where
  "plural w = Then (rx_text_i w) (Opt (rx_text_i ''s''))"

definition MEDICAL_PATTERN :: rx where
  "MEDICAL_PATTERN = bounded (rx_any [plural ''patient'', rx_text_i ''diagnoses'', rx_text_i ''diagnosis'',
     rx_text_i ''clinical'', rx_text_i ''medical'', plural ''symptom'', plural ''treatment''])"

definition LEGAL_PATTERN :: rx where
  "LEGAL_PATTERN = bounded (rx_any [plural ''contract'', plural ''clause'', plural ''statute'',
     rx_text_i ''liability'', rx_text_i ''legal'', rx_text_i ''compliance''])"

definition INSTRUCTION_PATTERN :: rx where
  "INSTRUCTION_PATTERN = bounded (rx_any [
     rx_all [rx_text_i ''analy'', rx_class_i ''sz'', rx_text_i ''e'', Opt (rx_class_i ''sd'')],
     rx_all [rx_text_i ''analy'', rx_class_i ''sz'', rx_text_i ''ing''],
     rx_all [rx_text_i ''debug'', Opt (rx_any [rx_text_i ''s'', rx_text_i ''ged'', rx_text_i ''ging''])],
     rx_all [rx_text_i ''prove'', Opt (rx_class_i ''nsd'')],
     rx_text_i ''proving'',
     rx_all [rx_text_i ''design'', Opt (rx_any [rx_text_i ''s'', rx_text_i ''ed'', rx_text_i ''ing''])],
     rx_all [rx_text_i ''optimi'', rx_class_i ''sz'', rx_text_i ''e'', Opt (rx_class_i ''sd'')],
     rx_all [rx_text_i ''optimi'', rx_class_i ''sz'', rx_text_i ''ing''],
     rx_all [rx_text_i ''compare'', Opt (rx_class_i ''sd'')],
     rx_text_i ''comparing''])"

record prompt_features =
  pf_character_count :: int
  pf_word_count :: int
  pf_question_count :: int
  pf_code_hits :: int
  pf_medical_hits :: int
  pf_legal_hits :: int
  pf_instruction_hits :: int

definition extract_prompt_features :: "string \<Rightarrow> prompt_features" where
  "extract_prompt_features text = \<lparr>
     pf_character_count = int (length text), pf_word_count = int (length (rx_words text)),
     pf_question_count = int (count_list text (CHR ''?'')),
     pf_code_hits = rx_count CODE_PATTERN text, pf_medical_hits = rx_count MEDICAL_PATTERN text,
     pf_legal_hits = rx_count LEGAL_PATTERN text, pf_instruction_hits = rx_count INSTRUCTION_PATTERN text \<rparr>"

subsection \<open>Classifiers\<close>

definition linear_score :: "prompt_features \<Rightarrow> rat" where
  "linear_score f = fadd (fadd (fadd (fadd (fadd (fadd (fl (-155/100))
     (fmul (fl (8/1000)) (fint (min (pf_word_count f) 600))))
     (fmul (fl (18/100)) (fint (pf_question_count f))))
     (fmul (fl (32/100)) (fint (pf_code_hits f))))
     (fmul (fl (26/100)) (fint (pf_medical_hits f))))
     (fmul (fl (24/100)) (fint (pf_legal_hits f))))
     (fmul (fl (34/100)) (fint (pf_instruction_hits f)))"

definition predict_score :: "(rat \<Rightarrow> rat) \<Rightarrow> prompt_features \<Rightarrow> rat" where
  "predict_score py_exp f = fdiv 1 (fadd 1 (py_exp (- linear_score f)))"

definition tiebreak_priority :: "domain_tag \<Rightarrow> int" where
  "tiebreak_priority tag = (case tag of Medical \<Rightarrow> 3 | Legal \<Rightarrow> 2 | Code \<Rightarrow> 1 | General \<Rightarrow> 0)"

definition domain_scores :: "prompt_features \<Rightarrow> domain_tag \<Rightarrow> int" where
  "domain_scores f tag = (case tag of Code \<Rightarrow> pf_code_hits f | Medical \<Rightarrow> pf_medical_hits f | Legal \<Rightarrow> pf_legal_hits f | General \<Rightarrow> 0)"

definition classify_domain :: "prompt_features \<Rightarrow> domain_tag" where
  "classify_domain f = (case max_by (\<lambda>tag. (domain_scores f tag, tiebreak_priority tag)) [Code, Medical, Legal, General] of
      None \<Rightarrow> General
    | Some chosen \<Rightarrow> if 0 < domain_scores f chosen then chosen else General)"

definition classify_latency :: "prompt_features \<Rightarrow> rat \<Rightarrow> latency_requirement" where
  "classify_latency f score = (if 1200 < pf_word_count f \<or> fl (88/100) < score then Batch else Realtime)"

definition CHARS_PER_TOKEN_ESTIMATE :: int where "CHARS_PER_TOKEN_ESTIMATE = 4"

definition analyze :: "(rat \<Rightarrow> rat) \<Rightarrow> router_request \<Rightarrow> task_signals" where
  "analyze py_exp r = (let features = extract_prompt_features (prompt_text r);
       score = predict_score py_exp features
     in \<lparr> ts_complexity_score = score, ts_domain_tag = classify_domain features,
          ts_latency_requirement = classify_latency features score, ts_token_budget = rq_token_budget r,
          ts_prompt_tokens_estimate = max 1 (int (length (prompt_text r)) div CHARS_PER_TOKEN_ESTIMATE) \<rparr>)"

subsection \<open>Keywords are words\<close>

definition medical_words :: "string list" where
  "medical_words = [''patient'', ''patients'', ''diagnoses'', ''diagnosis'', ''clinical'', ''medical'', ''symptom'', ''symptoms'',
     ''treatment'', ''treatments'']"

definition legal_words :: "string list" where
  "legal_words = [''contract'', ''contracts'', ''clause'', ''clauses'', ''statute'', ''statutes'', ''liability'', ''legal'', ''compliance'']"

definition instruction_words :: "string list" where
  "instruction_words = [''analyse'', ''analyses'', ''analysed'', ''analyze'', ''analyzes'', ''analyzed'', ''analysing'', ''analyzing'',
     ''debug'', ''debugs'', ''debugged'', ''debugging'', ''prove'', ''proven'', ''proves'', ''proved'', ''proving'',
     ''design'', ''designs'', ''designed'', ''designing'', ''optimise'', ''optimises'', ''optimised'', ''optimize'', ''optimizes'',
     ''optimized'', ''optimising'', ''optimizing'', ''compare'', ''compares'', ''compared'', ''comparing'']"

lemma count_spelled:
  assumes "spells x ws" "solid x" shows "rx_count (bounded x) s = int (length (filter (\<lambda>w. lower w \<in> set ws) (rx_words s)))"
proof -
  have "word_only x" "accepts x = (\<lambda>w. lower w \<in> set ws)"
    using assms(1) accepts_lang [of x] by (auto simp: spells_def)
  then show ?thesis using count_bounded [OF _ assms(2), of s] by simp
qed

lemmas spelling = spells_Then spells_Or spells_Opt spells_class spells_text

lemma spells_set: "spells x xs \<Longrightarrow> set xs = set ys \<Longrightarrow> spells x ys"
  by (simp add: spells_def)

lemmas letter_tests = letters_def less_eq_char_def

lemma spells_plural: "letters w \<Longrightarrow> w \<noteq> [] \<Longrightarrow> spells (plural w) [w, w @ ''s'']"
  unfolding plural_def using spells_Then [OF spells_text spells_Opt [OF spells_text [of "''s''"]], of w] by (simp add: letter_tests)

lemma spells_medical: "spells (rx_any [plural ''patient'', rx_text_i ''diagnoses'', rx_text_i ''diagnosis'',
     rx_text_i ''clinical'', rx_text_i ''medical'', plural ''symptom'', plural ''treatment'']) medical_words"
proof (rule spells_set)
  show "spells (rx_any [plural ''patient'', rx_text_i ''diagnoses'', rx_text_i ''diagnosis'',
     rx_text_i ''clinical'', rx_text_i ''medical'', plural ''symptom'', plural ''treatment''])
     ([''patient'', ''patient'' @ ''s''] @ [''diagnoses''] @ [''diagnosis''] @ [''clinical''] @ [''medical''] @
      [''symptom'', ''symptom'' @ ''s''] @ [''treatment'', ''treatment'' @ ''s''])"
    unfolding rx_any.simps by (intro spells_Or spells_plural spells_text) (simp_all add: letter_tests)
qed (simp add: medical_words_def)

lemma spells_legal: "spells (rx_any [plural ''contract'', plural ''clause'', plural ''statute'',
     rx_text_i ''liability'', rx_text_i ''legal'', rx_text_i ''compliance'']) legal_words"
proof (rule spells_set)
  show "spells (rx_any [plural ''contract'', plural ''clause'', plural ''statute'',
     rx_text_i ''liability'', rx_text_i ''legal'', rx_text_i ''compliance''])
     ([''contract'', ''contract'' @ ''s''] @ [''clause'', ''clause'' @ ''s''] @ [''statute'', ''statute'' @ ''s''] @
      [''liability''] @ [''legal''] @ [''compliance''])"
    unfolding rx_any.simps by (intro spells_Or spells_plural spells_text) (simp_all add: letter_tests)
qed (simp add: legal_words_def)

lemma spells_instruction: "spells (rx_any [
     rx_all [rx_text_i ''analy'', rx_class_i ''sz'', rx_text_i ''e'', Opt (rx_class_i ''sd'')],
     rx_all [rx_text_i ''analy'', rx_class_i ''sz'', rx_text_i ''ing''],
     rx_all [rx_text_i ''debug'', Opt (rx_any [rx_text_i ''s'', rx_text_i ''ged'', rx_text_i ''ging''])],
     rx_all [rx_text_i ''prove'', Opt (rx_class_i ''nsd'')],
     rx_text_i ''proving'',
     rx_all [rx_text_i ''design'', Opt (rx_any [rx_text_i ''s'', rx_text_i ''ed'', rx_text_i ''ing''])],
     rx_all [rx_text_i ''optimi'', rx_class_i ''sz'', rx_text_i ''e'', Opt (rx_class_i ''sd'')],
     rx_all [rx_text_i ''optimi'', rx_class_i ''sz'', rx_text_i ''ing''],
     rx_all [rx_text_i ''compare'', Opt (rx_class_i ''sd'')],
     rx_text_i ''comparing'']) instruction_words"
proof -
  define cat where "cat = (\<lambda>xs ys :: string list. concat (map (\<lambda>x. map ((@) x) ys) xs))"
  have join: "spells (Then a b) (cat xs ys)" if "spells a xs" "spells b ys" for a b xs ys
    using spells_Then [OF that] by (simp add: cat_def)
  let ?c = "\<lambda>t. map (\<lambda>c. [c]) t :: string list"
  have verb: "spells (rx_all [rx_text_i w, rx_class_i ''sz'', rx_text_i ''e'', Opt (rx_class_i ''sd'')])
      (cat [w] (cat (?c ''sz'') (cat [''e''] ([] # ?c ''sd''))))"
    "spells (rx_all [rx_text_i w, rx_class_i ''sz'', rx_text_i ''ing'']) (cat [w] (cat (?c ''sz'') [''ing'']))"
    if "letters w" "w \<noteq> []" for w
    unfolding rx_all.simps
    subgoal by (intro join spells_Opt spells_class spells_text that) (simp_all add: letter_tests)
    subgoal by (intro join spells_Opt spells_class spells_text that) (simp_all add: letter_tests)
    done
  have ends: "spells (rx_all [rx_text_i w, Opt (rx_class_i t)]) (cat [w] ([] # ?c t))" if "letters w" "w \<noteq> []" "letters t" for w t
    unfolding rx_all.simps by (intro join spells_Opt spells_class spells_text that)
  have suffixes: "spells (rx_all [rx_text_i w, Opt (Or (rx_text_i ''s'') (Or (rx_text_i x) (rx_text_i y)))]) (cat [w] ([] # [''s''] @ [x] @ [y]))"
    if "letters w" "w \<noteq> []" "letters x" "x \<noteq> []" "letters y" "y \<noteq> []" for w x y
    unfolding rx_all.simps by (intro join spells_Or spells_Opt spells_text that) (simp_all add: letter_tests)
  show ?thesis
  proof (rule spells_set)
    show "spells (rx_any [
       rx_all [rx_text_i ''analy'', rx_class_i ''sz'', rx_text_i ''e'', Opt (rx_class_i ''sd'')],
       rx_all [rx_text_i ''analy'', rx_class_i ''sz'', rx_text_i ''ing''],
       rx_all [rx_text_i ''debug'', Opt (rx_any [rx_text_i ''s'', rx_text_i ''ged'', rx_text_i ''ging''])],
       rx_all [rx_text_i ''prove'', Opt (rx_class_i ''nsd'')],
       rx_text_i ''proving'',
       rx_all [rx_text_i ''design'', Opt (rx_any [rx_text_i ''s'', rx_text_i ''ed'', rx_text_i ''ing''])],
       rx_all [rx_text_i ''optimi'', rx_class_i ''sz'', rx_text_i ''e'', Opt (rx_class_i ''sd'')],
       rx_all [rx_text_i ''optimi'', rx_class_i ''sz'', rx_text_i ''ing''],
       rx_all [rx_text_i ''compare'', Opt (rx_class_i ''sd'')],
       rx_text_i ''comparing''])
      (cat [''analy''] (cat (?c ''sz'') (cat [''e''] ([] # ?c ''sd''))) @ cat [''analy''] (cat (?c ''sz'') [''ing'']) @
       cat [''debug''] ([] # [''s''] @ [''ged''] @ [''ging'']) @ cat [''prove''] ([] # ?c ''nsd'') @ [''proving''] @
       cat [''design''] ([] # [''s''] @ [''ed''] @ [''ing'']) @
       cat [''optimi''] (cat (?c ''sz'') (cat [''e''] ([] # ?c ''sd''))) @ cat [''optimi''] (cat (?c ''sz'') [''ing'']) @
       cat [''compare''] ([] # ?c ''sd'') @ [''comparing''])"
      unfolding rx_any.simps
      by (intro spells_Or verb ends suffixes spells_text) (simp_all add: letter_tests)
  qed (simp add: cat_def instruction_words_def insert_commute)
qed

text \<open>
  C0. The keyword counts of a prompt are what the patterns are meant to count: the number of its words that
  are one of the medical (legal, instruction) words in any case; a keyword inside a longer word, such as
  \<open>proverb\<close> or \<open>designation\<close>, never counts.
\<close>

theorem keyword_hits_are_words:
  "pf_medical_hits (extract_prompt_features s) = int (length (filter (\<lambda>w. lower w \<in> set medical_words) (rx_words s))) \<and>
   pf_legal_hits (extract_prompt_features s) = int (length (filter (\<lambda>w. lower w \<in> set legal_words) (rx_words s))) \<and>
   pf_instruction_hits (extract_prompt_features s) = int (length (filter (\<lambda>w. lower w \<in> set instruction_words) (rx_words s)))"
  unfolding extract_prompt_features_def prompt_features.simps MEDICAL_PATTERN_def LEGAL_PATTERN_def INSTRUCTION_PATTERN_def
  by (intro conjI count_spelled spells_medical spells_legal spells_instruction) (simp_all add: plural_def rx_text_i_def rx_class_i_def)

subsection \<open>The classifiers\<close>

text \<open>
  C0. The domain is the one with the most keyword hits, ties going to the higher stakes: Medical before Legal
  before Code; General is the answer exactly when nothing was hit.
\<close>

theorem domain_has_most_hits:
  "(classify_domain f = Medical \<longleftrightarrow> 0 < pf_medical_hits f \<and> pf_legal_hits f \<le> pf_medical_hits f \<and> pf_code_hits f \<le> pf_medical_hits f) \<and>
   (classify_domain f = Legal \<longleftrightarrow> 0 < pf_legal_hits f \<and> pf_medical_hits f < pf_legal_hits f \<and> pf_code_hits f \<le> pf_legal_hits f) \<and>
   (classify_domain f = Code \<longleftrightarrow> 0 < pf_code_hits f \<and> pf_medical_hits f < pf_code_hits f \<and> pf_legal_hits f < pf_code_hits f) \<and>
   (classify_domain f = General \<longleftrightarrow> pf_medical_hits f \<le> 0 \<and> pf_legal_hits f \<le> 0 \<and> pf_code_hits f \<le> 0)"
  by (simp add: classify_domain_def domain_scores_def tiebreak_priority_def)

lemma counts_nonneg: "0 \<le> rx_count x s"
  by (simp add: rx_count_def)

text \<open>More of any feature never lowers the linear score.\<close>

definition features_le :: "prompt_features \<Rightarrow> prompt_features \<Rightarrow> bool" where
  "features_le f g \<longleftrightarrow> pf_word_count f \<le> pf_word_count g \<and> pf_question_count f \<le> pf_question_count g \<and>
     pf_code_hits f \<le> pf_code_hits g \<and> pf_medical_hits f \<le> pf_medical_hits g \<and> pf_legal_hits f \<le> pf_legal_hits g \<and>
     pf_instruction_hits f \<le> pf_instruction_hits g"

lemma weighted_mono: "a \<le> b \<Longrightarrow> m \<le> n \<Longrightarrow> 0 \<le> w \<Longrightarrow> fadd a (fmul (fl w) (fint m)) \<le> fadd b (fmul (fl w) (fint n))"
  unfolding fadd_def fmul_def fint_def
  by (intro fl_mono add_mono mult_left_mono) (simp_all add: fl_nonneg)

lemma linear_score_mono: "features_le f g \<Longrightarrow> linear_score f \<le> linear_score g"
  unfolding linear_score_def features_le_def by (intro weighted_mono) auto

lemma logistic_bounds:
  assumes "0 \<le> e" shows "0 \<le> fdiv 1 (fadd 1 e)" "fdiv 1 (fadd 1 e) \<le> 1"
proof -
  have "1 \<le> fadd 1 e" using fl_mono [of 1 "1 + e"] assms by (simp add: fadd_def)
  then show "0 \<le> fdiv 1 (fadd 1 e)" "fdiv 1 (fadd 1 e) \<le> 1"
    using fl_mono [of "1 / fadd 1 e" 1] by (simp_all add: fdiv_def fl_nonneg)
qed

lemma logistic_mono:
  assumes "0 \<le> e" "e \<le> e'" shows "fdiv 1 (fadd 1 e') \<le> fdiv 1 (fadd 1 e)"
proof -
  have "1 \<le> fadd 1 e" "fadd 1 e \<le> fadd 1 e'" using fl_mono [of 1 "1 + e"] fl_mono [of "1 + e" "1 + e'"] assms by (simp_all add: fadd_def)
  then show ?thesis by (auto simp: fdiv_def intro!: fl_mono divide_left_mono)
qed

text \<open>
  C0. Whatever the prompt, the complexity score is between 0 and 1, at least one prompt token is estimated and
  only batch latency is asked for a prompt of more than 1200 words; and a prompt with at least as many words,
  questions and hits has at least the score and never goes back from batch to realtime. Of \<open>math.exp\<close> only
  that it is not negative and does not fall is used.
\<close>

theorem analysis_is_sound:
  assumes "\<forall>x. 0 \<le> py_exp x" "\<forall>x y. x \<le> y \<longrightarrow> py_exp x \<le> py_exp y"
  shows "0 \<le> ts_complexity_score (analyze py_exp r) \<and> ts_complexity_score (analyze py_exp r) \<le> 1 \<and>
    1 \<le> ts_prompt_tokens_estimate (analyze py_exp r) \<and>
    (1200 < length (rx_words (prompt_text r)) \<longrightarrow> ts_latency_requirement (analyze py_exp r) = Batch) \<and>
    (features_le (extract_prompt_features (prompt_text r)) (extract_prompt_features (prompt_text r')) \<longrightarrow>
      ts_complexity_score (analyze py_exp r) \<le> ts_complexity_score (analyze py_exp r') \<and>
      (ts_latency_requirement (analyze py_exp r) = Batch \<longrightarrow> ts_latency_requirement (analyze py_exp r') = Batch))"
proof -
  have score: "predict_score py_exp f \<le> predict_score py_exp g" if "features_le f g" for f g
    unfolding predict_score_def using assms linear_score_mono [OF that] by (intro logistic_mono) auto
  have "classify_latency g (predict_score py_exp g) = Batch" if "features_le f g" "classify_latency f (predict_score py_exp f) = Batch" for f g
    using that score [OF that(1)] by (auto simp: classify_latency_def features_le_def split: if_splits)
  then show ?thesis using score assms(1)
    by (simp add: analyze_def Let_def) (auto simp: predict_score_def logistic_bounds classify_latency_def extract_prompt_features_def)
qed

text \<open>
  The witness is a request that grew. The exponential of the witness is not the real one, only of its shape.
\<close>

definition step_exp :: "rat \<Rightarrow> rat" where
  "step_exp x = (if x < 0 then 1/2 else 1)"

definition asked :: "string \<Rightarrow> router_request" where
  "asked s = \<lparr> rq_request_id = ''r'', rq_messages = [\<lparr> cm_role = ''user'', cm_content = s \<rparr>],
     rq_api_key_id = ''k'', rq_user_id = ''u'', rq_session_id = ''s'', rq_requested_model = None,
     rq_strategy = None, rq_token_budget = 1000, rq_region = None, rq_max_tokens = 100,
     rq_stream = False, rq_metadata = [] \<rparr>"

lemma asked_grows: "features_le (extract_prompt_features (prompt_text (asked ''a''))) (extract_prompt_features (prompt_text (asked ''a b?'')))"
  by code_simp

theorem analysis_is_sound_witness:
  "ts_complexity_score (analyze step_exp (asked ''a'')) \<le> ts_complexity_score (analyze step_exp (asked ''a b?''))"
  using analysis_is_sound [of step_exp "asked ''a''" "asked ''a b?''"] asked_grows
  by (simp add: step_exp_def)

end
