(* ===== verification/Pii.thy ===== *)
theory Pii
  imports PyRegex Schemas
begin

text \<open>
  \<open>src/safety/pii.py\<close>: the scrubber of a message before it leaves for a provider. The optional Presidio
  engines are outside the repository and the parameter \<open>presidio\<close>: the text they make of a text, if both are set.
\<close>

subsection \<open>Patterns and the scrubber\<close>

definition is_letter :: "char \<Rightarrow> bool" where
  "is_letter c \<longleftrightarrow> CHR ''a'' \<le> lower_char c \<and> lower_char c \<le> CHR ''z''"

definition is_digit_char :: "char \<Rightarrow> bool" where
  "is_digit_char c \<longleftrightarrow> CHR ''0'' \<le> c \<and> c \<le> CHR ''9''"

text \<open>\<open>[A-Z0-9._%+-]+@[A-Z0-9.-]+\.[A-Z]{2,}\<close>, in any case\<close>

definition EMAIL_ADDRESS :: rx where
  "EMAIL_ADDRESS = rx_all [Many (\<lambda>c. is_letter c \<or> is_digit_char c \<or> c \<in> set ''._%+-''), One ((=) CHR ''@''),
     Many (\<lambda>c. is_letter c \<or> is_digit_char c \<or> c \<in> set ''.-''), One ((=) CHR ''.''), One is_letter, Many is_letter]"

definition EMAIL_PATTERN :: rx where
  "EMAIL_PATTERN = bounded EMAIL_ADDRESS"

definition separator :: rx where
  "separator = Opt (One (\<lambda>c. c \<in> set ''-.'' \<or> is_space c))"

definition digits_rx :: "nat \<Rightarrow> rx" where
  "digits_rx n = rx_all (replicate n (One is_digit_char))"

text \<open>\<open>(?:\+?1[-.\s]?)?\(?\d{3}\)?[-.\s]?\d{3}[-.\s]?\d{4}\<close>\<close>

definition LOCAL_NUMBER :: rx where
  "LOCAL_NUMBER = rx_all [digits_rx 3, Opt (One ((=) CHR '')'')), separator, digits_rx 3, separator, digits_rx 4]"

definition PHONE_NUMBER :: rx where
  "PHONE_NUMBER = Then (Opt (rx_all [Opt (One ((=) CHR ''+'')), One ((=) CHR ''1''), separator]))
     (Then (Opt (One ((=) CHR ''(''))) LOCAL_NUMBER)"

definition PHONE_PATTERN :: rx where
  "PHONE_PATTERN = Then NotAfterWord (Then PHONE_NUMBER NotBeforeWord)"

definition scrub_text :: "(string \<Rightarrow> string) option \<Rightarrow> string \<Rightarrow> string" where
  "scrub_text presidio text = (let redacted = rx_sub EMAIL_PATTERN ''[REDACTED_EMAIL]'' text;
       redacted = rx_sub PHONE_PATTERN ''[REDACTED_PHONE]'' redacted
     in case presidio of None \<Rightarrow> redacted | Some anonymize \<Rightarrow> anonymize redacted)"

definition scrub_messages :: "bool \<Rightarrow> (string \<Rightarrow> string) option \<Rightarrow> chat_message list \<Rightarrow> chat_message list" where
  "scrub_messages enabled presidio messages = (if \<not> enabled then messages
     else map (\<lambda>m. \<lparr> cm_role = cm_role m, cm_content = scrub_text presidio (cm_content m) \<rparr>) messages)"

subsection \<open>Occurrences\<close>

text \<open>A pattern occurs in a text if it matches at some position of it.\<close>

definition occurs :: "rx \<Rightarrow> string \<Rightarrow> bool" where
  "occurs x s \<longleftrightarrow> (\<exists>a b. s = a @ b \<and> rx_ends x (if a = [] then None else Some (last a), b) \<noteq> [])"

text \<open>A match depends on the text, the character before it and the one behind it.\<close>

type_synonym matcher = "char option \<Rightarrow> string \<Rightarrow> char option \<Rightarrow> bool"

definition email_at :: matcher where
  "email_at p u n \<longleftrightarrow> rx_lang EMAIL_ADDRESS u \<and> wordy p \<noteq> is_word (hd u) \<and> is_word (last u) \<noteq> wordy n"

definition phone_at :: matcher where
  "phone_at p u n \<longleftrightarrow> rx_lang PHONE_NUMBER u \<and> \<not> wordy p \<and> \<not> wordy n"

text \<open>No match starts anywhere in the text, which the character \<open>q\<close> precedes.\<close>

fun free :: "matcher \<Rightarrow> char option \<Rightarrow> string \<Rightarrow> bool" where
  "free M q [] \<longleftrightarrow> True"
| "free M q (c # w) \<longleftrightarrow> (\<forall>u v. c # w = u @ v \<longrightarrow> u \<noteq> [] \<longrightarrow> \<not> M q u (next_char v)) \<and> free M (Some c) w"

lemma free_append: "free M q (a @ b) \<Longrightarrow> a \<noteq> [] \<Longrightarrow> free M (Some (last a)) b"
proof (induction a arbitrary: q)
  case (Cons c a)
  then show ?case by (cases "a = []") auto
qed simp

lemma free_no_match: "free M q w \<Longrightarrow> w = u @ v \<Longrightarrow> u \<noteq> [] \<Longrightarrow> \<not> M q u (next_char v)"
  by (cases w) (simp, metis free.simps(2))

subsection \<open>One pass of the scrubber\<close>

text \<open>
  \<open>M\<close> is what the replaced pattern \<open>x\<close> matches, \<open>M'\<close> what must not be left: texts over \<open>K\<close> with a character
  of \<open>N\<close>. The last two laws say that a replacement makes no match of its neighbours.
\<close>

declare pieces.simps(2) [simp del]

locale scrub_pass =
  fixes x :: rx and M M' :: matcher and K N :: "char \<Rightarrow> bool" and label :: string
  assumes ends: "(\<exists>q. (q, v) \<in> set (rx_ends x (p, s))) \<longleftrightarrow> (\<exists>u. s = u @ v \<and> M p u (next_char v))"
    and nonempty: "M p u n \<Longrightarrow> u \<noteq> []"
    and chars: "M' p u n \<Longrightarrow> list_all K u \<and> list_ex N u"
    and brackets: "\<not> K CHR ''[''" "\<not> K CHR '']''"
    and label: "list_all (\<lambda>c. \<not> N c) label"
    and before_hit: "M' p u (Some CHR ''['') \<Longrightarrow> M (Some (last u)) h n \<Longrightarrow> M' p u (Some (hd h))"
    and after_hit: "M p h (Some c) \<Longrightarrow> M' (Some CHR '']'') (c # u) n \<Longrightarrow> u \<noteq> [] \<and> M' (Some c) u n"
begin

abbreviation replacement :: string where "replacement \<equiv> CHR ''['' # label @ '']''"

abbreviation render :: "piece list \<Rightarrow> string" where
  "render ys \<equiv> concat (map (\<lambda>y. case y of Hit _ \<Rightarrow> replacement | Gap c \<Rightarrow> [c]) ys)"

lemma scan_cases:
  obtains (hit) h v where "c # cs = h @ v" "h \<noteq> []" "M p h (next_char v)" "length v \<le> length cs"
      "pieces x p (c # cs) = Hit h # pieces x (Some (last h)) v"
    | (gap) "\<And>u v. c # cs = u @ v \<Longrightarrow> \<not> M p u (next_char v)" "pieces x p (c # cs) = Gap c # pieces x (Some c) cs"
proof (cases "rx_ends x (p, c # cs)")
  case Nil
  then have "\<not> M p u (next_char v)" if "c # cs = u @ v" for u v using ends [of v p "c # cs"] that by auto
  then show ?thesis using gap Nil by (simp add: pieces.simps(2))
next
  case (Cons e es)
  obtain q v where e: "e = (q, v)" by fastforce
  obtain h where h: "c # cs = h @ v" "M p h (next_char v)" using ends [of v p "c # cs"] Cons e by auto
  have ne: "h \<noteq> []" using nonempty h(2) .
  then have len: "length v \<le> length cs" using arg_cong [OF h(1), of length] by (cases h) auto
  obtain t where t: "c # cs = t @ v" "t \<noteq> [] \<longrightarrow> q = Some (last t)" using ends_suffix [of e x "(p, c # cs)"] Cons e by auto
  then have q: "q = Some (last h)" using h(1) ne by auto
  show ?thesis using hit [OF h(1) ne h(2) len] pieces_step [OF _ len h(1)] Cons e q by simp
qed

lemma rendered_run:
  "render (pieces x p s) = u @ v \<Longrightarrow> CHR ''['' \<notin> set u \<Longrightarrow> \<exists>v'. s = u @ v' \<and> (next_char v = next_char v' \<or>
     next_char v = Some CHR ''['' \<and> (\<exists>h w. v' = h @ w \<and> h \<noteq> [] \<and> M (if u = [] then p else Some (last u)) h (next_char w)))"
proof (induction s arbitrary: p u v)
  case (Cons c cs)
  show ?case
  proof (cases rule: scan_cases [of c cs p])
    case (hit h w)
    have r: "render (pieces x p (c # cs)) = CHR ''['' # (label @ '']'') @ render (pieces x (Some (last h)) w)" by (simp add: hit(5))
    then have u: "u = []" using Cons.prems by (cases u) auto
    then have "next_char v = Some CHR ''[''" using Cons.prems(1) unfolding r by (auto simp: next_char_def)
    then show ?thesis using hit u by auto
  next
    case gap
    have r: "render (pieces x p (c # cs)) = c # render (pieces x (Some c) cs)" by (simp add: gap(2))
    show ?thesis
    proof (cases u)
      case Nil
      then show ?thesis using Cons.prems(1) unfolding r by (auto simp: next_char_def)
    next
      case u: (Cons d u')
      then have "d = c" "render (pieces x (Some c) cs) = u' @ v" "CHR ''['' \<notin> set u'" using Cons.prems unfolding r by auto
      with Cons.IH [of "Some c" u' v] obtain v' where v': "cs = u' @ v'" "next_char v = next_char v' \<or>
        next_char v = Some CHR ''['' \<and> (\<exists>h w. v' = h @ w \<and> h \<noteq> [] \<and> M (if u' = [] then Some c else Some (last u')) h (next_char w))" by blast
      then show ?thesis using u \<open>d = c\<close> by (intro exI [of _ v']) (auto split: if_splits)
    qed
  qed
qed (simp add: next_char_def)

lemma label_free: "list_all (\<lambda>c. \<not> N c) l \<Longrightarrow> free M' (Some CHR '']'') w \<Longrightarrow> free M' q (l @ CHR '']'' # w)"
proof (induction l arbitrary: q)
  case Nil
  then show ?case using chars brackets(2) by (fastforce simp: Cons_eq_append_conv list_all_iff)
next
  case (Cons c l)
  have "\<not> M' q u (next_char v)" if "(c # l) @ CHR '']'' # w = u @ v" for u v
  proof
    assume m: "M' q u (next_char v)"
    then have "CHR '']'' \<notin> set u" using chars [OF m] brackets(2) by (auto simp: list_all_iff)
    moreover have "\<exists>t. u @ t = c # l \<or> u = (c # l) @ t \<and> t \<noteq> [] \<and> CHR '']'' # w = t @ v"
      using that [unfolded append_eq_append_conv2 [of "c # l"]] by (metis append.right_neutral)
    ultimately have "\<exists>t. u @ t = c # l" by (auto simp: Cons_eq_append_conv)
    then have "list_all (\<lambda>c. \<not> N c) u" using Cons.prems(1) by (metis list_all_append)
    then show False using chars [OF m] by (auto simp: list_all_iff list_ex_iff)
  qed
  then show ?case using Cons by simp
qed

lemma replacement_free: "free M' (Some CHR '']'') w \<Longrightarrow> free M' q (replacement @ w)"
  using label_free [OF label, of w "Some CHR ''[''"] chars brackets(1)
  by (fastforce simp: Cons_eq_append_conv list_all_iff)

lemma pass_free:
  "q = p \<or> q = Some CHR '']'' \<and> (\<exists>p0 h. M p0 h (next_char s)) \<and> p \<noteq> None \<Longrightarrow> M' = M \<or> free M' p s \<Longrightarrow> free M' q (render (pieces x p s))"
proof (induction s arbitrary: p q rule: length_induct)
  case (1 s)
  show ?case
  proof (cases s)
    case (Cons c cs)
    show ?thesis
    proof (cases rule: scan_cases [of c cs p])
      case (hit h w)
      have "free M' (Some CHR '']'') (render (pieces x (Some (last h)) w))"
        using 1 hit Cons free_append [of M' p h w] by (intro "1.IH" [rule_format]) auto
      then show ?thesis using replacement_free hit(5) Cons by simp
    next
      case gap
      let ?w = "render (pieces x (Some c) cs)"
      have rest: "free M' (Some c) ?w" using 1 Cons by (intro "1.IH" [rule_format]) auto
      have "\<not> M' q u (next_char v)" if uv: "c # ?w = u @ v" "u \<noteq> []" for u v
      proof
        assume m: "M' q u (next_char v)"
        obtain u' where u': "u = c # u'" "?w = u' @ v" using uv by (cases u) auto
        have "CHR ''['' \<notin> set u" using chars [OF m] brackets(1) by (auto simp: list_all_iff)
        then obtain v' where v': "cs = u' @ v'" "next_char v = next_char v' \<or> next_char v = Some CHR ''['' \<and>
            (\<exists>h w. v' = h @ w \<and> h \<noteq> [] \<and> M (if u' = [] then Some c else Some (last u')) h (next_char w))"
          using rendered_run [OF u'(2)] u'(1) by auto
        have "M' q u (next_char v')"
        proof (cases "next_char v = next_char v'")
          case False
          then obtain h w where h: "v' = h @ w" "h \<noteq> []" "M (if u' = [] then Some c else Some (last u')) h (next_char w)" "next_char v = Some CHR ''[''"
            using v'(2) by blast
          have "M (Some (last u)) h (next_char w)" using h(3) u'(1) by (auto split: if_splits)
          moreover have "M' q u (Some CHR ''['')" using m h(4) by simp
          ultimately have "M' q u (Some (hd h))" using before_hit by blast
          then show ?thesis using h(1,2) by (cases h) (auto simp: next_char_def)
        qed (use m in simp)
        then have "q \<noteq> p" using gap(1) [of u v'] "1.prems"(2) Cons u'(1) v'(1) free_no_match [of M' p s u v'] by auto
        then have "q = Some CHR '']''" "\<exists>p0 h. M p0 h (Some c)" using "1.prems"(1) Cons by (auto simp: next_char_def)
        then have "u' \<noteq> [] \<and> M' (Some c) u' (next_char v)" using after_hit m u'(1) by blast
        then show False using free_no_match [OF rest u'(2)] by blast
      qed
      then show ?thesis using rest gap(2) Cons by simp
    qed
  qed simp
qed

lemma free_occurs: "free M q w \<Longrightarrow> w = a @ b \<Longrightarrow> rx_ends x (if a = [] then q else Some (last a), b) = []"
proof (rule ccontr)
  assume f: "free M q w" "w = a @ b" and "rx_ends x (if a = [] then q else Some (last a), b) \<noteq> []"
  then obtain q' v where "(q', v) \<in> set (rx_ends x (if a = [] then q else Some (last a), b))" by (metis last_in_set surj_pair)
  then obtain u where u: "b = u @ v" "M (if a = [] then q else Some (last a)) u (next_char v)" using ends by blast
  have "free M (if a = [] then q else Some (last a)) b" using f free_append by auto
  then show False using free_no_match u nonempty by blast
qed

lemma sub_free: "M' = M \<or> free M' None s \<Longrightarrow> free M' None (rx_sub x replacement s)"
  unfolding rx_sub_def by (rule pass_free) auto

end

subsection \<open>Addresses and numbers\<close>

fun over :: "(char \<Rightarrow> bool) \<Rightarrow> rx \<Rightarrow> bool" where
  "over K (One P) = (\<forall>c. P c \<longrightarrow> K c)"
| "over K (Many P) = (\<forall>c. P c \<longrightarrow> K c)"
| "over K (Then a b) = (over K a \<and> over K b)"
| "over K (Or a b) = (over K a \<and> over K b)"
| "over K (Opt a) = over K a"
| "over K _ = True"

lemma lang_over: "rx_lang x w \<Longrightarrow> over K x \<Longrightarrow> list_all K w"
  by (induction x arbitrary: w) (auto simp: list_all_iff)

definition address_char :: "char \<Rightarrow> bool" where
  "address_char c \<longleftrightarrow> is_letter c \<or> is_digit_char c \<or> c \<in> set ''._%+-@''"

definition number_char :: "char \<Rightarrow> bool" where
  "number_char c \<longleftrightarrow> is_digit_char c \<or> c \<in> set ''+()-.'' \<or> is_space c"

lemma letter_word: "is_letter c \<Longrightarrow> is_word c" and digit_word: "is_digit_char c \<Longrightarrow> is_word c"
  by (auto simp: is_letter_def lower_letter_word) (auto simp: is_digit_char_def is_word_def Let_def less_eq_char_def)

lemma address_shape:
  assumes "rx_lang EMAIL_ADDRESS u"
  shows "u \<noteq> []" "list_all address_char u" "list_ex ((=) CHR ''@'') u" "is_word (last u)"
proof -
  obtain a b c v where u: "u = a @ ''@'' @ b @ ''.'' @ [c] @ v" "v \<noteq> []" "list_all is_letter v"
    using assms by (auto simp: EMAIL_ADDRESS_def)
  then show "u \<noteq> []" "list_ex ((=) CHR ''@'') u" "is_word (last u)" by (auto simp: list_all_iff letter_word)
  show "list_all address_char u" by (rule lang_over [OF assms]) (auto simp: EMAIL_ADDRESS_def address_char_def)
qed

lemma digits_shape: "rx_lang (digits_rx (Suc n)) u \<Longrightarrow> u \<noteq> [] \<and> list_all is_digit_char u"
proof (induction n arbitrary: u)
  case (Suc n)
  then show ?case by (fastforce simp: digits_rx_def)
qed (auto simp: digits_rx_def)

lemma all_first: "rx_lang (rx_all (x # xs)) u \<Longrightarrow> \<exists>a m. u = a @ m \<and> rx_lang x a"
  by (cases xs) auto

lemma all_last: "rx_lang (rx_all (xs @ [x])) u \<Longrightarrow> \<exists>m b. u = m @ b \<and> rx_lang x b"
proof (induction xs arbitrary: u)
  case (Cons y ys)
  then show ?case by (cases "ys @ [x]") (auto, metis append.assoc)
qed auto

lemma local_shape:
  assumes "rx_lang LOCAL_NUMBER u"
  shows "u \<noteq> []" "is_digit_char (hd u)" "is_digit_char (last u)"
proof -
  have "rx_lang (rx_all ([digits_rx 3, Opt (One ((=) CHR '')'')), separator, digits_rx 3, separator] @ [digits_rx 4])) u"
    using assms by (simp add: LOCAL_NUMBER_def)
  from all_last [OF this] obtain m b where b: "u = m @ b" "rx_lang (digits_rx (Suc 3)) b" by auto
  obtain a m' where a: "u = a @ m'" "rx_lang (digits_rx (Suc 2)) a"
    using all_first assms unfolding LOCAL_NUMBER_def by (metis numeral_3_eq_3 numeral_2_eq_2)
  show "u \<noteq> []" "is_digit_char (last u)" using b(1) digits_shape [OF b(2)] by (auto simp: list_all_iff)
  show "is_digit_char (hd u)" using a(1) digits_shape [OF a(2)] by (auto simp: list_all_iff)
qed

lemma country_code: "rx_lang (rx_all [Opt (One ((=) CHR ''+'')), One ((=) CHR ''1''), separator]) a \<longleftrightarrow>
    (\<exists>p t. a = p @ ''1'' @ t \<and> (p = [] \<or> p = ''+'') \<and> rx_lang separator t)"
  by auto

lemma number_lang: "rx_lang PHONE_NUMBER w \<longleftrightarrow> (\<exists>a b l. w = a @ b @ l \<and>
    (a = [] \<or> (\<exists>p t. a = p @ ''1'' @ t \<and> (p = [] \<or> p = ''+'') \<and> rx_lang separator t)) \<and> (b = [] \<or> b = ''('') \<and> rx_lang LOCAL_NUMBER l)"
proof -
  have b: "rx_lang (Opt (One ((=) CHR ''(''))) b \<longleftrightarrow> b = [] \<or> b = ''(''" for b by auto
  show ?thesis unfolding PHONE_NUMBER_def rx_lang.simps(3) b unfolding rx_lang.simps(5) country_code by blast
qed

lemma one_digit: "is_digit_char CHR ''1''"
  by code_simp

lemma number_shape:
  assumes "rx_lang PHONE_NUMBER u"
  shows "u \<noteq> []" "list_all number_char u" "list_ex is_digit_char u" "is_word (last u)"
proof -
  obtain a l where u: "u = a @ l" "rx_lang LOCAL_NUMBER l" using assms unfolding number_lang by (metis append.assoc)
  then show "u \<noteq> []" "list_ex is_digit_char u" "is_word (last u)"
    using local_shape [OF u(2)] digit_word by (auto simp: list_ex_iff)
  show "list_all number_char u"
    by (rule lang_over [OF assms]) (auto simp: PHONE_NUMBER_def LOCAL_NUMBER_def one_digit digits_rx_def separator_def number_char_def numeral_eq_Suc)
qed

text \<open>A number that starts with a plus sign or a parenthesis is still one without it.\<close>

lemma number_tail:
  assumes "rx_lang PHONE_NUMBER (c # u)" "\<not> is_word c" shows "rx_lang PHONE_NUMBER u"
proof -
  obtain a b l where s: "c # u = a @ b @ l" "b = [] \<or> b = ''(''" "rx_lang LOCAL_NUMBER l"
    "a = [] \<or> (\<exists>p t. a = p @ ''1'' @ t \<and> (p = [] \<or> p = ''+'') \<and> rx_lang separator t)"
    using assms(1) unfolding number_lang by blast
  have intro_number: "rx_lang PHONE_NUMBER (a @ b @ l)"
    if "a = [] \<or> (\<exists>t. a = [] @ ''1'' @ t \<and> rx_lang separator t)" "b = [] \<or> b = ''(''" for a b
    using that s(3) unfolding number_lang by blast
  have one: "is_word CHR ''1''" by code_simp
  have digit: "is_word (hd l)" "l \<noteq> []" using local_shape [OF s(3)] digit_word by auto
  show ?thesis
  proof (cases "a = []")
    case True
    then have "b = ''(''" "u = l" using s(1,2) digit assms(2) by (auto simp: Cons_eq_append_conv)
    then show ?thesis using intro_number [of "[]" "[]"] by simp
  next
    case False
    then obtain p t where a: "a = p @ ''1'' @ t" "p = [] \<or> p = ''+''" "rx_lang separator t" using s(4) by blast
    then have "p = ''+''" using s(1) one assms(2) by auto
    then show ?thesis using intro_number [of "''1'' @ t" b] a s(1,2) by simp
  qed
qed

subsection \<open>The passes of the scrubber\<close>

lemma ends_at:
  assumes "plain x" "\<And>u. rx_lang x u \<Longrightarrow> u \<noteq> []"
  shows "(q, v) \<in> set (rx_ends x (p, s)) \<longleftrightarrow> (\<exists>u. s = u @ v \<and> rx_lang x u \<and> q = Some (last u))"
proof
  assume e: "(q, v) \<in> set (rx_ends x (p, s))"
  then obtain u where u: "s = u @ v" "rx_lang x u" using ends_lang [OF assms(1)] by blast
  then show "\<exists>u. s = u @ v \<and> rx_lang x u \<and> q = Some (last u)" using ends_suffix [OF e] assms(2) by auto
next
  assume "\<exists>u. s = u @ v \<and> rx_lang x u \<and> q = Some (last u)"
  then obtain u where u: "s = u @ v" "rx_lang x u" "q = Some (last u)" by blast
  then obtain q' where e: "(q', v) \<in> set (rx_ends x (p, s))" using ends_lang [OF assms(1)] by blast
  then show "(q, v) \<in> set (rx_ends x (p, s))" using ends_suffix [OF e] assms(2) [OF u(2)] u by auto
qed

lemma plain_patterns: "plain EMAIL_ADDRESS" "plain PHONE_NUMBER"
  by (simp_all add: EMAIL_ADDRESS_def PHONE_NUMBER_def LOCAL_NUMBER_def digits_rx_def separator_def numeral_eq_Suc)

lemma next_append: "u \<noteq> [] \<Longrightarrow> next_char (u @ v) = Some (hd u)"
  by (cases u) (simp_all add: next_char_def)

lemma wordy_Some [simp]: "wordy (Some c) = is_word c"
  by (simp add: wordy_def)

lemma assertions_at:
  "(q, v) \<in> set (rx_ends Bound e) \<longleftrightarrow> e = (q, v) \<and> wordy q \<noteq> wordy (next_char v)"
  "(q, v) \<in> set (rx_ends NotBeforeWord e) \<longleftrightarrow> e = (q, v) \<and> \<not> wordy (next_char v)"
  by (cases e; auto)+

lemma email_ends: "(\<exists>q. (q, v) \<in> set (rx_ends EMAIL_PATTERN (p, s))) \<longleftrightarrow> (\<exists>u. s = u @ v \<and> email_at p u (next_char v))"
proof -
  have "(q, v) \<in> set (rx_ends EMAIL_PATTERN (p, s)) \<longleftrightarrow> (\<exists>u. s = u @ v \<and> q = Some (last u) \<and> email_at p u (next_char v))" for q
    unfolding EMAIL_PATTERN_def bounded_def email_at_def
    by (auto simp: assertions_at ends_at [OF plain_patterns(1) address_shape(1)] next_append address_shape(1) split: if_splits)
  then show ?thesis by blast
qed

lemma phone_ends: "(\<exists>q. (q, v) \<in> set (rx_ends PHONE_PATTERN (p, s))) \<longleftrightarrow> (\<exists>u. s = u @ v \<and> phone_at p u (next_char v))"
proof -
  have "(q, v) \<in> set (rx_ends PHONE_PATTERN (p, s)) \<longleftrightarrow> (\<exists>u. s = u @ v \<and> q = Some (last u) \<and> phone_at p u (next_char v))" for q
    unfolding PHONE_PATTERN_def phone_at_def
    by (auto simp: assertions_at ends_at [OF plain_patterns(2) number_shape(1)] split: if_splits)
  then show ?thesis by blast
qed

lemma bracket_chars: "\<not> address_char CHR ''[''" "\<not> address_char CHR '']''" "\<not> number_char CHR ''[''" "\<not> number_char CHR '']''"
  "\<not> is_word CHR ''[''" "\<not> is_word CHR '']''"
  by code_simp+

interpretation email_pass: scrub_pass EMAIL_PATTERN email_at email_at address_char "(=) CHR ''@''" "''REDACTED_EMAIL''"
  by unfold_locales (auto simp: email_ends email_at_def address_shape bracket_chars)

interpretation phone_pass: scrub_pass PHONE_PATTERN phone_at phone_at number_char is_digit_char "''REDACTED_PHONE''"
proof unfold_locales
  show "list_all (\<lambda>c. \<not> is_digit_char c) ''REDACTED_PHONE''" by code_simp
  show "u \<noteq> [] \<and> phone_at (Some c) u n" if "phone_at p h (Some c)" "phone_at (Some CHR '']'') (c # u) n" for p h c u n
    using that number_tail [of c u] number_shape(1) [of u] by (auto simp: phone_at_def)
qed (auto simp: phone_ends phone_at_def number_shape bracket_chars)

interpretation phone_after_email: scrub_pass PHONE_PATTERN phone_at email_at address_char "(=) CHR ''@''" "''REDACTED_PHONE''"
  by unfold_locales (auto simp: phone_ends phone_at_def number_shape email_at_def address_shape bracket_chars)

text \<open>
  C0. What the scrubber sends to a provider holds no email address and no phone number: neither pattern matches
  anywhere in the scrubbed text, also not across the labels that were put in or where removing one match would
  have joined its neighbours.
\<close>

theorem nothing_personal_is_left:
  "\<not> occurs EMAIL_PATTERN (scrub_text None s) \<and> \<not> occurs PHONE_PATTERN (scrub_text None s)"
proof -
  let ?t = "rx_sub EMAIL_PATTERN ''[REDACTED_EMAIL]'' s"
  have "free email_at None ?t" using email_pass.sub_free [of s] by simp
  then have "free email_at None (scrub_text None s)" using phone_after_email.sub_free [of ?t] by (simp add: scrub_text_def)
  moreover have "free phone_at None (scrub_text None s)" using phone_pass.sub_free [of ?t] by (simp add: scrub_text_def)
  ultimately show ?thesis
    using email_pass.free_occurs phone_pass.free_occurs unfolding occurs_def by blast
qed

end
