(* ===== verification/Wiring.thy ===== *)
theory Wiring
  imports Prefer Strategies_Window Strategies_Session Engine Analyzer Pii
begin

text \<open>
  \<open>build_strategies\<close> of \<open>src/router/strategies.py\<close>: the modelled strategies under the names the engine
  looks them up by. Each is constructed from the settings, which may raise, holds the catalog it was
  built with, and reads or changes the engine's own statistics at the instant of the decision. The entries
  are in the order of the source, but for the ten guards among and before the capability strategies.
\<close>

subsection \<open>Settings\<close>

text \<open>The parameters of \<open>build_strategies\<close> in two groups, with the defaults of \<open>RouterSettings\<close>\<close>

record extra_settings =
  xg_semantic_cache_ttl_seconds :: rat
  xg_provider_spend_soft_usd :: rat
  xg_carbon_aware_max_intensity :: rat
  xg_tenant_concurrency_lease :: int
  xg_adaptive_timeout_hedge_ratio :: rat
  xg_region_carbon_blend_weight :: rat
  xg_provider_circuit_probe_budget :: int
  xg_carbon_latency_carbon_weight :: rat
  xg_carbon_latency_latency_weight :: rat
  xg_sticky_region_warmup_requests :: int
  xg_tenant_quota_burst_soft :: int
  xg_tenant_quota_burst_hard :: int
  xg_provider_tail_latency_hedge_ms :: rat
  xg_sticky_session_migrate_success_threshold :: rat
  xg_provider_cold_start_target :: int
  xg_sticky_region_drain_regions :: "string list"
  xg_provider_canary_primary_provider :: string
  xg_provider_canary_shadow_percent :: rat
  xg_sticky_model_pin_ttl_seconds :: rat
  xg_tenant_priority_high_tenants :: "string list"
  xg_tenant_priority_low_tenants :: "string list"
  xg_tenant_priority_high_quota :: int
  xg_tenant_priority_normal_quota :: int
  xg_tenant_priority_low_quota :: int
  xg_deadline_aware_threshold_ms :: rat
  xg_provider_success_floor :: rat
  xg_provider_warmup_blend :: rat
  xg_tenant_soft_isolation_rpm :: int
  xg_prompt_injection_risk_threshold :: rat
  xg_thinking_complexity_threshold :: rat

record strategy_settings =
  sg_quality_floor :: rat
  sg_ab_model_a :: string
  sg_ab_model_b :: string
  sg_ab_model_a_weight :: rat
  sg_blend_quality_weight :: rat
  sg_blend_cost_weight :: rat
  sg_blend_latency_weight :: rat
  sg_request_cost_ceiling_usd :: rat
  sg_canary_stable_model :: string
  sg_canary_model :: string
  sg_canary_weight :: rat
  sg_latency_sla_ms :: rat
  sg_min_prefix_chars :: int
  sg_epsilon :: rat
  sg_availability_slo :: rat
  sg_failover_priority :: "string list option"
  sg_health_blend_success_weight :: rat
  sg_health_blend_latency_weight :: rat
  sg_health_blend_quality_weight :: rat
  sg_health_blend_cost_weight :: rat
  sg_concurrency_cap :: int
  sg_hcl_health_weight :: rat
  sg_hcl_cost_weight :: rat
  sg_hcl_latency_weight :: rat
  sg_tier_frontier_rpm :: int
  sg_tier_mid_rpm :: int
  sg_tier_economy_rpm :: int
  sg_provider_family_cost_ceiling_usd :: rat
  sg_adaptive_exploration_base :: rat
  sg_adaptive_exploration_min :: rat
  sg_soft_family_budget_usd :: rat
  sg_sticky_region_failover_preferences :: "string list option"
  sg_latency_slo_ms :: rat
  sg_shadow_traffic_percent :: rat
  sg_canary_cost_blend_percent :: rat
  sg_token_cost_anomaly_ratio :: rat
  sg_latency_hedge_ms :: rat
  sg_prompt_length_tier_tokens :: int
  sg_retry_budget_default :: int
  sg_cache_hit_sticky_min_chars :: int
  sg_embedding_cache_namespace_prefix :: string
  sg_circuit_half_open_probe_budget :: int
  sg_provider_error_budget_rate :: rat
  sg_region_latency_p99_ms :: rat
  sg_sticky_canary_cost_percent :: rat
  sg_queue_depth_soft_cap :: int
  sg_latency_slope_threshold_ms :: rat
  sg_provider_hourly_cost_ceiling_usd :: rat
  sg_token_rpm_ceiling :: int
  sg_adaptive_concurrency_base_cap :: int
  sg_adaptive_concurrency_min_cap :: int
  sg_adaptive_concurrency_latency_ms :: rat
  sg_provider_token_fair_share_ceiling :: int
  sg_region_failover_hysteresis_successes :: int
  sg_tenant_budget_cascade_soft :: rat
  sg_tenant_budget_cascade_hard :: rat
  sg_provider_error_budget_reset_fraction :: rat
  sg_capability_map :: "(string \<times> string set) list option"
  sg_more :: extra_settings

definition default_extra_settings :: extra_settings where
  "default_extra_settings = \<lparr>
     xg_semantic_cache_ttl_seconds = 300, xg_provider_spend_soft_usd = 10, xg_carbon_aware_max_intensity = 400,
     xg_tenant_concurrency_lease = 8, xg_adaptive_timeout_hedge_ratio = 3/2, xg_region_carbon_blend_weight = 1/2,
     xg_provider_circuit_probe_budget = 1, xg_carbon_latency_carbon_weight = 1/2, xg_carbon_latency_latency_weight = 1/2,
     xg_sticky_region_warmup_requests = 3, xg_tenant_quota_burst_soft = 60, xg_tenant_quota_burst_hard = 75,
     xg_provider_tail_latency_hedge_ms = 1500, xg_sticky_session_migrate_success_threshold = fl (9/10),
     xg_provider_cold_start_target = 5, xg_sticky_region_drain_regions = [],
     xg_provider_canary_primary_provider = ''openai'', xg_provider_canary_shadow_percent = 5,
     xg_sticky_model_pin_ttl_seconds = 300, xg_tenant_priority_high_tenants = [], xg_tenant_priority_low_tenants = [],
     xg_tenant_priority_high_quota = 100, xg_tenant_priority_normal_quota = 60, xg_tenant_priority_low_quota = 30,
     xg_deadline_aware_threshold_ms = 500, xg_provider_success_floor = fl (85/100), xg_provider_warmup_blend = fl (3/10),
     xg_tenant_soft_isolation_rpm = 60, xg_prompt_injection_risk_threshold = fl (7/10),
     xg_thinking_complexity_threshold = fl (7/10) \<rparr>"

definition default_strategy_settings :: strategy_settings where
  "default_strategy_settings = \<lparr>
     sg_quality_floor = fl (72/100),
     sg_ab_model_a = OPENAI_BALANCED_MODEL, sg_ab_model_b = ANTHROPIC_FAST_MODEL, sg_ab_model_a_weight = 1/2,
     sg_blend_quality_weight = 1/2, sg_blend_cost_weight = fl (3/10), sg_blend_latency_weight = fl (2/10),
     sg_request_cost_ceiling_usd = fl (5/100),
     sg_canary_stable_model = OPENAI_BALANCED_MODEL, sg_canary_model = OPENAI_FRONTIER_MODEL, sg_canary_weight = fl (1/10),
     sg_latency_sla_ms = 750, sg_min_prefix_chars = 512, sg_epsilon = fl (1/10), sg_availability_slo = fl (99/100),
     sg_failover_priority = Some [OPENAI_FRONTIER_MODEL, ANTHROPIC_SAFETY_MODEL, GEMINI_PRO_MODEL, MOONSHOT_BALANCED_MODEL],
     sg_health_blend_success_weight = fl (35/100), sg_health_blend_latency_weight = 1/4,
     sg_health_blend_quality_weight = 1/4, sg_health_blend_cost_weight = fl (15/100),
     sg_concurrency_cap = 8,
     sg_hcl_health_weight = fl (4/10), sg_hcl_cost_weight = fl (3/10), sg_hcl_latency_weight = fl (3/10),
     sg_tier_frontier_rpm = 30, sg_tier_mid_rpm = 60, sg_tier_economy_rpm = 120,
     sg_provider_family_cost_ceiling_usd = fl (5/100),
     sg_adaptive_exploration_base = fl (2/10), sg_adaptive_exploration_min = fl (2/100),
     sg_soft_family_budget_usd = 5,
     sg_sticky_region_failover_preferences = Some [''eu'', ''us'', ''cn'', ''global''],
     sg_latency_slo_ms = 2000, sg_shadow_traffic_percent = 5, sg_canary_cost_blend_percent = 10,
     sg_token_cost_anomaly_ratio = 2, sg_latency_hedge_ms = 500, sg_prompt_length_tier_tokens = 8000,
     sg_retry_budget_default = 3, sg_cache_hit_sticky_min_chars = 64, sg_embedding_cache_namespace_prefix = ''embed'',
     sg_circuit_half_open_probe_budget = 2, sg_provider_error_budget_rate = fl (15/100), sg_region_latency_p99_ms = 3000,
     sg_sticky_canary_cost_percent = 10, sg_queue_depth_soft_cap = 4, sg_latency_slope_threshold_ms = 25,
     sg_provider_hourly_cost_ceiling_usd = 5, sg_token_rpm_ceiling = 100000,
     sg_adaptive_concurrency_base_cap = 8, sg_adaptive_concurrency_min_cap = 1, sg_adaptive_concurrency_latency_ms = 2000,
     sg_provider_token_fair_share_ceiling = 100000, sg_region_failover_hysteresis_successes = 3,
     sg_tenant_budget_cascade_soft = 10, sg_tenant_budget_cascade_hard = 25/2,
     sg_provider_error_budget_reset_fraction = fl (15/100),
     sg_capability_map = None, sg_more = default_extra_settings \<rparr>"

subsection \<open>Choosers\<close>

text \<open>A strategy that only reads the engine, and one that reads and changes one of its statistics\<close>

definition read_only :: "(rat \<Rightarrow> engine \<Rightarrow> catalog \<Rightarrow> router_request \<Rightarrow> task_signals \<Rightarrow> routing_decision result) \<Rightarrow>
    catalog \<Rightarrow> chooser" where
  "read_only pick cat now r s en = (pick now en cat r s, en)"

definition updating :: "(engine \<Rightarrow> 's) \<Rightarrow> ('s \<Rightarrow> engine \<Rightarrow> engine) \<Rightarrow>
    (rat \<Rightarrow> engine \<Rightarrow> catalog \<Rightarrow> router_request \<Rightarrow> task_signals \<Rightarrow> 's \<Rightarrow> routing_decision result \<times> 's) \<Rightarrow> catalog \<Rightarrow> chooser" where
  "updating get put pick cat now r s en =
     (case pick now en cat r s (get en) of (res, st) \<Rightarrow> (res, put st en))"

text \<open>\<open>updating\<close> on one of the statistics in \<open>en_sessions\<close>\<close>

definition in_sessions :: "(session_state \<Rightarrow> 's) \<Rightarrow> ('s \<Rightarrow> session_state \<Rightarrow> session_state) \<Rightarrow>
    (rat \<Rightarrow> engine \<Rightarrow> catalog \<Rightarrow> router_request \<Rightarrow> task_signals \<Rightarrow> 's \<Rightarrow> routing_decision result \<times> 's) \<Rightarrow> catalog \<Rightarrow> chooser" where
  "in_sessions get put = updating (\<lambda>en. get (en_sessions en)) (\<lambda>x en. en\<lparr> en_sessions := put x (en_sessions en) \<rparr>)"

definition configured :: "'c result \<Rightarrow> ('c \<Rightarrow> catalog \<Rightarrow> chooser) \<Rightarrow> catalog \<Rightarrow> chooser result" where
  "configured mk strategy cat = bind_result mk (\<lambda>x. Inr (strategy x cat))"

definition plain :: "(catalog \<Rightarrow> chooser) \<Rightarrow> catalog \<Rightarrow> chooser result" where
  "plain strategy cat = Inr (strategy cat)"

text \<open>\<open>NexusRouter.provider_routable\<close>, and \<open>is_half_open\<close> of the same registry\<close>

definition provider_routable :: "rat \<Rightarrow> engine \<Rightarrow> string \<Rightarrow> bool" where
  "provider_routable now en provider = is_available now provider (en_breakers en)"

definition provider_half_open :: "rat \<Rightarrow> engine \<Rightarrow> string \<Rightarrow> bool" where
  "provider_half_open now en provider = is_half_open now provider (en_breakers en)"

subsection \<open>The dictionary\<close>

text \<open>The health view of the strategies\<close>

abbreviation up :: "rat \<Rightarrow> engine \<Rightarrow> string \<Rightarrow> bool" where
  "up now en \<equiv> provider_routable now en"

definition resolved_failover_priority :: "strategy_settings \<Rightarrow> catalog \<Rightarrow> string list" where
  "resolved_failover_priority sg cat = (case sg_failover_priority sg of Some order \<Rightarrow> order | None \<Rightarrow> take 4 (map fst cat))"

definition scoring_entries :: "strategy_settings \<Rightarrow> catalog \<Rightarrow> (strategy_name \<times> chooser result) list" where
  "scoring_entries sg cat =
    [(''rule-based'', plain (read_only (\<lambda>_ _. rule_based_choose)) cat),
     (''classifier'', plain (read_only (\<lambda>_ _. classifier_choose)) cat),
     (''cost-optimal'', plain (read_only (\<lambda>_ _. cost_optimal_choose (sg_quality_floor sg))) cat),
     (''latency-aware'', plain (read_only (\<lambda>_ en. latency_aware_choose (en_latency en))) cat),
     (''cost-latency-pareto'', plain (read_only (\<lambda>_ en. cost_latency_pareto_choose (en_latency en))) cat),
     (''least-busy'', plain (read_only (\<lambda>_ en. least_busy_choose (en_inflight en))) cat),
     (''concurrency-cap'', configured (make_concurrency_cap (sg_concurrency_cap sg))
         (\<lambda>cap. read_only (\<lambda>_ en. concurrency_cap_choose (en_inflight en) cap)) cat),
     (''reliability-aware'', plain (read_only (\<lambda>now en. reliability_aware_choose (up now en))) cat),
     (''weighted-blend'', configured (make_weighted_blend (sg_blend_quality_weight sg) (sg_blend_cost_weight sg)
         (sg_blend_latency_weight sg)) (\<lambda>ws. read_only (\<lambda>_ en. weighted_blend_choose ws (en_latency en))) cat),
     (''budget-aware'', configured (make_budget_aware (sg_request_cost_ceiling_usd sg))
         (\<lambda>most. read_only (\<lambda>_ _. budget_aware_choose most)) cat),
     (''provider-family-cost-ceiling'', configured (make_family_cost_ceiling (sg_provider_family_cost_ceiling_usd sg) [])
         (\<lambda>lims. read_only (\<lambda>_ _. family_cost_ceiling_choose lims)) cat),
     (''sticky-session'', plain (read_only (\<lambda>_ _. sticky_session_choose)) cat),
     (''latency-budget'', configured (make_latency_budget (sg_latency_sla_ms sg))
         (\<lambda>sla. read_only (\<lambda>_ en. latency_budget_choose (en_latency en) sla)) cat),
     (''adaptive-timeout'', configured (make_adaptive_timeout (sg_latency_sla_ms sg))
         (\<lambda>base. read_only (\<lambda>_ en. adaptive_timeout_choose (en_latency en) (en_success en) base)) cat),
     (''value'', plain (read_only (\<lambda>_ _. value_choose)) cat),
     (''complexity-tier'', plain (read_only (\<lambda>_ _. complexity_tier_choose)) cat),
     (''round-robin'', plain (read_only (\<lambda>_ _. round_robin_choose)) cat),
     (''cascade'', plain (read_only (\<lambda>_ _. cascade_choose)) cat),
     (''epsilon-greedy'', configured (make_epsilon_greedy (sg_epsilon sg)) (\<lambda>e. read_only (\<lambda>_ _. epsilon_greedy_choose e)) cat),
     (''adaptive-exploration'', configured (make_exploration (sg_adaptive_exploration_base sg) (sg_adaptive_exploration_min sg))
         (\<lambda>ex. read_only (\<lambda>_ en. adaptive_exploration_choose ex (en_success en))) cat),
     (''token-budget'', plain (read_only (\<lambda>_ _. token_budget_choose)) cat),
     (''geo-region'', plain (read_only (\<lambda>_ _. geo_region_choose)) cat),
     (''region-tier-affinity'', plain (read_only (\<lambda>_ _. region_tier_choose)) cat)]"

definition shedding_entries :: "strategy_settings \<Rightarrow> catalog \<Rightarrow> (strategy_name \<times> chooser result) list" where
  "shedding_entries sg cat = (let regions = make_sticky_region (sg_sticky_region_failover_preferences sg) in
    [(''soft-family-budget'', configured (make_soft_family_budget (sg_soft_family_budget_usd sg))
         (\<lambda>b. updating en_family_spend (\<lambda>x en. en\<lparr> en_family_spend := x \<rparr>) (\<lambda>now _. soft_family_budget_choose now b)) cat),
     (''sticky-region-failover'', plain (read_only (\<lambda>now en. sticky_region_choose (up now en) regions)) cat),
     (''slo-aware'', configured (make_slo_aware (sg_availability_slo sg))
         (\<lambda>slo. read_only (\<lambda>_ en. slo_aware_choose (en_success en) slo)) cat),
     (''prompt-prefix-cache'', configured (make_prefix_cache (sg_min_prefix_chars sg))
         (\<lambda>n. read_only (\<lambda>_ _. prefix_cache_choose (sg_quality_floor sg) n)) cat),
     (''soft-rate-limit'', plain (read_only (\<lambda>now en. soft_rate_limit_choose (up now en) (en_rate_limits en))) cat),
     (''token-bucket-burst'', plain (updating en_token_buckets (\<lambda>x en. en\<lparr> en_token_buckets := x \<rparr>)
         (\<lambda>now _. token_bucket_burst_choose now)) cat),
     (''model-tier-rate-limit'', configured (make_tier_limits (sg_tier_frontier_rpm sg) (sg_tier_mid_rpm sg) (sg_tier_economy_rpm sg))
         (\<lambda>tls. updating en_tier_requests (\<lambda>x en. en\<lparr> en_tier_requests := x \<rparr>) (\<lambda>now _. tier_rate_limit_choose now tls)) cat),
     (''semantic-cache'', plain (read_only (\<lambda>_ _. semantic_cache_choose (sg_quality_floor sg))) cat),
     (''failover-priority'', configured (make_failover_priority cat (resolved_failover_priority sg cat))
         (\<lambda>order. read_only (\<lambda>now en. failover_priority_choose (up now en) order)) cat),
     (''provider-health-score-blend'', configured (make_health_blend (sg_health_blend_success_weight sg)
         (sg_health_blend_latency_weight sg) (sg_health_blend_quality_weight sg) (sg_health_blend_cost_weight sg))
         (\<lambda>ws. read_only (\<lambda>now en. health_blend_choose ws (up now en) (en_success en) (en_latency en))) cat),
     (''health-cost-latency'', configured (make_health_cost_latency (sg_hcl_health_weight sg) (sg_hcl_cost_weight sg)
         (sg_hcl_latency_weight sg)) (\<lambda>ws. read_only (\<lambda>_ en. health_cost_latency_choose ws (en_success en) (en_latency en))) cat),
     (''canary'', configured (make_canary cat (sg_canary_stable_model sg) (sg_canary_model sg) (sg_canary_weight sg))
         (\<lambda>cn. read_only (\<lambda>now en. canary_choose cn (up now en))) cat),
     (''canary-tier-blend'', configured (make_canary cat (sg_canary_stable_model sg) (sg_canary_model sg) (sg_canary_weight sg))
         (\<lambda>cn. read_only (\<lambda>now en. canary_tier_choose cn (up now en))) cat),
     (''latency-slo-shed'', configured (make_latency_slo (sg_latency_slo_ms sg))
         (\<lambda>slo. read_only (\<lambda>_ en. latency_slo_shed_choose (en_latency en) slo)) cat),
     (''shadow-traffic-mirror'', configured (make_percent (sg_shadow_traffic_percent sg))
         (\<lambda>p. read_only (\<lambda>_ _. shadow_mirror_choose (sg_quality_floor sg) p)) cat),
     (''canary-cost-blend'', configured (make_percent (sg_canary_cost_blend_percent sg))
         (\<lambda>p. read_only (\<lambda>now en. canary_cost_choose (up now en) p)) cat),
     (''token-cost-anomaly-shed'', configured (make_cost_anomaly_shed (sg_token_cost_anomaly_ratio sg))
         (\<lambda>ratio. read_only (\<lambda>now en. cost_anomaly_shed_choose (up now en) (en_cost_anomaly en) ratio)) cat)])"

definition sticky_entries :: "strategy_settings \<Rightarrow> catalog \<Rightarrow> (strategy_name \<times> chooser result) list" where
  "sticky_entries sg cat = (let xg = sg_more sg in
    [(''sticky-tenant-hash'', plain (read_only (\<lambda>now en. sticky_tenant_choose (up now en))) cat),
     (''multi-region-latency-hedge'', configured (make_latency_hedge (sg_latency_hedge_ms sg))
         (\<lambda>ms. read_only (\<lambda>_ en. region_hedge_choose (en_latency en) ms)) cat),
     (''prompt-length-tier-shed'', configured (make_prompt_length_shed (sg_prompt_length_tier_tokens sg))
         (\<lambda>n. read_only (\<lambda>_ _. prompt_length_shed_choose n)) cat),
     (''retry-budget-aware-failover'', configured (make_retry_budget (sg_retry_budget_default sg))
         (\<lambda>n. read_only (\<lambda>now en. retry_budget_choose (up now en) (en_latency en) n)) cat),
     (''cache-hit-sticky-warm-pool'', configured (make_warm_pool (sg_cache_hit_sticky_min_chars sg))
         (\<lambda>n. read_only (\<lambda>now en. warm_pool_choose (up now en) n)) cat),
     (''embedding-cache-key-namespace'', configured (make_namespace (sg_embedding_cache_namespace_prefix sg))
         (\<lambda>prefix. read_only (\<lambda>now en. embedding_namespace_choose (up now en) prefix)) cat),
     (''circuit-breaker-half-open-probe'', configured (make_half_open_probe (sg_circuit_half_open_probe_budget sg))
         (\<lambda>n. read_only (\<lambda>now en. half_open_probe_choose (up now en) (provider_half_open now en) (en_inflight en) n)) cat),
     (''semantic-cache-ttl-affinity'', configured (make_cache_ttl (xg_semantic_cache_ttl_seconds xg))
         (\<lambda>ttl. read_only (\<lambda>now en. cache_ttl_choose (up now en) ttl)) cat),
     (''provider-spend-telemetry'', configured (make_spend_telemetry (xg_provider_spend_soft_usd xg))
         (\<lambda>usd. read_only (\<lambda>now en. spend_telemetry_choose (up now en) usd)) cat),
     (''carbon-aware-preference'', configured (make_carbon_aware (xg_carbon_aware_max_intensity xg))
         (\<lambda>most. read_only (\<lambda>now en. carbon_aware_choose (up now en) most)) cat),
     (''tenant-concurrency-lease'', configured (make_tenant_lease (xg_tenant_concurrency_lease xg))
         (\<lambda>n. read_only (\<lambda>_ en. tenant_lease_choose (en_inflight en) n)) cat),
     (''provider-error-budget-shed'', configured (make_error_budget_shed (sg_provider_error_budget_rate sg))
         (\<lambda>b. read_only (\<lambda>now en. error_budget_shed_choose (up now en) (en_success en) b)) cat),
     (''region-latency-p99-shed'', configured (make_region_p99 (sg_region_latency_p99_ms sg))
         (\<lambda>ms. read_only (\<lambda>_ en. region_p99_shed_choose (en_latency en) ms)) cat),
     (''sticky-canary-cost'', configured (make_percent (sg_sticky_canary_cost_percent sg))
         (\<lambda>p. read_only (\<lambda>now en. sticky_canary_choose (up now en) p)) cat),
     (''queue-depth-fairness'', configured (make_queue_depth (sg_queue_depth_soft_cap sg))
         (\<lambda>n. read_only (\<lambda>_ en. queue_depth_choose (en_inflight en) n)) cat),
     (''provider-quota-fair-share'', plain (updating en_request_shares (\<lambda>x en. en\<lparr> en_request_shares := x \<rparr>)
         (\<lambda>_ _. quota_fair_share_choose)) cat),
     (''adaptive-timeout-hedge'', configured (make_timeout_hedge (xg_adaptive_timeout_hedge_ratio xg))
         (\<lambda>ratio. read_only (\<lambda>_ en. timeout_hedge_choose (en_latency en) ratio)) cat),
     (''token-bucket-tenant'', plain (updating en_tenant_buckets (\<lambda>x en. en\<lparr> en_tenant_buckets := x \<rparr>)
         (\<lambda>now _. token_bucket_tenant_choose now)) cat),
     (''region-carbon-blend'', configured (make_region_carbon (xg_region_carbon_blend_weight xg))
         (\<lambda>w. read_only (\<lambda>_ en. region_carbon_choose (en_latency en) w)) cat),
     (''provider-weight-decay'', plain (read_only (\<lambda>_ en. weight_decay_choose (en_weights en))) cat),
     (''retry-after-respect'', plain (read_only (\<lambda>now en. retry_after_choose now (up now en) (en_cooldown en))) cat),
     (''latency-slope-shed'', configured (make_latency_slope_shed (sg_latency_slope_threshold_ms sg))
         (\<lambda>ms. read_only (\<lambda>now en. latency_slope_shed_choose (en_slope en) (up now en) ms)) cat)])"

definition window_entries :: "strategy_settings \<Rightarrow> catalog \<Rightarrow> (strategy_name \<times> chooser result) list" where
  "window_entries sg cat = (let regions = make_sticky_region (sg_sticky_region_failover_preferences sg); xg = sg_more sg in
    [(''provider-hourly-cost-ceiling'', configured (make_hourly_ceiling (sg_provider_hourly_cost_ceiling_usd sg))
         (\<lambda>usd. updating en_hourly_spend (\<lambda>x en. en\<lparr> en_hourly_spend := x \<rparr>) (\<lambda>now _. hourly_ceiling_choose now usd)) cat),
     (''quality-weighted-sticky'', plain (read_only (\<lambda>_ _. quality_sticky_choose)) cat),
     (''token-rpm-ceiling'', configured (make_token_rpm_ceiling (sg_token_rpm_ceiling sg))
         (\<lambda>n. updating en_token_rpm (\<lambda>x en. en\<lparr> en_token_rpm := x \<rparr>) (\<lambda>now _. token_rpm_choose now n)) cat),
     (''provider-circuit-probe'', configured (make_circuit_probe (xg_provider_circuit_probe_budget xg))
         (\<lambda>n. in_sessions se_probes (\<lambda>x se. se\<lparr> se_probes := x \<rparr>)
            (\<lambda>now en. circuit_probe_choose (up now en) (provider_half_open now en) n)) cat),
     (''carbon-latency-blend'', configured (make_carbon_latency (xg_carbon_latency_carbon_weight xg) (xg_carbon_latency_latency_weight xg))
         (\<lambda>ws. read_only (\<lambda>_ en. carbon_latency_choose (en_latency en) ws)) cat),
     (''adaptive-concurrency-cap'', configured (make_adaptive_concurrency (sg_adaptive_concurrency_base_cap sg)
         (sg_adaptive_concurrency_min_cap sg) (sg_adaptive_concurrency_latency_ms sg))
         (\<lambda>ac. read_only (\<lambda>_ en. adaptive_concurrency_choose ac (en_inflight en) (en_success en) (en_latency en))) cat),
     (''provider-token-fair-share'', configured (make_token_fair_share (sg_provider_token_fair_share_ceiling sg))
         (\<lambda>n. updating en_token_rpm (\<lambda>x en. en\<lparr> en_token_rpm := x \<rparr>) (\<lambda>now _. token_fair_share_choose now n)) cat),
     (''region-failover-hysteresis'', configured (make_region_hysteresis (sg_region_failover_hysteresis_successes sg))
         (\<lambda>n. updating en_hysteresis (\<lambda>x en. en\<lparr> en_hysteresis := x \<rparr>)
            (\<lambda>now en. region_hysteresis_choose (up now en) regions n)) cat),
     (''tenant-budget-cascade'', configured (make_budget_cascade (sg_tenant_budget_cascade_soft sg) (sg_tenant_budget_cascade_hard sg))
         (\<lambda>b. updating en_cascade (\<lambda>x en. en\<lparr> en_cascade := x \<rparr>) (\<lambda>now _. budget_cascade_choose now b)) cat),
     (''provider-error-budget-reset'', configured (make_error_budget_reset (sg_provider_error_budget_reset_fraction sg))
         (\<lambda>f. updating en_error_reset (\<lambda>x en. en\<lparr> en_error_reset := x \<rparr>)
            (\<lambda>now en. error_budget_reset_choose now (up now en) f)) cat)])"

definition session_entries :: "strategy_settings \<Rightarrow> catalog \<Rightarrow> (strategy_name \<times> chooser result) list" where
  "session_entries sg cat = (let regions = sg_sticky_region_failover_preferences sg; xg = sg_more sg in
    [(''sticky-region-warmup'', configured (make_region_warmup regions (xg_sticky_region_warmup_requests xg))
         (\<lambda>config. in_sessions se_warmup (\<lambda>x se. se\<lparr> se_warmup := x \<rparr>)
            (\<lambda>now en. region_warmup_choose (up now en) config)) cat),
     (''tenant-quota-burst'', configured (make_quota_burst (xg_tenant_quota_burst_soft xg) (xg_tenant_quota_burst_hard xg))
         (\<lambda>quotas. in_sessions se_quota_burst (\<lambda>x se. se\<lparr> se_quota_burst := x \<rparr>)
            (\<lambda>now _. quota_burst_choose now quotas)) cat),
     (''provider-tail-latency-hedge'', configured (make_tail_hedge (xg_provider_tail_latency_hedge_ms xg))
         (\<lambda>ms. read_only (\<lambda>now en. tail_hedge_choose (up now en) (en_latency en) ms)) cat),
     (''sticky-session-migrate'', configured (make_unit (xg_sticky_session_migrate_success_threshold xg))
         (\<lambda>x. in_sessions se_migrate (\<lambda>x se. se\<lparr> se_migrate := x \<rparr>)
            (\<lambda>now en. session_migrate_choose (up now en) (en_success en) x)) cat),
     (''provider-cold-start-bias'', configured (make_cold_start (xg_provider_cold_start_target xg))
         (\<lambda>n. in_sessions se_cold_start (\<lambda>x se. se\<lparr> se_cold_start := x \<rparr>) (\<lambda>now en. cold_start_choose (up now en) n)) cat),
     (''tenant-fair-queue'', plain (in_sessions se_fair_queue (\<lambda>x se. se\<lparr> se_fair_queue := x \<rparr>)
         (\<lambda>now en. fair_queue_choose (up now en))) cat),
     (''sticky-region-drain'', plain (in_sessions se_drain (\<lambda>x se. se\<lparr> se_drain := x \<rparr>)
         (\<lambda>now en. region_drain_choose (up now en) (clean_regions regions) (drained_regions (xg_sticky_region_drain_regions xg)))) cat),
     (''provider-canary-shadow-split'', configured (make_shadow_split (xg_provider_canary_primary_provider xg)
         (xg_provider_canary_shadow_percent xg))
         (\<lambda>config. in_sessions se_shadow (\<lambda>x se. se\<lparr> se_shadow := x \<rparr>) (\<lambda>now en. shadow_split_choose (up now en) config)) cat),
     (''sticky-model-pin-expire'', configured (make_pin_expire (xg_sticky_model_pin_ttl_seconds xg))
         (\<lambda>ttl. in_sessions se_pins (\<lambda>x se. se\<lparr> se_pins := x \<rparr>) (\<lambda>now en. pin_expire_choose now (up now en) ttl)) cat),
     (''tenant-priority-lanes'', configured (make_priority_lanes (xg_tenant_priority_high_tenants xg)
         (xg_tenant_priority_low_tenants xg) (xg_tenant_priority_high_quota xg) (xg_tenant_priority_normal_quota xg)
         (xg_tenant_priority_low_quota xg))
         (\<lambda>lc. in_sessions se_lanes (\<lambda>x se. se\<lparr> se_lanes := x \<rparr>)
            (\<lambda>now en. priority_lanes_choose (up now en) (en_latency en) lc)) cat)])"

definition guard_entries :: "strategy_settings \<Rightarrow> catalog \<Rightarrow> (strategy_name \<times> chooser result) list" where
  "guard_entries sg cat = (let xg = sg_more sg in
    [(''request-class-qos'', plain (read_only (\<lambda>now en. request_class_choose (up now en) (en_latency en))) cat),
     (''deadline-aware-pick'', configured (make_deadline_aware (xg_deadline_aware_threshold_ms xg))
         (\<lambda>ms. read_only (\<lambda>now en. deadline_choose (up now en) (en_latency en) ms)) cat),
     (''provider-success-floor'', configured (make_unit (xg_provider_success_floor xg))
         (\<lambda>x. read_only (\<lambda>now en. success_floor_choose (up now en) (en_success en) x)) cat),
     (''model-capability-gate'', plain (read_only (\<lambda>now en.
         capability_gate_choose (make_capability_gate (sg_capability_map sg)) (up now en))) cat),
     (''provider-warmup-weight'', configured (make_unit (xg_provider_warmup_blend xg))
         (\<lambda>b. read_only (\<lambda>now en. warmup_weight_choose (up now en) b)) cat),
     (''tenant-soft-isolation'', configured (make_soft_isolation (xg_tenant_soft_isolation_rpm xg))
         (\<lambda>n. read_only (\<lambda>now en. soft_isolation_choose (up now en) n)) cat),
     (''provider-exclusion'', plain (read_only (\<lambda>now en. exclusion_choose (up now en))) cat),
     (''prompt-injection-risk-shed'', configured (make_unit (xg_prompt_injection_risk_threshold xg))
         (\<lambda>x. read_only (\<lambda>now en. injection_shed_choose (up now en) x)) cat),
     (''thinking-model-prefer'', configured (make_unit (xg_thinking_complexity_threshold xg))
         (\<lambda>x. read_only (\<lambda>now en. thinking_choose (up now en) x)) cat),
     (''long-context-prefer'', plain (read_only (\<lambda>now en. long_context_choose known_context_windows (up now en))) cat)])"

text \<open>The last fifteen capability strategies are built without the capability map of the settings.\<close>

definition prefer_entries :: "strategy_settings \<Rightarrow> catalog \<Rightarrow> (strategy_name \<times> chooser result) list" where
  "prefer_entries sg cat =
     (let caps = (case sg_capability_map sg of Some m \<Rightarrow> map_of m | None \<Rightarrow> known_model_capabilities) in
      map (\<lambda>pp. (pp_name pp, plain (read_only (\<lambda>now en. prefer_choose pp (up now en))) cat))
        (take 16 (prefer_policies caps) @ drop 16 (prefer_policies known_model_capabilities)))"

definition strategy_entries :: "strategy_settings \<Rightarrow> catalog \<Rightarrow> (strategy_name \<times> chooser result) list" where
  "strategy_entries sg cat = scoring_entries sg cat @ shedding_entries sg cat @ sticky_entries sg cat @
     window_entries sg cat @ session_entries sg cat @ guard_entries sg cat @ prefer_entries sg cat @
     [(''ab'', configured (make_ab cat (sg_ab_model_a sg) (sg_ab_model_b sg) (sg_ab_model_a_weight sg))
        (\<lambda>ab. read_only (\<lambda>_ _. ab_choose ab)) cat)]"

text \<open>The first constructor that raises ends the whole construction.\<close>

fun all_built :: "(strategy_name \<times> chooser result) list \<Rightarrow> (strategy_name \<times> chooser) list result" where
  "all_built [] = Inr []"
| "all_built ((name, Inl e) # es) = Inl e"
| "all_built ((name, Inr ch) # es) = bind_result (all_built es) (\<lambda>chs. Inr ((name, ch) # chs))"

definition build_strategies :: "strategy_settings \<Rightarrow> catalog \<Rightarrow> (strategy_name \<times> chooser) list result" where
  "build_strategies sg cat = all_built (strategy_entries sg cat)"

definition wired :: "deps \<Rightarrow> (strategy_name \<times> chooser) list \<Rightarrow> deps" where
  "wired d strategies = d\<lparr> dp_strategies := map_of strategies \<rparr>"

text \<open>The router's own analyzer and scrubber: \<open>RequestAnalyzer()\<close> and \<open>PiiScrubber(settings.enable_pii_scrubbing)\<close>\<close>

definition router_deps :: "bool \<Rightarrow> (rat \<Rightarrow> rat) \<Rightarrow> deps \<Rightarrow> deps" where
  "router_deps enable_pii_scrubbing py_exp d = d\<lparr> dp_analyze := analyze py_exp, dp_scrub := scrub_messages enable_pii_scrubbing None \<rparr>"

end
