(* ===== verification/Session_Laws.thy ===== *)
theory Session_Laws
  imports Strategies_Session
begin

text \<open>
  What the session strategies keep of their statistics: each statistic has a well-formedness invariant
  that holds when it is created and after every choice, and three promises to the callers: a tenant
  never gets more than its hard quota within a window, a pinned session keeps its model until the pin
  expires, and a half-open provider is probed at most as often as its budget allows.
\<close>

subsection \<open>Well-formed statistics\<close>

definition positive_counts :: "('k \<rightharpoonup> int) \<Rightarrow> bool" where
  "positive_counts m \<longleftrightarrow> (\<forall>k n. m k = Some n \<longrightarrow> 1 \<le> n)"

lemma positive_count_up [intro]: "positive_counts m \<Longrightarrow> positive_counts (count_up k m)"
  by (auto simp: positive_counts_def count_up_def counted_def split: option.splits) fastforce

lemma positive_drop [intro]: "positive_counts m \<Longrightarrow> positive_counts (m(k := None))"
  by (simp add: positive_counts_def)

definition warmup_ok :: "warmup_stats \<Rightarrow> bool" where
  "warmup_ok wu \<longleftrightarrow> positive_counts (wu_request_counts wu) \<and>
     (\<forall>session region. wu_pinned_regions wu session = Some region \<longrightarrow> proper_region region)"

definition burst_ok :: "quota_burst_stats \<Rightarrow> bool" where
  "burst_ok qb \<longleftrightarrow> 0 < qb_window_seconds qb \<and> (\<forall>tenant. qb_requests qb tenant \<noteq> Some [])"

definition migrate_ok :: "migrate_stats \<Rightarrow> bool" where
  "migrate_ok mg \<longleftrightarrow> positive_counts (mg_migration_counts mg) \<and> dom (mg_migration_counts mg) \<subseteq> dom (mg_pinned_models mg)"

definition drains_ok :: "drain_stats \<Rightarrow> bool" where
  "drains_ok dr \<longleftrightarrow> drain_ok dr \<and> positive_counts (dr_migration_counts dr) \<and> dom (dr_migration_counts dr) \<subseteq> dom (dr_pinned_regions dr)"

definition lookback_ok :: "'a lookback_stats \<Rightarrow> bool" where
  "lookback_ok lb \<longleftrightarrow> 1 \<le> lb_lookback lb \<and> length (lb_observations lb) \<le> lb_lookback lb"

definition shadow_ok :: "shadow_stats \<Rightarrow> bool" where
  "shadow_ok sp \<longleftrightarrow> positive_counts (sp_primary_counts sp) \<and> positive_counts (sp_split_counts sp) \<and>
     distinct (map fst (sp_shadow_counts sp)) \<and> (\<forall>(p, n) \<in> set (sp_shadow_counts sp). 1 \<le> n)"

definition pins_ok :: "pin_stats \<Rightarrow> bool" where
  "pins_ok pe \<longleftrightarrow> positive_counts (pe_expiration_counts pe)"

definition sessions_ok :: "session_state \<Rightarrow> bool" where
  "sessions_ok se \<longleftrightarrow> warmup_ok (se_warmup se) \<and> burst_ok (se_quota_burst se) \<and> migrate_ok (se_migrate se) \<and>
     lookback_ok (se_cold_start se) \<and> lookback_ok (se_fair_queue se) \<and> drains_ok (se_drain se) \<and> shadow_ok (se_shadow se) \<and>
     pins_ok (se_pins se) \<and> lookback_ok (se_lanes se) \<and> positive_counts (se_probes se)"

lemma make_lookback_ok: "make_lookback n = Inr lb \<Longrightarrow> lookback_ok lb"
  by (auto simp: make_lookback_def lookback_ok_def split: if_splits)

lemma new_session_state_ok: "new_session_state w a b c = Inr se \<Longrightarrow> sessions_ok se"
  by (auto simp: new_session_state_def bind_result_Inr sessions_ok_def make_lookback_ok make_quota_burst_stats_def burst_ok_def
      warmup_ok_def new_warmup_stats_def migrate_ok_def new_migrate_stats_def drains_ok_def drain_ok_def new_drain_stats_def
      shadow_ok_def new_shadow_stats_def pins_ok_def new_pin_stats_def positive_counts_def split: if_splits)

subsection \<open>Every choice keeps them\<close>

lemma wu_advance_ok: "warmup_ok wu \<Longrightarrow> warmup_ok (snd (wu_advance session wu))"
  by (auto simp: warmup_ok_def wu_advance_def)

lemma wu_pin_ok: "warmup_ok wu \<Longrightarrow> warmup_ok (snd (wu_pin session region wu))"
  by (auto simp: warmup_ok_def wu_pin_def proper_region_norm)

lemma region_warmup_keeps: "warmup_ok wu \<Longrightarrow> warmup_ok (snd (region_warmup_choose h config cat r s wu))"
  using wu_advance_ok [of wu "rq_session_id r"] wu_pin_ok
  by (auto simp: region_warmup_choose_def Let_def split: prod.splits sum.splits) (metis snd_conv)+

lemma qb_trim_ok: "0 < qb_window_seconds qb \<Longrightarrow> (\<forall>u. u \<noteq> tenant \<longrightarrow> qb_requests qb u \<noteq> Some []) \<Longrightarrow> burst_ok (snd (qb_trim tenant now qb))"
  by (simp add: burst_ok_def qb_trim_def Let_def)

lemma qb_record_ok: "burst_ok qb \<Longrightarrow> burst_ok (qb_record now tenant qb)"
  unfolding qb_record_def by (intro qb_trim_ok) (auto simp: burst_ok_def)

lemma qb_usage_ok: "burst_ok qb \<Longrightarrow> burst_ok (snd (qb_usage now tenant qb))"
  using qb_trim_ok [of qb tenant now] by (auto simp: qb_usage_def burst_ok_def split: prod.splits)

lemma quota_burst_keeps: "burst_ok qb \<Longrightarrow> burst_ok (snd (quota_burst_choose now quotas cat r s qb))"
  using qb_usage_ok [of qb now "tenant_scope r"] by (auto simp: quota_burst_choose_def Let_def case_prod_beta qb_record_ok)

lemma mg_pin_ok: "migrate_ok mg \<Longrightarrow> migrate_ok (mg_pin session model mg)"
  by (auto simp: migrate_ok_def mg_pin_def)

lemma mg_migrate_ok: "migrate_ok mg \<Longrightarrow> migrate_ok (mg_migrate session model mg)"
  by (auto simp: migrate_ok_def mg_migrate_def Let_def count_up_def split: option.splits intro: positive_count_up [unfolded count_up_def])

lemma session_migrate_keeps: "migrate_ok mg \<Longrightarrow> migrate_ok (snd (session_migrate_choose h ss x cat r s mg))"
  by (auto simp: session_migrate_choose_def Let_def mg_pin_ok mg_migrate_ok split: option.splits)

lemma lb_observe_ok: "lookback_ok lb \<Longrightarrow> lookback_ok (lb_observe x lb)"
  by (auto simp: lookback_ok_def lb_observe_def push_def Let_def)

lemma pick_observe_ok: "lookback_ok st \<Longrightarrow> (\<And>c. lookback_ok (after c)) \<Longrightarrow> lookback_ok (snd (pick_observe n cs sel ra key after st))"
  by (simp add: pick_observe_def split: option.splits)

lemma cold_start_keeps: "lookback_ok lb \<Longrightarrow> lookback_ok (snd (cold_start_choose h n cat r s lb))"
  by (simp add: cold_start_choose_def Let_def pick_observe_ok lb_observe_ok)

lemma fair_queue_keeps: "lookback_ok lb \<Longrightarrow> lookback_ok (snd (fair_queue_choose h cat r s lb))"
  by (simp add: fair_queue_choose_def Let_def pick_observe_ok lb_observe_ok)

lemma priority_lanes_keeps: "lookback_ok lb \<Longrightarrow> lookback_ok (snd (priority_lanes_choose h ls lc cat r s lb))"
  by (simp add: priority_lanes_choose_def Let_def pick_observe_ok lb_observe_ok split: sum.splits)

lemma dr_pin_keeps: "drains_ok dr \<Longrightarrow> drains_ok (snd (dr_pin session region dr))"
  using dr_pin_ok [of dr session region]
  by (auto simp: drains_ok_def dr_pin_def Let_def count_up_def split: option.splits if_splits
      intro: positive_count_up [unfolded count_up_def])

lemma region_drain_keeps_all: "drains_ok dr \<Longrightarrow> drains_ok (snd (region_drain_choose h regions draining cat r s dr))"
  using dr_pin_keeps [of dr]
  by (auto simp: region_drain_choose_def Let_def split: option.splits sum.splits prod.splits) (metis snd_conv)+

lemma observe_primary_ok: "shadow_ok sp \<Longrightarrow> shadow_ok (sp_observe_primary p sp)"
  by (auto simp: shadow_ok_def sp_observe_primary_def)

lemma observe_shadow_ok: "shadow_ok sp \<Longrightarrow> shadow_ok (sp_observe_shadow p q sp)"
proof -
  assume ok: "shadow_ok sp"
  have pos: "0 \<le> get_count (sp_shadow_counts sp) q"
    using ok by (auto simp: shadow_ok_def get_count_def split: option.splits dest!: map_of_SomeD)
  have "set (AList.update q n xs) \<subseteq> insert (q, n) (set xs)" for n and xs :: "(string \<times> int) list"
    by (induction xs) auto
  from this [of "get_count (sp_shadow_counts sp) q + 1" "sp_shadow_counts sp"] pos ok show ?thesis
    by (auto simp: shadow_ok_def sp_observe_shadow_def distinct_update)
qed

lemma shadow_split_keeps: "shadow_ok sp \<Longrightarrow> shadow_ok (snd (shadow_split_choose h config cat r s sp))"
  by (auto simp: shadow_split_choose_def Let_def case_prod_beta observe_primary_ok observe_shadow_ok split: option.splits)

lemma repin_keeps: "pins_ok pe \<Longrightarrow> pins_ok (snd (repin now h ttl cat r s reason pe))"
  by (auto simp: pins_ok_def repin_def Let_def pe_pin_def split: option.splits if_splits)

lemma pin_expire_keeps: "pins_ok pe \<Longrightarrow> pins_ok (snd (pin_expire_choose now h ttl cat r s pe))"
proof -
  assume ok: "pins_ok pe"
  have "pins_ok (snd (pe_pinned_model now session pe))" for session
    using ok by (auto simp: pins_ok_def pe_pinned_model_def split: option.splits)
  then show ?thesis
    by (auto simp: pin_expire_choose_def Let_def case_prod_beta pe_clear_def intro!: repin_keeps split: option.splits)
       (auto simp: pins_ok_def)
qed

lemma circuit_probe_keeps: "positive_counts probes \<Longrightarrow> positive_counts (snd (circuit_probe_choose h ho n cat r s probes))"
  by (auto simp: circuit_probe_choose_def Let_def split: option.splits)

subsection \<open>The quota of a tenant\<close>

text \<open>The requests of a run of choices that were admitted, with their times, in order\<close>

fun admissions :: "int \<times> int \<Rightarrow> catalog \<Rightarrow> (rat \<times> router_request \<times> task_signals) list \<Rightarrow> quota_burst_stats \<Rightarrow>
    (rat \<times> string) list \<times> quota_burst_stats" where
  "admissions quotas cat [] qb = ([], qb)"
| "admissions quotas cat ((now, r, s) # calls) qb =
     (let (res, qb1) = quota_burst_choose now quotas cat r s qb;
          (later, qb2) = admissions quotas cat calls qb1
      in ((case res of Inr _ \<Rightarrow> [(now, tenant_scope r)] | Inl _ \<Rightarrow> []) @ later, qb2))"

text \<open>
  The specification: a request is admitted when fewer than \<open>hard\<close> requests of its tenant were admitted
  at most \<open>window\<close> seconds before it.
\<close>

definition recent :: "rat \<Rightarrow> rat \<Rightarrow> string \<Rightarrow> (rat \<times> string) list \<Rightarrow> rat list" where
  "recent window now tenant adm = map fst (filter (\<lambda>(t, u). u = tenant \<and> fsub now window \<le> t) adm)"

fun window_quota :: "rat \<Rightarrow> int \<Rightarrow> (rat \<times> string) list \<Rightarrow> (rat \<times> string) list \<Rightarrow> (rat \<times> string) list" where
  "window_quota window hard adm [] = []"
| "window_quota window hard adm ((now, tenant) # calls) =
     (if int (length (recent window now tenant adm)) < hard
      then (now, tenant) # window_quota window hard (adm @ [(now, tenant)]) calls
      else window_quota window hard adm calls)"

text \<open>The lists of the statistics are the recent admissions, but for some that are too old for any later request.\<close>

definition burst_view :: "(rat \<times> string) list \<Rightarrow> rat \<Rightarrow> quota_burst_stats \<Rightarrow> bool" where
  "burst_view adm since qb \<longleftrightarrow> (\<forall>u. \<exists>c \<le> fsub since (qb_window_seconds qb).
     get_list (qb_requests qb) u = filter ((\<le>) c) (map fst (filter (\<lambda>(t, v). v = u) adm)))"

lemma fsub_mono: "a \<le> b \<Longrightarrow> fsub a w \<le> fsub b w"
  by (simp add: fsub_def fl_mono)

lemma filter_tenant: "recent w now u adm = filter ((\<le>) (fsub now w)) (map fst (filter (\<lambda>(t, v). v = u) adm))"
  by (induction adm) (auto simp: recent_def)

lemma recent_until:
  "length (recent w now u (filter (\<lambda>(t, v). t \<le> now) adm)) = length (filter (\<lambda>(t, v). v = u \<and> fsub now w \<le> t \<and> t \<le> now) adm)"
  by (induction adm) (auto simp: recent_def)

lemma recent_later: "now \<le> now' \<Longrightarrow> length (recent w now' u adm) \<le> length (recent w now u adm)"
  using fsub_mono [of now now' w] by (induction adm) (auto simp: recent_def)

lemma trimmed:
  "get_list (qb_requests (snd (qb_trim u now qb))) v = (if v = u
     then filter ((\<le>) (fsub now (qb_window_seconds qb))) (get_list (qb_requests qb) u) else get_list (qb_requests qb) v)"
  "fst (qb_trim u now qb) = filter ((\<le>) (fsub now (qb_window_seconds qb))) (get_list (qb_requests qb) u)"
  "qb_window_seconds (snd (qb_trim u now qb)) = qb_window_seconds qb"
  by (simp_all add: qb_trim_def Let_def get_list_def)

lemma view_trimmed:
  assumes "burst_view adm since qb" "since \<le> now"
  shows "burst_view adm now (snd (qb_trim u now qb))"
    "get_list (qb_requests (snd (qb_trim u now qb))) u = recent (qb_window_seconds qb) now u adm"
proof -
  let ?w = "qb_window_seconds qb"
  have later: "fsub since ?w \<le> fsub now ?w" using assms(2) by (rule fsub_mono)
  obtain c where c: "\<And>v. c v \<le> fsub since ?w"
    "\<And>v. get_list (qb_requests qb) v = filter ((\<le>) (c v)) (map fst (filter (\<lambda>(t, u). u = v) adm))"
    using assms(1) unfolding burst_view_def by metis
  have "filter ((\<le>) (fsub now ?w)) (get_list (qb_requests qb) u) = recent ?w now u adm"
    using c(1) [of u] later unfolding c(2) filter_tenant filter_filter by (intro filter_cong) auto
  then show *: "get_list (qb_requests (snd (qb_trim u now qb))) u = recent ?w now u adm" by (simp add: trimmed)
  show "burst_view adm now (snd (qb_trim u now qb))"
    unfolding burst_view_def trimmed(3)
  proof
    fix v
    show "\<exists>c \<le> fsub now ?w. get_list (qb_requests (snd (qb_trim u now qb))) v = filter ((\<le>) c) (map fst (filter (\<lambda>(t, u). u = v) adm))"
    proof (cases "v = u")
      case True
      then show ?thesis using * by (auto simp: filter_tenant)
    next
      case False
      then show ?thesis using c(1) [of v] later c(2) [of v] by (intro exI [of _ "c v"]) (simp add: trimmed)
    qed
  qed
qed

lemma burst_view_usage:
  assumes "burst_view adm since qb" "since \<le> now"
  shows "fst (qb_usage now u qb) = int (length (recent (qb_window_seconds qb) now u adm))"
    "burst_view adm now (snd (qb_usage now u qb))" "qb_window_seconds (snd (qb_usage now u qb)) = qb_window_seconds qb"
  using view_trimmed [OF assms, of u] trimmed [of u now qb] by (simp_all add: qb_usage_def case_prod_beta)

lemma burst_view_record:
  assumes "burst_view adm now qb"
  shows "burst_view (adm @ [(now, u)]) now (qb_record now u qb)" "qb_window_seconds (qb_record now u qb) = qb_window_seconds qb"
proof -
  let ?qb = "qb\<lparr> qb_requests := (qb_requests qb)(u \<mapsto> get_list (qb_requests qb) u @ [now]) \<rparr>" and ?w = "qb_window_seconds qb"
  obtain c where c: "\<And>v. c v \<le> fsub now ?w"
    "\<And>v. get_list (qb_requests qb) v = filter ((\<le>) (c v)) (map fst (filter (\<lambda>(t, u). u = v) adm))"
    using assms unfolding burst_view_def by metis
  have old: "filter ((\<le>) (fsub now ?w)) (get_list (qb_requests qb) u) = recent ?w now u adm"
    using c(1) [of u] unfolding c(2) filter_tenant filter_filter by (intro filter_cong) auto
  show "burst_view (adm @ [(now, u)]) now (qb_record now u qb)"
    unfolding burst_view_def qb_record_def trimmed(3)
  proof
    fix v
    show "\<exists>c \<le> fsub now (qb_window_seconds ?qb). get_list (qb_requests (snd (qb_trim u now ?qb))) v =
        filter ((\<le>) c) (map fst (filter (\<lambda>(t, u). u = v) (adm @ [(now, u)])))"
    proof (cases "v = u")
      case True
      have "get_list (qb_requests (snd (qb_trim u now ?qb))) u = recent ?w now u (adm @ [(now, u)])"
        using old by (simp add: trimmed recent_def)
      then show ?thesis using True by (auto simp: filter_tenant)
    next
      case False
      then show ?thesis using c(1) [of v] c(2) [of v] by (intro exI [of _ "c v"]) (simp add: trimmed)
    qed
  qed
  show "qb_window_seconds (qb_record now u qb) = ?w" by (simp add: qb_record_def trimmed(3))
qed

lemma admissions_window:
  assumes "wf_catalog cat" "burst_view adm since qb" "qb_window_seconds qb = w" "sorted (since # map fst calls)"
  shows "fst (admissions (soft, hard) cat calls qb) = window_quota w hard adm (map (\<lambda>(now, r, s). (now, tenant_scope r)) calls)"
  using assms(2-)
proof (induction calls arbitrary: adm since qb)
  case (Cons call calls)
  obtain now r s where call: "call = (now, r, s)" by (metis prod_cases3)
  let ?u = "tenant_scope r"
  have step: "since \<le> now" "sorted (now # map fst calls)" using Cons.prems(3) by (auto simp: call)
  note usage = burst_view_usage [OF Cons.prems(1) step(1), of ?u, unfolded Cons.prems(2)]
  show ?case
  proof (cases "hard \<le> fst (qb_usage now ?u qb)")
    case True
    then show ?thesis
      using Cons.IH [OF usage(2,3) step(2)] usage(1)
      by (simp add: call quota_burst_refuses [OF True] case_prod_beta)
  next
    case False
    note adm = quota_burst_admits [OF assms(1) False, of soft s]
    note rec = burst_view_record [OF usage(2), of ?u, unfolded usage(3)]
    from adm(1) obtain d where "fst (quota_burst_choose now (soft, hard) cat r s qb) = Inr d" by (auto simp: proper_result_def)
    then show ?thesis
      using Cons.IH [OF rec step(2)] usage(1) False adm(2) by (simp add: call case_prod_beta)
  qed
qed simp

lemma window_quota_bound:
  assumes "sorted (since # map fst calls)" "\<forall>(t, u) \<in> set adm. t \<le> since" "\<And>now. int (length (recent w now tenant (filter (\<lambda>(t, u). t \<le> now) adm))) \<le> hard"
    "0 \<le> hard"
  shows "int (length (recent w now tenant (filter (\<lambda>(t, u). t \<le> now) (adm @ window_quota w hard adm calls)))) \<le> hard"
  using assms(1-3)
proof (induction calls arbitrary: adm since)
  case (Cons call calls)
  obtain t u where call: "call = (t, u)" by (cases call)
  have step: "since \<le> t" "sorted (t # map fst calls)" using Cons.prems(1) by (auto simp: call)
  have old: "\<forall>(a, v) \<in> set adm. a \<le> t" using Cons.prems(2) step(1) by fastforce
  show ?case
  proof (cases "int (length (recent w t u adm)) < hard")
    case True
    have "int (length (recent w now tenant (filter (\<lambda>(a, v). a \<le> now) (adm @ [(t, u)])))) \<le> hard" for now
    proof (cases "u = tenant \<and> t \<le> now")
      case True
      have "filter (\<lambda>(a, v). a \<le> now) adm = adm" using old True by (auto simp: filter_id_conv)
      moreover have "length (recent w now tenant adm) \<le> length (recent w t tenant adm)"
        using True by (intro recent_later) simp
      ultimately show ?thesis using True \<open>int (length (recent w t u adm)) < hard\<close> by (simp add: recent_def)
    qed (use Cons.prems(3) [of now] in \<open>auto simp: recent_def\<close>)
    from Cons.IH [OF step(2) _ this] old True show ?thesis by (simp add: call)
  next
    case False
    then show ?thesis using Cons.IH [OF step(2) old Cons.prems(3)] by (simp add: call)
  qed
qed simp

text \<open>
  C37. Over any run of choices at increasing times, \<open>tenant-quota-burst\<close> admits exactly the requests the
  specification admits, whatever the tenants do in between: no tenant ever has more than its hard quota
  within a window, and a tenant below it is always admitted.
\<close>

theorem burst_quota_holds:
  assumes "wf_catalog cat" "make_quota_burst soft hard = Inr quotas" "make_quota_burst_stats window = Inr qb" "sorted (map fst calls)"
  shows "fst (admissions quotas cat calls qb) = window_quota window hard [] (map (\<lambda>(now, r, s). (now, tenant_scope r)) calls) \<and>
    int (length (filter (\<lambda>(t, u). u = tenant \<and> fsub now window \<le> t \<and> t \<le> now) (fst (admissions quotas cat calls qb)))) \<le> hard"
proof -
  let ?calls = "map (\<lambda>(now, r, s). (now, tenant_scope r)) calls" and ?t = "hd (map fst calls @ [0])"
  have q: "quotas = (soft, hard)" "0 \<le> hard" using assms(2) by (auto simp: make_quota_burst_def split: if_splits)
  have qb: "qb_window_seconds qb = window" "burst_view [] ?t qb"
    using assms(3) by (auto simp: make_quota_burst_stats_def burst_view_def split: if_splits)
  have times: "map fst ?calls = map fst calls" by (simp add: case_prod_beta)
  have s: "sorted (?t # map fst calls)" using assms(4) by (cases calls) auto
  have eq: "fst (admissions quotas cat calls qb) = window_quota window hard [] ?calls"
    unfolding q(1) by (rule admissions_window [OF assms(1) qb(2,1) s])
  moreover have "int (length (recent window now tenant (filter (\<lambda>(t, u). t \<le> now) (window_quota window hard [] ?calls)))) \<le> hard"
    using window_quota_bound [OF s [folded times], of "[]" window tenant hard now] q(2) by (simp add: recent_def)
  ultimately show ?thesis unfolding recent_until by simp
qed

theorem burst_quota_holds_witness:
  "int (length (filter (\<lambda>(t, u). u = tenant_scope demo_request \<and> fsub 2 60 \<le> t \<and> t \<le> 2)
     (fst (admissions (1, 2) default_model_catalog [(0, demo_request, demo_signals), (1, demo_request, demo_signals),
       (2, demo_request, demo_signals)] \<lparr> qb_window_seconds = 60, qb_requests = Map.empty \<rparr>)))) \<le> 2"
  by (rule conjunct2 [OF burst_quota_holds [OF default_catalog_wf, where soft = 1]])
     (simp_all add: make_quota_burst_def make_quota_burst_stats_def)

subsection \<open>Expiring pins\<close>

text \<open>A run of choices of one \<open>sticky-model-pin-expire\<close>, each at its instant with its view of the providers\<close>

fun pin_run :: "rat \<Rightarrow> catalog \<Rightarrow> (rat \<times> (string \<Rightarrow> bool) \<times> router_request \<times> task_signals) list \<Rightarrow> pin_stats \<Rightarrow>
    routing_decision result list \<times> pin_stats" where
  "pin_run ttl cat [] pe = ([], pe)"
| "pin_run ttl cat ((now, healthy, r, s) # calls) pe =
     (let (res, pe1) = pin_expire_choose now healthy ttl cat r s pe;
          (later, pe2) = pin_run ttl cat calls pe1
      in (res # later, pe2))"

lemma other_pins:
  assumes "rq_session_id r \<noteq> session"
  shows "pe_pins (snd (pin_expire_choose now h ttl cat r s pe)) session = pe_pins pe session"
proof -
  have again: "pe_pins (snd (repin now h ttl cat r s reason p)) session = pe_pins p session" for reason p
    using assms by (simp add: repin_def Let_def pe_pin_def split: option.splits)
  have "pe_pins (snd (pe_pinned_model now (rq_session_id r) pe)) session = pe_pins pe session"
    using assms by (simp add: pe_pinned_model_def split: option.splits)
  then show ?thesis
    using assms by (simp add: pin_expire_choose_def Let_def case_prod_beta again pe_clear_def split: option.splits)
qed

lemma kept_pin:
  assumes pin: "pe_pins pe (rq_session_id r) = Some \<lparr> pn_model = m, pn_expires_at = e \<rparr>" "now < e"
    and c: "map_of cat m = Some c" "mc_model c = m" "c \<in> set (eligible cat s)" "h (mc_provider c)"
  shows "\<exists>d. pin_expire_choose now h ttl cat r s pe = (Inr d, pe) \<and> rd_chosen_model d = m"
proof -
  have "pe_pinned_model now (rq_session_id r) pe = (Some m, pe)" using pin by (simp add: pe_pinned_model_def)
  moreover have "m \<in> mc_model ` set (eligible cat s)" using c(2,3) by blast
  ultimately show ?thesis using c by (simp add: pin_expire_choose_def Let_def decide_def)
qed

text \<open>
  C38. A pinned session stays on its model until the pin expires, as long as every request of the session
  finds the model eligible and its provider available, whatever other sessions do and whatever the
  health of other providers is. A request of a session without a live pin is decided anew, and the
  session is then pinned to the chosen model for exactly the time to live.
\<close>

theorem pins_hold_until_they_expire:
  assumes wf: "wf_catalog cat" and ttl: "make_pin_expire ttl_seconds = Inr ttl"
    and pin: "pe_pins pe session = Some \<lparr> pn_model = m, pn_expires_at = e \<rparr>" and c: "map_of cat m = Some c"
    and calls: "\<forall>(now, h, r, s) \<in> set calls. rq_session_id r = session \<longrightarrow>
      now < e \<and> c \<in> set (eligible cat s) \<and> h (mc_provider c)"
  shows "(\<forall>((now, h, r, s), res) \<in> set (zip calls (fst (pin_run ttl cat calls pe))).
      rq_session_id r = session \<longrightarrow> (\<exists>d. res = Inr d \<and> rd_chosen_model d = m)) \<and>
    pe_pins (snd (pin_run ttl cat calls pe)) session = Some \<lparr> pn_model = m, pn_expires_at = e \<rparr> \<and>
    (\<forall>now h r s. rq_session_id r = session \<longrightarrow> e \<le> now \<longrightarrow>
      (\<exists>d pe'. pin_expire_choose now h ttl cat r s (snd (pin_run ttl cat calls pe)) = (Inr d, pe') \<and>
        pe_pins pe' session = Some \<lparr> pn_model = rd_chosen_model d, pn_expires_at = fadd now ttl \<rparr>))"
proof -
  have m: "mc_model c = m" using wf c by (auto simp: wf_catalog_def dest: map_of_SomeD)
  have run: "(\<forall>((now, h, r, s), res) \<in> set (zip calls (fst (pin_run ttl cat calls pe))).
      rq_session_id r = session \<longrightarrow> (\<exists>d. res = Inr d \<and> rd_chosen_model d = m)) \<and>
    pe_pins (snd (pin_run ttl cat calls pe)) session = Some \<lparr> pn_model = m, pn_expires_at = e \<rparr>"
    using pin calls
  proof (induction calls arbitrary: pe)
    case (Cons call calls)
    obtain now h r s where call: "call = (now, h, r, s)" by (metis prod_cases4)
    show ?case
    proof (cases "rq_session_id r = session")
      case True
      then obtain d where "pin_expire_choose now h ttl cat r s pe = (Inr d, pe)" "rd_chosen_model d = m"
        using kept_pin [of pe r m e now cat c s h ttl] Cons.prems c m call by fastforce
      with Cons show ?thesis by (simp add: call case_prod_beta)
    next
      case False
      from other_pins [OF this, of now h ttl cat s pe] Cons.prems Cons.IH [of "snd (pin_expire_choose now h ttl cat r s pe)"] False
      show ?thesis by (simp add: call case_prod_beta)
    qed
  qed simp
  let ?pe = "snd (pin_run ttl cat calls pe)"
  have "\<exists>d pe'. pin_expire_choose now h ttl cat r s ?pe = (Inr d, pe') \<and>
      pe_pins pe' session = Some \<lparr> pn_model = rd_chosen_model d, pn_expires_at = fadd now ttl \<rparr>"
    if same: "rq_session_id r = session" and expired: "e \<le> now" for now h r s
  proof -
    obtain pe1 where "pe_pinned_model now session ?pe = (None, pe1)" using run expired by (simp add: pe_pinned_model_def)
    moreover obtain b where "max_by (quality_model_key r s) (prefer_active h cat s) = Some b"
      using max_by_Some [OF active_pool(1) [OF wf, of h s]] by blast
    ultimately show ?thesis
      using ttl same by (auto simp: pin_expire_choose_def Let_def repin_def pe_pin_def make_pin_expire_def decide_def split: if_splits)
  qed
  with run show ?thesis by blast
qed

theorem pins_hold_until_they_expire_witness:
  "pe_pins (snd (pin_run 300 default_model_catalog [(5, \<lambda>_. True, demo_request, demo_signals)]
     \<lparr> pe_pins = [rq_session_id demo_request \<mapsto> \<lparr> pn_model = OPENAI_FRONTIER_MODEL, pn_expires_at = 10 \<rparr>],
       pe_expiration_counts = Map.empty \<rparr>)) (rq_session_id demo_request) =
     Some \<lparr> pn_model = OPENAI_FRONTIER_MODEL, pn_expires_at = 10 \<rparr>"
proof -
  obtain c where "map_of default_model_catalog OPENAI_FRONTIER_MODEL = Some c" "c \<in> set (eligible default_model_catalog demo_signals)"
    by (simp add: default_model_catalog_def eligible_def supporting_domain_def catalog_values_def or_else_def demo_signals_def)
  then show ?thesis
    by (intro conjunct1 [OF conjunct2 [OF pins_hold_until_they_expire [OF default_catalog_wf, where ttl_seconds = 300 and ttl = 300]]])
       (auto simp: make_pin_expire_def)
qed

end
