(* ===== verification/Engine_Laws.thy ===== *)
theory Engine_Laws
  imports Engine Strategies
begin

text \<open>
  What \<open>complete\<close> promises. The other tasks that run while an adapter call is awaited, the strategies
  and the adapters are arbitrary: every statement says which view of the shared state they must
  leave as it is.
\<close>

subsection \<open>What each part of an attempt leaves alone\<close>

lemma guard_keeps [simp]:
  "en_catalog (snd (attempt_guard now cx c en)) = en_catalog en"
  "en_registered (snd (attempt_guard now cx c en)) = en_registered en"
  "en_inflight (snd (attempt_guard now cx c en)) = en_inflight en"
  "en_ledger (snd (attempt_guard now cx c en)) = en_ledger en"
  "en_audit (snd (attempt_guard now cx c en)) = en_audit en"
  "en_budget (snd (attempt_guard now cx c en)) = en_budget en"
  by (simp_all add: attempt_guard_def Let_def split: sum.splits prod.splits)

lemma begin_keeps [simp]:
  "en_catalog (begin_attempt k p en) = en_catalog en" "en_registered (begin_attempt k p en) = en_registered en"
  "en_ledger (begin_attempt k p en) = en_ledger en" "en_audit (begin_attempt k p en) = en_audit en"
  "en_budget (begin_attempt k p en) = en_budget en" "en_breakers (begin_attempt k p en) = en_breakers en"
  by (simp_all add: begin_attempt_def)

lemma finish_keeps [simp]:
  "en_catalog (finish_attempt k p en) = en_catalog en" "en_registered (finish_attempt k p en) = en_registered en"
  "en_ledger (finish_attempt k p en) = en_ledger en" "en_audit (finish_attempt k p en) = en_audit en"
  "en_budget (finish_attempt k p en) = en_budget en" "en_breakers (finish_attempt k p en) = en_breakers en"
  by (simp_all add: finish_attempt_def)

lemma failure_keeps [simp]:
  "en_catalog (snd (record_attempt_failure d now t r p x en)) = en_catalog en"
  "en_registered (snd (record_attempt_failure d now t r p x en)) = en_registered en"
  "en_inflight (snd (record_attempt_failure d now t r p x en)) = en_inflight en"
  "en_ledger (snd (record_attempt_failure d now t r p x en)) = en_ledger en"
  "en_audit (snd (record_attempt_failure d now t r p x en)) = en_audit en"
  "en_budget (snd (record_attempt_failure d now t r p x en)) = en_budget en"
  by (simp_all add: record_attempt_failure_def Let_def split: sum.splits prod.splits)

lemma handle_keeps [simp]:
  "snd (snd (handle_failure d now t cx p x l sm en)) = snd (record_attempt_failure d now t (cx_request cx) p x en)"
  by (simp add: handle_failure_def split: sum.splits prod.splits)

lemma statistics_keeps [simp]:
  "en_catalog (respond_statistics now p en) = en_catalog en"
  "en_registered (respond_statistics now p en) = en_registered en"
  "en_inflight (respond_statistics now p en) = en_inflight en"
  "en_ledger (respond_statistics now p en) = en_ledger en"
  "en_audit (respond_statistics now p en) = en_audit en"
  by (simp_all add: respond_statistics_def)

lemma latency_keeps [simp]:
  "en_catalog (snd (respond_latency d now l t p en)) = en_catalog en"
  "en_registered (snd (respond_latency d now l t p en)) = en_registered en"
  "en_inflight (snd (respond_latency d now l t p en)) = en_inflight en"
  "en_ledger (snd (respond_latency d now l t p en)) = en_ledger en"
  "en_audit (snd (respond_latency d now l t p en)) = en_audit en"
  by (simp_all add: respond_latency_def split: sum.splits prod.splits)

lemma spend_keeps [simp]:
  "en_catalog (snd (respond_spend env r p pr en)) = en_catalog en"
  "en_registered (snd (respond_spend env r p pr en)) = en_registered en"
  "en_inflight (snd (respond_spend env r p pr en)) = en_inflight en"
  "en_audit (snd (respond_spend env r p pr en)) = en_audit en"
  by (simp_all add: respond_spend_def Let_def split: option.splits)

lemma windows_keeps [simp]:
  "en_catalog (snd (respond_windows now r s p pr en)) = en_catalog en"
  "en_registered (snd (respond_windows now r s p pr en)) = en_registered en"
  "en_inflight (snd (respond_windows now r s p pr en)) = en_inflight en"
  "en_ledger (snd (respond_windows now r s p pr en)) = en_ledger en"
  "en_audit (snd (respond_windows now r s p pr en)) = en_audit en"
  by (simp_all add: respond_windows_def Let_def split: sum.splits prod.splits)

text \<open>A view of the engine that no part of \<open>_respond\<close> changes, the audit row aside, is not changed by it.\<close>

lemma respond_view:
  assumes "\<And>e. f (respond_statistics now p e) = f e"
    and "\<And>l e. f (snd (respond_latency d now l t p e)) = f e"
    and "\<And>e. f (snd (respond_spend env (cx_request cx) p pr e)) = f e"
    and "\<And>e. f (snd (respond_windows now (cx_request cx) (cx_signals cx) p pr e)) = f e"
    and "\<And>e a. f (e\<lparr> en_audit := a \<rparr>) = f e"
  shows "f (snd (snd (respond d env cx now t p ra pr sm en))) = f en"
proof -
  let ?l = "fmul (fsub now (cx_started_at cx)) 1000" and ?en1 = "respond_statistics now p en"
  obtain x2 en2 where r2: "respond_latency d now ?l t p ?en1 = (x2, en2)" by fastforce
  obtain x3 en3 where r3: "respond_spend env (cx_request cx) p pr en2 = (x3, en3)" by fastforce
  obtain x4 en4 where r4: "respond_windows now (cx_request cx) (cx_signals cx) p pr en3 = (x4, en4)" by fastforce
  have "f ?en1 = f en" "f en2 = f en" "f en3 = f en" "f en4 = f en"
    using assms(1) assms(2) [of ?l ?en1] assms(3) [of en2] assms(4) [of en3] by (simp_all add: r2 r3 r4)
  then show ?thesis
    by (cases "transition sm RESPONDED"; cases x2; cases x3; cases x4; cases "at_audit_error env")
       (simp_all add: respond_def Let_def r2 r3 r4 assms(5) del: transition_Inr)
qed

lemma respond_keeps [simp]:
  "en_catalog (snd (snd (respond d env cx now t p ra pr sm en))) = en_catalog en"
  "en_registered (snd (snd (respond d env cx now t p ra pr sm en))) = en_registered en"
  "en_inflight (snd (snd (respond d env cx now t p ra pr sm en))) = en_inflight en"
  by (rule respond_view; simp)+

subsection \<open>Views that a request leaves as it found them\<close>

text \<open>The strategies and the tasks that run during an adapter call leave the view as it is.\<close>

definition others_keep :: "(engine \<Rightarrow> 'x) \<Rightarrow> (nat \<Rightarrow> attempt_env) \<Rightarrow> bool" where
  "others_keep f envs \<longleftrightarrow> (\<forall>i en. f (at_others (envs i) en) = f en)"

definition strategies_keep :: "(engine \<Rightarrow> 'x) \<Rightarrow> deps \<Rightarrow> bool" where
  "strategies_keep f d \<longleftrightarrow> (\<forall>name ch now r s en. dp_strategies d name = Some ch \<longrightarrow> f (snd (ch now r s en)) = f en)"

text \<open>Views that the decision part of a request does not touch.\<close>

locale routing_view =
  fixes view :: "engine \<Rightarrow> 'x"
  assumes limiter: "view (en\<lparr> en_rate_limiter := rl \<rparr>) = view en"
    and ordering: "view (en\<lparr> en_scoreboard := sb \<rparr>) = view en"
begin

lemma order_view: "view (snd (order_attempts d now m ms en)) = view en"
  by (simp add: order_attempts_def Let_def ordering split: sum.splits prod.splits)

lemma start_view:
  assumes "strategies_keep view d"
  shows "view (snd (snd (start_request d now r en))) = view en"
proof -
  have "view (snd (ch now r s (en\<lparr> en_rate_limiter := rl \<rparr>))) = view en"
    if "dp_strategies d name = Some ch" for name ch s rl
    using assms that limiter by (auto simp: strategies_keep_def)
  then show ?thesis using order_view
    by (auto simp: start_request_def Let_def limiter split: sum.splits prod.splits option.splits) (metis snd_conv)+
qed

end

text \<open>
  A view that only the in-flight counters around an adapter call may change, and that these restore
  from every sane value of the view.
\<close>

locale engine_view = routing_view view for view :: "engine \<Rightarrow> 'x" +
  fixes sane :: "'x \<Rightarrow> bool"
  assumes guard: "view (snd (attempt_guard now cx c en)) = view en"
    and failure: "view (snd (record_attempt_failure d now t r p x en)) = view en"
    and response: "view (snd (snd (respond d (env :: attempt_env) cx now t p ra pr sm en))) = view en"
    and bracket: "sane (view en) \<Longrightarrow> view en' = view (begin_attempt k p en) \<Longrightarrow>
      view (finish_attempt k p en') = view en"
begin

lemma dispatch_view:
  assumes "others_keep view envs" "sane (view en)"
  shows "view (snd (snd (snd (dispatch d (envs j) cx now c m i sm en)))) = view en"
proof -
  define k where "k = tenant_inflight_key (cx_request cx)"
  have "view (finish_attempt k (mc_provider c) (at_others (envs j) (begin_attempt k (mc_provider c) en))) = view en"
    using assms by (intro bracket) (auto simp: others_keep_def)
  then show ?thesis
    using response [of d "envs j" cx]
    by (auto simp: dispatch_def Let_def k_def split: sum.splits outcome.splits prod.splits) (metis snd_conv)
qed

lemma handle_view: "view (snd (snd (handle_failure d now t cx p x l sm en))) = view en"
  by (simp add: failure)

lemma loop_view:
  assumes "others_keep view envs" "sane (view en)"
  shows "view (snd (snd (attempt_loop d envs cx i now ms sm en))) = view en"
  using assms(2)
proof (induction ms arbitrary: i now sm en)
  case (Cons m ms)
  show ?case
  proof (cases "catalog_get (en_catalog en) m")
    case (Inr c)
    obtain g en1 where g: "attempt_guard now cx c en = (g, en1)" by fastforce
    have v1: "view en1 = view en" using guard [of now cx c en] g by simp
    obtain res sm1 t en2 where dsp: "dispatch d (envs i) cx now c m i sm en1 = (res, sm1, t, en2)"
      by (metis prod_cases4)
    have v2: "view en2 = view en"
      using dispatch_view [OF assms(1), of en1 d i cx now c m i sm] Cons.prems by (simp add: dsp v1)
    have "view (snd (snd (case handle_failure d t now cx (mc_provider c) x (ms = []) sm1 en2 of
        (Inl e, sm2, en3) \<Rightarrow> (Error e, sm2, en3)
      | (Inr _, sm2, en3) \<Rightarrow> attempt_loop d envs cx (Suc i) t ms sm2 en3))) = view en" for x
    proof -
      obtain h sm2 en3 where h: "handle_failure d t now cx (mc_provider c) x (ms = []) sm1 en2 = (h, sm2, en3)"
        by (metis prod_cases3)
      then have "view en3 = view en2" using handle_view by (metis snd_conv)
      then show ?thesis using Cons v2 by (cases h) (simp_all add: h)
    qed
    then show ?thesis using Cons v1 v2
      by (auto simp: Inr g dsp split: sum.splits option.splits)
  qed simp
qed simp

lemma complete_view:
  assumes "others_keep view envs" "strategies_keep view d" "sane (view en)"
  shows "view (snd (snd (complete d envs now r en))) = view en"
  using start_view [OF assms(2), of now r en] loop_view [OF assms(1)] assms(3)
  by (auto simp: complete_def split: sum.splits prod.splits)

end

interpretation catalog_view: engine_view en_catalog "\<lambda>_. True"
  by unfold_locales simp_all

interpretation registry_view: engine_view en_registered "\<lambda>_. True"
  by unfold_locales simp_all

interpretation load_view: engine_view "\<lambda>en. load_score (en_inflight en)" "\<lambda>load. \<forall>q. 0 \<le> load q"
proof
  show "load_score (en_inflight (finish_attempt k p en')) = load_score (en_inflight en)"
    if "\<forall>q. 0 \<le> load_score (en_inflight en) q"
      "load_score (en_inflight en') = load_score (en_inflight (begin_attempt k p en))" for en en' k p
  proof
    fix q
    have "load_score (en_inflight en') q' = load_score (en_inflight (begin_attempt k p en)) q'" for q'
      using that(2) by simp
    then show "load_score (en_inflight (finish_attempt k p en')) q = load_score (en_inflight en) q"
      using that(1) [rule_format, of q]
      by (auto simp: finish_attempt_def begin_attempt_def finish_for_tenant_def begin_for_tenant_def)
  qed
qed simp_all

subsection \<open>A run without storage errors\<close>

definition wf_response :: "provider_response \<Rightarrow> bool" where
  "wf_response pr \<longleftrightarrow> 0 \<le> pr_cost_usd pr \<and> 0 \<le> pr_input_tokens pr \<and> 0 \<le> pr_output_tokens pr"

text \<open>
  The ledger and audit writes succeed, the clock does not go back, and what an adapter returns is a
  valid response.
\<close>

definition clean_io :: "'a io_env_scheme \<Rightarrow> bool" where
  "clean_io env \<longleftrightarrow> at_ledger_error env = None \<and> at_audit_error env = None"

definition clean_run :: "(nat \<Rightarrow> attempt_env) \<Rightarrow> rat \<Rightarrow> bool" where
  "clean_run envs now \<longleftrightarrow> (\<forall>i. clean_io (envs i) \<and> now \<le> at_resumed (envs i) \<and>
     at_resumed (envs i) \<le> at_resumed (envs (Suc i)) \<and>
     (\<forall>m msgs k pr. at_outcome (envs i) m msgs k = Responded pr \<longrightarrow> wf_response pr))"

text \<open>The answer carries the provider's response under the request's id.\<close>

definition answers :: "request_context \<Rightarrow> provider_response \<Rightarrow> fstring \<Rightarrow> router_response \<Rightarrow> bool" where
  "answers cx pr ra rr \<longleftrightarrow> rr_content rr = pr_content pr \<and> rr_model_used rr = pr_model pr \<and>
     rr_routing_strategy rr = cx_strategy_name cx \<and> rr_input_tokens rr = pr_input_tokens pr \<and>
     rr_output_tokens rr = pr_output_tokens pr \<and> rr_cost_usd rr = pr_cost_usd pr \<and> rr_rationale rr = ra \<and>
     rr_request_id rr = rq_request_id (cx_request cx) \<and> rr_finish_reason rr = pr_finish_reason pr"

definition booked :: "string \<Rightarrow> router_request \<Rightarrow> router_response \<Rightarrow> spend_record \<Rightarrow> bool" where
  "booked p r rr row \<longleftrightarrow> sr_request_id row = rr_request_id rr \<and> sr_provider row = p \<and>
     sr_tenant row = (if rq_user_id r = [] then ''anonymous'' else rq_user_id r) \<and>
     sr_model row = rr_model_used rr \<and> sr_cost_usd row = rr_cost_usd rr \<and>
     sr_input_tokens row = rr_input_tokens rr \<and> sr_output_tokens row = rr_output_tokens rr"

definition audited :: "string \<Rightarrow> router_response \<Rightarrow> audit_record \<Rightarrow> bool" where
  "audited p rr row \<longleftrightarrow> ar_request_id row = rr_request_id rr \<and> ar_provider row = p \<and>
     ar_chosen_model row = rr_model_used rr \<and> ar_routing_strategy row = rr_routing_strategy rr \<and>
     ar_rationale row = rr_rationale rr \<and> ar_latency_ms row = rr_latency_ms rr \<and>
     ar_token_cost row = rr_cost_usd rr \<and> ar_input_tokens row = rr_input_tokens rr \<and>
     ar_output_tokens row = rr_output_tokens rr \<and> ar_state row = ''RESPONDED''"

lemma elapsed_nonneg: "t \<le> now \<Longrightarrow> 0 \<le> fmul (fsub now t) 1000"
  by (simp add: fmul_nonneg fsub_def dbl.nonneg)

lemma record_outcome_accepted:
  "p \<noteq> [] \<Longrightarrow> 0 \<le> l \<Longrightarrow> \<exists>sb'. record_outcome hp now p s l sb = (Inr (), sb')"
  by (simp add: record_outcome_def Let_def)

lemma respond_latency_ok:
  "p \<noteq> [] \<Longrightarrow> t \<le> now \<Longrightarrow> fst (respond_latency d now l t p en) = Inr ()"
  using record_outcome_accepted [OF _ elapsed_nonneg [of t now], of p "dp_half_pow d" now True "en_scoreboard en"]
  by (auto simp: respond_latency_def)

lemma respond_windows_ok:
  "0 \<le> pr_cost_usd pr \<Longrightarrow> 0 \<le> ts_prompt_tokens_estimate s \<Longrightarrow> fst (respond_windows now r s p pr en) = Inr ()"
  by (simp add: respond_windows_def tc_record_spend_def rpm_record_def Let_def)

lemma respond_clean:
  assumes "lifecycle_step sm RESPONDED" "p \<noteq> []" "t \<le> now" "cx_started_at cx \<le> now" "wf_response pr"
    "0 \<le> ts_prompt_tokens_estimate (cx_signals cx)" "clean_io env"
  obtains rr en' row au where "respond d env cx now t p ra pr sm en = (Inr rr, RESPONDED, en')"
    "answers cx pr ra rr" "en_ledger en' = en_ledger en @ [row]" "booked p (cx_request cx) rr row"
    "en_audit en' = en_audit en @ [au]" "audited p rr au"
proof -
  let ?l = "fmul (fsub now (cx_started_at cx)) 1000" and ?en1 = "respond_statistics now p en"
    and ?r = "cx_request cx"
  obtain en2 where r2: "respond_latency d now ?l t p ?en1 = (Inr (), en2)"
    using respond_latency_ok [OF assms(2,3)] by (metis (full_types) prod.collapse)
  obtain en3 where r3: "respond_spend env ?r p pr en2 = (None, en3)"
    and led: "en_ledger en3 = ledger_record (at_wall_clock env) (rq_request_id ?r) (rq_user_id ?r) p
      (pr_model pr) (pr_cost_usd pr) (pr_input_tokens pr) (pr_output_tokens pr) (en_ledger en2)"
    using assms(7) by (simp add: respond_spend_def clean_io_def Let_def)
  obtain en4 where r4: "respond_windows now ?r (cx_signals cx) p pr en3 = (Inr (), en4)"
    using respond_windows_ok [of pr "cx_signals cx"] assms(5,6) by (metis (full_types) prod.collapse wf_response_def)
  have keep: "en_ledger en2 = en_ledger en" "en_audit en2 = en_audit en" "en_audit en3 = en_audit en2"
    "en_ledger en4 = en_ledger en3" "en_audit en4 = en_audit en3"
    using latency_keeps [of d now ?l t p ?en1] spend_keeps [of env ?r p pr en2]
      windows_keeps [of now ?r "cx_signals cx" p pr en3] by (simp_all add: r2 r3 r4)
  define rr where "rr = \<lparr> rr_content = pr_content pr, rr_model_used = pr_model pr,
      rr_routing_strategy = cx_strategy_name cx, rr_latency_ms = ?l, rr_input_tokens = pr_input_tokens pr,
      rr_output_tokens = pr_output_tokens pr, rr_cost_usd = pr_cost_usd pr, rr_rationale = ra,
      rr_request_id = rq_request_id ?r, rr_finish_reason = pr_finish_reason pr \<rparr>"
  define au where "au = \<lparr> ar_request_id = rq_request_id ?r, ar_chosen_model = pr_model pr, ar_provider = p,
      ar_routing_strategy = cx_strategy_name cx, ar_rationale = ra, ar_latency_ms = ?l,
      ar_token_cost = pr_cost_usd pr, ar_input_tokens = pr_input_tokens pr,
      ar_output_tokens = pr_output_tokens pr, ar_state = state_value RESPONDED \<rparr>"
  have tr: "transition sm RESPONDED = Inr RESPONDED" using assms(1) by simp
  have neg: "(?l < 0 \<or> pr_input_tokens pr < 0 \<or> pr_output_tokens pr < 0 \<or> pr_cost_usd pr < 0) = False"
    using assms(5) elapsed_nonneg [OF assms(4)] by (simp add: wf_response_def not_less)
  have "respond d env cx now t p ra pr sm en =
      (Inr rr, RESPONDED, en4\<lparr> en_audit := audit_append au (en_audit en4) \<rparr>)"
    unfolding respond_def Let_def tr sum.case r2 prod.case r3 option.case r4 neg if_False rr_def au_def
    using assms(7) by (simp only: clean_io_def option.case)
  then show thesis
  proof (rule that)
    show "answers cx pr ra rr" by (simp add: answers_def rr_def)
    show "en_ledger (en4\<lparr> en_audit := audit_append au (en_audit en4) \<rparr>) = en_ledger en @
      [last (en_ledger en3)]" using keep by (simp add: led ledger_record_def)
    show "booked p ?r rr (last (en_ledger en3))" by (simp add: booked_def led ledger_record_def rr_def)
    show "en_audit (en4\<lparr> en_audit := audit_append au (en_audit en4) \<rparr>) = en_audit en @ [au]"
      using keep by (simp add: audit_append_def)
    show "audited p rr au" by (simp add: audited_def au_def rr_def)
  qed
qed

lemma record_failure_ok:
  "p \<noteq> [] \<Longrightarrow> t \<le> now \<Longrightarrow> fst (record_attempt_failure d now t r p x en) = Inr ()"
  using record_outcome_accepted [OF _ elapsed_nonneg [of t now], of p "dp_half_pow d" now False "en_scoreboard en"]
  by (auto simp: record_attempt_failure_def Let_def)

lemma handle_failure_ok:
  assumes "p \<noteq> []" "t \<le> now" "sm \<in> {ROUTED, FALLBACK, DISPATCHED}"
  shows "handle_failure d now t cx p x l sm en =
    (Inr (), if l then FAILED else if sm = DISPATCHED then FALLBACK else sm,
     snd (record_attempt_failure d now t (cx_request cx) p x en))"
  using record_failure_ok [OF assms(1,2), of d "cx_request cx" x en] assms(3)
  by (auto simp: handle_failure_def transition_def split: prod.splits sum.splits)

fun settled :: "'a completion \<Rightarrow> request_state \<Rightarrow> bool" where
  "settled (Answer _) sm \<longleftrightarrow> sm = RESPONDED"
| "settled (Error e) sm \<longleftrightarrow> e = RoutingFailedError \<and> sm = FAILED"
| "settled Interrupted sm \<longleftrightarrow> sm = DISPATCHED"

text \<open>The rows the request has in the ledger and in the audit log.\<close>

definition own_rows :: "string \<Rightarrow> engine \<Rightarrow> spend_record list \<times> audit_record list" where
  "own_rows rid en = (filter (\<lambda>row. sr_request_id row = rid) (en_ledger en),
     filter (\<lambda>row. ar_request_id row = rid) (en_audit en))"

lemma own_rows_keeps [simp]:
  "own_rows rid (snd (attempt_guard now cx c en)) = own_rows rid en"
  "own_rows rid (snd (record_attempt_failure d now t r p x en)) = own_rows rid en"
  "own_rows rid (begin_attempt k p en) = own_rows rid en"
  "own_rows rid (finish_attempt k p en) = own_rows rid en"
  by (simp_all add: own_rows_def)

interpretation rows_view: routing_view "own_rows rid" for rid
  by unfold_locales (simp_all add: own_rows_def)

text \<open>
  How the attempts of a clean run end: the request settles, an answer is a provider's response to the
  scrubbed messages under the rationale of its attempt, and the request's rows are those before and,
  for an answer, one more in each log, which agree with it.
\<close>

definition good_end :: "deps \<Rightarrow> (nat \<Rightarrow> attempt_env) \<Rightarrow> request_context \<Rightarrow> nat \<Rightarrow> string list \<Rightarrow> engine \<Rightarrow>
    router_response completion \<times> request_state \<times> engine \<Rightarrow> bool" where
  "good_end d envs cx i ms en end_state \<longleftrightarrow> (case end_state of (res, sm, en') \<Rightarrow>
     settled res sm \<and> (let rid = rq_request_id (cx_request cx) in
     (case res of
        Answer rr \<Rightarrow> (\<exists>j pr p row au. j < length ms \<and>
           at_outcome (envs (i + j)) (ms ! j) (dp_scrub d (rq_messages (cx_request cx))) (rq_max_tokens (cx_request cx))
             = Responded pr \<and>
           answers cx pr (fallback_rationale (cx_rationale cx) (ms ! j) (i + j)) rr \<and>
           booked p (cx_request cx) rr row \<and> audited p rr au \<and>
           own_rows rid en' = (fst (own_rows rid en) @ [row], snd (own_rows rid en) @ [au]))
      | _ \<Rightarrow> own_rows rid en' = own_rows rid en)))"

lemma good_end_later:
  assumes "good_end d envs cx (Suc i) ms en1 e" "own_rows (rq_request_id (cx_request cx)) en1 = own_rows (rq_request_id (cx_request cx)) en"
  shows "good_end d envs cx i (m # ms) en e"
proof -
  obtain res sm en' where e: "e = (res, sm, en')" by (cases e)
  show ?thesis
  proof (cases res)
    case (Answer rr)
    from assms(1) obtain j pr p row au where j: "j < length ms" and
      r: "at_outcome (envs (Suc i + j)) (ms ! j) (dp_scrub d (rq_messages (cx_request cx))) (rq_max_tokens (cx_request cx))
        = Responded pr"
        "answers cx pr (fallback_rationale (cx_rationale cx) (ms ! j) (Suc i + j)) rr"
        "booked p (cx_request cx) rr row" "audited p rr au"
        "own_rows (rq_request_id (cx_request cx)) en' = (fst (own_rows (rq_request_id (cx_request cx)) en1) @ [row],
          snd (own_rows (rq_request_id (cx_request cx)) en1) @ [au])" and sm: "settled res sm"
      by (auto simp: good_end_def e Answer Let_def)
    show ?thesis using r sm assms(2) j
      by (auto simp: good_end_def e Answer Let_def intro!: exI [of _ "Suc j"] exI [of _ pr] exI [of _ p])
  qed (use assms in \<open>auto simp: good_end_def e Let_def\<close>)
qed

lemma dispatch_clean:
  assumes "mc_provider c \<noteq> []" "sm \<in> {ROUTED, FALLBACK}" "clean_run envs now0" "cx_started_at cx \<le> now"
    "now \<le> at_resumed (envs i)" "0 \<le> ts_prompt_tokens_estimate (cx_signals cx)"
    "others_keep (own_rows (rq_request_id (cx_request cx))) envs"
    and dsp: "dispatch d (envs i) cx now c m i sm en = (res, sm1, t, en2)"
  shows "(case res of
      None \<Rightarrow> sm1 = DISPATCHED \<and> own_rows (rq_request_id (cx_request cx)) en2 = own_rows (rq_request_id (cx_request cx)) en
    | Some (Inl x) \<Rightarrow> sm1 \<in> {ROUTED, FALLBACK, DISPATCHED} \<and> now \<le> t \<and> t \<le> at_resumed (envs (Suc i)) \<and>
        own_rows (rq_request_id (cx_request cx)) en2 = own_rows (rq_request_id (cx_request cx)) en
    | Some (Inr rr) \<Rightarrow> good_end d envs cx i (m # ms) en (Answer rr, sm1, en2))"
proof (cases "mc_provider c \<in> en_registered en")
  case False
  have "now \<le> at_resumed (envs (Suc i))" using assms(3,5) by (auto simp: clean_run_def intro: order_trans)
  with False dsp show ?thesis using assms(2) by (auto simp: dispatch_def Let_def)
next
  case True
  define rid where "rid = rq_request_id (cx_request cx)"
  define k where "k = tenant_inflight_key (cx_request cx)"
  define en1 where "en1 = finish_attempt k (mc_provider c) (at_others (envs i) (begin_attempt k (mc_provider c) en))"
  have rows: "own_rows rid en1 = own_rows rid en" using assms(7) by (simp add: en1_def others_keep_def rid_def)
  have md: "mark_dispatched sm = Inr DISPATCHED" using assms(2) by (auto simp: mark_dispatched_def transition_def)
  have io: "clean_io (envs i)" "at_resumed (envs i) \<le> at_resumed (envs (Suc i))" using assms(3) by (auto simp: clean_run_def)
  define out where "out = at_outcome (envs i) m (dp_scrub d (rq_messages (cx_request cx))) (rq_max_tokens (cx_request cx))"
  have eq: "dispatch d (envs i) cx now c m i sm en = (case out of
       Cancelled \<Rightarrow> (None, DISPATCHED, at_resumed (envs i), en1)
     | Raised x \<Rightarrow> (Some (Inl x), DISPATCHED, at_resumed (envs i), en1)
     | Responded pr \<Rightarrow> (let (r, sm2, en2) = respond d (envs i) cx (at_resumed (envs i)) now (mc_provider c)
           (fallback_rationale (cx_rationale cx) m i) pr DISPATCHED en1
         in (Some r, sm2, at_resumed (envs i), en2)))"
    using True unfolding en1_def k_def out_def by (simp add: dispatch_def Let_def md)
  show ?thesis
  proof (cases out)
    case (Responded pr)
    have "wf_response pr" using assms(3) Responded by (auto simp: clean_run_def out_def)
    moreover have "lifecycle_step DISPATCHED RESPONDED" "cx_started_at cx \<le> at_resumed (envs i)"
      using assms(4,5) by (auto simp: lifecycle_step_simps)
    ultimately obtain rr en' row au where r: "respond d (envs i) cx (at_resumed (envs i)) now (mc_provider c)
          (fallback_rationale (cx_rationale cx) m i) pr DISPATCHED en1 = (Inr rr, RESPONDED, en')"
        "answers cx pr (fallback_rationale (cx_rationale cx) m i) rr" "en_ledger en' = en_ledger en1 @ [row]"
        "booked (mc_provider c) (cx_request cx) rr row" "en_audit en' = en_audit en1 @ [au]" "audited (mc_provider c) rr au"
      using respond_clean assms(1,5,6) io(1) by blast
    have "own_rows rid en' = (fst (own_rows rid en) @ [row], snd (own_rows rid en) @ [au])"
      using rows r(2,3,4,5,6) by (auto simp: own_rows_def booked_def audited_def answers_def rid_def)
    then have "good_end d envs cx i (m # ms) en (Answer rr, RESPONDED, en')"
      using r Responded by (auto simp: good_end_def Let_def rid_def out_def
          intro!: exI [of _ "0 :: nat"] exI [of _ pr] exI [of _ "mc_provider c"])
    then show ?thesis using dsp eq r(1) Responded by auto
  qed (use dsp eq rows assms(5) io in \<open>auto simp: rid_def\<close>)
qed

lemma loop_clean:
  assumes "clean_run envs now0" "0 \<le> ts_prompt_tokens_estimate (cx_signals cx)"
    "others_keep (own_rows (rq_request_id (cx_request cx))) envs" "others_keep en_catalog envs"
    "ms \<noteq> []" "\<forall>m \<in> set ms. \<exists>c. map_of (en_catalog en) m = Some c \<and> mc_provider c \<noteq> []"
    "sm \<in> {ROUTED, FALLBACK}" "cx_started_at cx \<le> now" "now \<le> at_resumed (envs i)"
  shows "good_end d envs cx i ms en (attempt_loop d envs cx i now ms sm en)"
  using assms(5-9)
proof (induction ms arbitrary: i now sm en)
  case (Cons m ms)
  let ?rid = "rq_request_id (cx_request cx)"
  from Cons.prems(2) obtain c where "map_of (en_catalog en) m = Some c" and p: "mc_provider c \<noteq> []" by auto
  then have c: "catalog_get (en_catalog en) m = Inr c" by (simp add: catalog_get_def)
  have later: "now \<le> at_resumed (envs (Suc i))"
    using assms(1) Cons.prems(5) by (auto simp: clean_run_def intro: order_trans)
  have failed: "good_end d envs cx i (m # ms) en (Error RoutingFailedError, FAILED, en')"
    if "own_rows ?rid en' = own_rows ?rid en" for en' using that by (simp add: good_end_def Let_def)
  obtain g en1 where g: "attempt_guard now cx c en = (g, en1)" by fastforce
  then have g1: "en_catalog en1 = en_catalog en" "own_rows ?rid en1 = own_rows ?rid en"
    using guard_keeps(1) own_rows_keeps(1) by (metis snd_conv)+
  show ?case
  proof (cases g)
    case (Inl e)
    show ?thesis
    proof (cases "ms = []")
      case True
      have "transition sm FAILED = Inr FAILED" using Cons.prems(3) by (auto simp: transition_def)
      then show ?thesis using True g1 failed by (simp add: c g Inl del: transition_Inr)
    next
      case False
      have "good_end d envs cx (Suc i) ms en1 (attempt_loop d envs cx (Suc i) now ms sm en1)"
        using Cons.prems False later g1 by (intro Cons.IH) auto
      then show ?thesis using good_end_later g1 False by (simp add: c g Inl)
    qed
  next
    case (Inr u)
    obtain res sm1 t en2 where dsp: "dispatch d (envs i) cx now c m i sm en1 = (res, sm1, t, en2)"
      by (metis prod_cases4)
    note cln = dispatch_clean [OF p Cons.prems(3) assms(1) Cons.prems(4,5) assms(2,3) dsp, of ms]
    have cat2: "en_catalog en2 = en_catalog en"
      using catalog_view.dispatch_view [OF assms(4) TrueI, where en = en1 and j = i] g1 by (metis dsp snd_conv)
    show ?thesis
    proof (cases res)
      case None
      then show ?thesis using cln g1 by (simp add: c g Inr dsp good_end_def Let_def)
    next
      case (Some r)
      show ?thesis
      proof (cases r)
        case (Inr rr)
        then show ?thesis using cln g1 Some \<open>g = Inr u\<close> by (simp add: c g dsp good_end_def Let_def)
      next
        case (Inl x)
        define en3 where "en3 = snd (record_attempt_failure d t now (cx_request cx) (mc_provider c) x en2)"
        have cl: "sm1 \<in> {ROUTED, FALLBACK, DISPATCHED}" "now \<le> t" "t \<le> at_resumed (envs (Suc i))"
          "own_rows ?rid en3 = own_rows ?rid en" "en_catalog en3 = en_catalog en"
          using cln g1 cat2 by (auto simp: Some Inl en3_def)
        define sm2 where "sm2 = (if sm1 = DISPATCHED then FALLBACK else sm1)"
        have h: "handle_failure d t now cx (mc_provider c) x (ms = []) sm1 en2 =
            (Inr (), if ms = [] then FAILED else sm2, en3)"
          using handle_failure_ok [OF p cl(2,1)] by (simp add: en3_def sm2_def)
        show ?thesis
        proof (cases "ms = []")
          case True
          then show ?thesis using h failed cl by (simp add: c g \<open>g = Inr u\<close> dsp Some Inl)
        next
          case False
          have "good_end d envs cx (Suc i) ms en3 (attempt_loop d envs cx (Suc i) t ms sm2 en3)"
            using Cons.prems False cl by (intro Cons.IH) (auto simp: sm2_def)
          then show ?thesis using good_end_later cl(4) h False by (simp add: c g \<open>g = Inr u\<close> dsp Some Inl)
        qed
      qed
    qed
  qed
qed simp

subsection \<open>The order of the attempts\<close>

lemma providers_of_resolved:
  "set ms \<subseteq> fst ` set cat \<Longrightarrow> providers_of cat ms = Inr (map (provider_in cat) ms)"
  by (induction ms) (auto simp: catalog_get_def provider_in_def bind_result_Inr map_of_eq_None_iff image_iff
      split: option.splits dest!: weak_map_of_SomeI)

lemma first_seen_distinct [simp]: "distinct (first_seen xs)" "set (first_seen xs) = set xs"
  by (simp_all add: first_seen_def)

lemma filter_concat_groups:
  "distinct ps \<Longrightarrow> filter (\<lambda>x. f x = q) (concat (map (\<lambda>p. filter (\<lambda>x. f x = p) xs) ps)) =
    (if q \<in> set ps then filter (\<lambda>x. f x = q) xs else [])"
proof (induction ps)
  case (Cons p ps)
  have "filter (\<lambda>x. f x = q) (filter (\<lambda>x. f x = p) xs) = (if p = q then filter (\<lambda>x. f x = q) xs else [])"
    by (induction xs) auto
  with Cons show ?case by auto
qed simp

lemma order_attempts_ok:
  assumes "set chain \<subseteq> fst ` set (en_catalog en)"
  obtains attempts sb where
    "order_attempts d now m chain en = (Inr (m # attempts), en\<lparr> en_scoreboard := sb \<rparr>)"
    "mset attempts = mset chain"
    "\<forall>p. filter (\<lambda>x. provider_in (en_catalog en) x = p) attempts =
      filter (\<lambda>x. provider_in (en_catalog en) x = p) chain"
proof (cases "chain = []")
  case True
  then show thesis using that [of "[]" "en_scoreboard en"] by (simp add: order_attempts_def)
next
  case False
  let ?f = "provider_in (en_catalog en)"
  let ?ps = "first_seen (map ?f chain)"
  obtain ranked sb where rk: "rank (dp_half_pow d) now (Some ?ps) (en_scoreboard en) = (ranked, sb)" by fastforce
  define rest where "rest = concat (map (\<lambda>p. filter (\<lambda>x. ?f x = p) chain) ranked)"
  have "mset rest = mset chain"
    using scoreboard_rank.regroup_perm [of ?ps ?f chain "dp_half_pow d" now "en_scoreboard en"]
    by (simp add: rest_def rk)
  moreover have rset: "set ranked = set (map ?f chain)" and "distinct ranked"
    using scoreboard_rank.rank_set [of "dp_half_pow d" now ?ps "en_scoreboard en"]
      scoreboard_rank.rank_distinct [of "dp_half_pow d" now ?ps "en_scoreboard en"] by (simp_all add: rk)
  moreover have "filter (\<lambda>x. ?f x = p) rest = filter (\<lambda>x. ?f x = p) chain" for p
  proof (cases "p \<in> set ranked")
    case False
    then have "filter (\<lambda>x. ?f x = p) chain = []" using rset by (auto simp: filter_empty_conv)
    with False show ?thesis using filter_concat_groups [OF \<open>distinct ranked\<close>, of ?f p chain] by (simp add: rest_def)
  qed (use filter_concat_groups [OF \<open>distinct ranked\<close>, of ?f p chain] in \<open>simp add: rest_def\<close>)
  moreover have "order_attempts d now m chain en = (Inr (m # rest), en\<lparr> en_scoreboard := sb \<rparr>)"
    using False by (simp add: order_attempts_def providers_of_resolved [OF assms] rk rest_def Let_def)
  ultimately show thesis using that by blast
qed

subsection \<open>Whole requests\<close>

text \<open>What the engine relies on in its strategies: the contract of \<open>Strategy_Base\<close>.\<close>

definition strategies_ok :: "catalog \<Rightarrow> deps \<Rightarrow> bool" where
  "strategies_ok cat d \<longleftrightarrow> (\<forall>name ch now r s en dec en'. dp_strategies d name = Some ch \<longrightarrow>
     wf_catalog cat \<longrightarrow> en_catalog en = cat \<longrightarrow> ch now r s en = (Inr dec, en') \<longrightarrow> decision_ok cat dec)"

definition providers_named :: "catalog \<Rightarrow> bool" where
  "providers_named cat \<longleftrightarrow> (\<forall>(m, c) \<in> set cat. mc_provider c \<noteq> [])"

lemma start_request_ok:
  assumes "strategies_ok (en_catalog en) d" "strategies_keep en_catalog d" "wf_catalog (en_catalog en)"
  shows "case start_request d now r en of
      (Inl e, sm, en') \<Rightarrow> (sm = RECEIVED \<and> e = RateLimitExceededError (rq_api_key_id r)) \<or> sm = CLASSIFIED
    | (Inr (cx, attempts), sm, en') \<Rightarrow> sm = ROUTED \<and> cx_request cx = r \<and> cx_signals cx = dp_analyze d r \<and>
        cx_started_at cx = now \<and> attempts \<noteq> [] \<and> set attempts \<subseteq> fst ` set (en_catalog en) \<and>
        distinct attempts \<and> length attempts \<le> 4"
proof -
  obtain g rl where g: "assert_allowed now (rq_api_key_id r) 1 (en_rate_limiter en) = (g, rl)" by fastforce
  show ?thesis
  proof (cases g)
    case (Inl e)
    then have "e = RateLimitExceededError (rq_api_key_id r)" using g by (auto simp: assert_allowed_def Let_def split: if_splits)
    then show ?thesis by (simp add: start_request_def g Inl)
  next
    case (Inr u)
    define en1 where "en1 = en\<lparr> en_rate_limiter := rl \<rparr>"
    define name where "name = (case rq_strategy r of Some s \<Rightarrow> s | None \<Rightarrow> en_default_strategy en)"
    have t: "transition RECEIVED CLASSIFIED = Inr CLASSIFIED" "transition CLASSIFIED ROUTED = Inr ROUTED"
      by (simp_all add: transition_def)
    show ?thesis
    proof (cases "dp_strategies d name")
      case None
      then show ?thesis by (simp add: start_request_def g Inr name_def [symmetric] t del: transition_Inr)
    next
      case (Some ch)
      obtain x en2 where ch: "ch now r (dp_analyze d r) en1 = (x, en2)" by fastforce
      show ?thesis
      proof (cases x)
        case (Inl e)
        then show ?thesis using Some
          by (simp add: start_request_def g Inr name_def [symmetric] en1_def [symmetric] ch t del: transition_Inr)
      next
        case (Inr dec)
        have cat2: "en_catalog en2 = en_catalog en"
          using assms(2) Some ch unfolding strategies_keep_def en1_def
          by (metis engine.select_convs(1) engine.surjective engine.update_convs(4) snd_conv)
        have "en_catalog en1 = en_catalog en" by (simp add: en1_def)
        then have ok: "decision_ok (en_catalog en) dec" using assms(1,3) Some ch Inr unfolding strategies_ok_def by blast
        then have "set (rd_fallback_chain dec) \<subseteq> fst ` set (en_catalog en2)" by (simp add: decision_ok_def cat2)
        then obtain rest sb where o: "order_attempts d now (rd_chosen_model dec) (rd_fallback_chain dec) en2 =
            (Inr (rd_chosen_model dec # rest), en2\<lparr> en_scoreboard := sb \<rparr>)" "mset rest = mset (rd_fallback_chain dec)"
          by (rule order_attempts_ok)
        have "set rest = set (rd_fallback_chain dec)" "distinct rest = distinct (rd_fallback_chain dec)"
          "length rest = length (rd_fallback_chain dec)"
          using o(2) by (metis mset_eq_setD, metis mset_eq_imp_distinct_iff, metis mset_eq_length)
        then show ?thesis using ok Some \<open>g = Inr u\<close> Inr
          by (auto simp: start_request_def g name_def [symmetric] en1_def [symmetric] ch t o decision_ok_def
              weak_map_of_SomeI image_iff split: option.splits simp del: transition_Inr)
             (metis fst_conv map_of_SomeD)
      qed
    qed
  qed
qed

lemma catalog_resolves:
  assumes "providers_named cat" "set ms \<subseteq> fst ` set cat"
  shows "\<forall>m \<in> set ms. \<exists>c. map_of cat m = Some c \<and> mc_provider c \<noteq> []"
proof
  fix m assume "m \<in> set ms"
  with assms(2) have "m \<in> fst ` set cat" by blast
  then obtain c where "map_of cat m = Some c" by (cases "map_of cat m") (simp_all add: map_of_eq_None_iff)
  then show "\<exists>c. map_of cat m = Some c \<and> mc_provider c \<noteq> []"
    using assms(1) by (auto simp: providers_named_def dest!: map_of_SomeD)
qed

lemma complete_clean:
  assumes "providers_named (en_catalog en)" "strategies_ok (en_catalog en) d" "strategies_keep en_catalog d" "others_keep en_catalog envs"
    "strategies_keep (own_rows (rq_request_id r)) d" "others_keep (own_rows (rq_request_id r)) envs"
    "clean_run envs now" "0 \<le> ts_prompt_tokens_estimate (dp_analyze d r)" "wf_catalog (en_catalog en)"
  shows "case start_request d now r en of
      (Inl e, sm, en1) \<Rightarrow> complete d envs now r en = (Error e, sm, en1)
    | (Inr (cx, attempts), sm, en1) \<Rightarrow> good_end d envs cx 0 attempts en1 (complete d envs now r en) \<and> cx_request cx = r"
proof -
  obtain x sm en1 where st: "start_request d now r en = (x, sm, en1)" by (metis prod_cases3)
  have cat: "en_catalog en1 = en_catalog en" using catalog_view.start_view [OF assms(3), where now = now and r = r and en = en] by (simp add: st)
  show ?thesis
  proof (cases x)
    case (Inl e)
    then show ?thesis by (simp add: st complete_def)
  next
    case (Inr ca)
    obtain cx attempts where ca: "ca = (cx, attempts)" by fastforce
    have s: "sm = ROUTED" "cx_request cx = r" "cx_signals cx = dp_analyze d r" "cx_started_at cx = now"
      "attempts \<noteq> []" "set attempts \<subseteq> fst ` set (en_catalog en)"
      using start_request_ok [OF assms(2,3,9), where now = now and r = r] by (auto simp: st Inr ca)
    have "\<forall>m \<in> set attempts. \<exists>c. map_of (en_catalog en) m = Some c \<and> mc_provider c \<noteq> []"
      by (rule catalog_resolves [OF assms(1) s(6)])
    then have "good_end d envs cx 0 attempts en1 (attempt_loop d envs cx 0 now attempts ROUTED en1)"
      using assms s by (intro loop_clean [where now0 = now]) (auto simp: cat clean_run_def)
    then show ?thesis using s by (simp add: st Inr ca complete_def)
  qed
qed

subsection \<open>A router to apply the properties to\<close>

definition demo_response :: provider_response where
  "demo_response = \<lparr> pr_content = ''hello'', pr_model = ''gpt-6-luna'', pr_input_tokens = 50,
     pr_output_tokens = 3, pr_cost_usd = 1/1024, pr_finish_reason = Stop \<rparr>"

definition demo_deps :: deps where
  "demo_deps = \<lparr> dp_analyze = (\<lambda>_. demo_signals),
     dp_strategies = [''rule-based'' \<mapsto> (\<lambda>now r s en. (rule_based_choose (en_catalog en) r s, en))],
     dp_scrub = map (\<lambda>m. m\<lparr> cm_content := ''[REDACTED]'' \<rparr>), dp_adapter_cost = (\<lambda>_ _ _ _. 0),
     dp_parse_float = (\<lambda>_. None), dp_half_pow = (\<lambda>_. 1) \<rparr>"

text \<open>The first \<open>n\<close> attempts fail, the later ones respond.\<close>

definition demo_envs :: "nat \<Rightarrow> nat \<Rightarrow> attempt_env" where
  "demo_envs n i = \<lparr> at_others = (\<lambda>en. en), at_resumed = 2, at_wall_clock = 0, at_ledger_error = None,
     at_audit_error = None,
     at_outcome = (\<lambda>m msgs k. if i < n then Raised (plain_exn ''HTTP 429'') else Responded demo_response) \<rparr>"

lemma demo_router:
  obtains en where "new_router default_settings [] {''openai'', ''google'', ''anthropic'', ''moonshot''} = Inr en"
    "en_catalog en = default_model_catalog" "en_breakers en = new_registry 3 60"
    "en_registered en = {''openai'', ''google'', ''anthropic'', ''moonshot''}"
    "en_budget en = \<lparr> bg_cap_usd = 25, bg_spend = Map.empty \<rparr>" "en_inflight en = \<lparr> if_inflight = Map.empty \<rparr>"
    "en_default_strategy en = ''rule-based''" "en_ledger en = []" "en_audit en = []"
proof -
  have "0 < fl (3/10 :: rat)" by code_simp
  moreover have "fl (3/10 :: rat) \<le> 1" "0 \<le> fl (1/10 :: rat)" by (simp_all add: dbl.le_one dbl.nonneg)
  ultimately have "\<exists>en. new_router default_settings [] {''openai'', ''google'', ''anthropic'', ''moonshot''} = Inr en \<and>
    en_catalog en = default_model_catalog \<and> en_breakers en = new_registry 3 60 \<and>
    en_registered en = {''openai'', ''google'', ''anthropic'', ''moonshot''} \<and>
    en_budget en = \<lparr> bg_cap_usd = 25, bg_spend = Map.empty \<rparr> \<and> en_inflight en = \<lparr> if_inflight = Map.empty \<rparr> \<and>
    en_default_strategy en = ''rule-based'' \<and> en_ledger en = [] \<and> en_audit en = []"
    by (simp add: new_router_def default_settings_def make_rate_limit_stats_def
        make_family_spend_window_def make_weight_stats_def make_retry_cooldown_def make_latency_slope_stats_def
        make_hourly_spend_window_def make_token_rpm_window_def make_cascade_stats_def make_error_reset_stats_def
        make_scoreboard_def make_token_bucket_stats_def make_tier_request_stats_def make_request_share_stats_def
        make_tenant_bucket_stats_def new_session_state_def make_quota_burst_stats_def make_lookback_def not_less)
  then show thesis using that by blast
qed

lemma demo_strategies:
  "strategies_ok cat demo_deps" "strategies_keep f demo_deps" "others_keep f (demo_envs n)" "clean_run (demo_envs n) 1"
  "providers_named default_model_catalog" "0 \<le> ts_prompt_tokens_estimate (dp_analyze demo_deps r)"
  using rule_based.chosen
  by (auto simp: strategies_ok_def strategies_keep_def others_keep_def demo_deps_def demo_envs_def clean_run_def
      clean_io_def wf_response_def demo_response_def providers_named_def default_model_catalog_def demo_signals_def
      split: if_splits)





text \<open>
  C17. Attempts do not leak in-flight counts: however a request ends, answered, failed, rate limited
  or cancelled in the middle of an adapter call, every in-flight counter of a provider or of a tenant
  is what it was, given that the other tasks that ran meanwhile have finished what they began.
\<close>

theorem attempts_do_not_leak:
  assumes "others_keep (\<lambda>en. load_score (en_inflight en)) envs" "strategies_keep (\<lambda>en. load_score (en_inflight en)) d"
    "\<forall>q. 0 \<le> load_score (en_inflight en) q"
  shows "load_score (en_inflight (snd (snd (complete d envs now r en)))) q = load_score (en_inflight en) q"
  using load_view.complete_view [OF assms, where now = now and r = r] by metis

theorem attempts_do_not_leak_witness:
  "\<exists>en. new_router default_settings [] {''openai'', ''google'', ''anthropic'', ''moonshot''} = Inr en \<and>
    load_score (en_inflight (snd (snd (complete demo_deps (demo_envs 2) 1 demo_request en)))) ''openai'' = 0"
proof -
  obtain en where en: "new_router default_settings [] {''openai'', ''google'', ''anthropic'', ''moonshot''} = Inr en"
    "en_inflight en = \<lparr> if_inflight = Map.empty \<rparr>" by (rule demo_router)
  have z: "load_score (en_inflight en) q = 0" for q by (simp add: en load_score_def)
  show ?thesis
    by (intro exI [of _ en] conjI en(1), subst attempts_do_not_leak [OF demo_strategies(3,2)]) (simp_all add: z)
qed



end
