(* ===== verification/Engine_Failover.thy ===== *)
theory Engine_Failover
  imports Engine_Laws
begin

text \<open>
  Failover and refusals in the engine: which attempt answers when providers fail, what a request
  refused by the client-side guards leaves behind, what happens after a failed ledger or audit
  write, and what an adapter gets to see.
\<close>

subsection \<open>The first response is the answer\<close>

text \<open>Every circuit is closed and stays so for \<open>n\<close> more failures.\<close>

definition circuits_spare :: "int \<Rightarrow> circuit_registry \<Rightarrow> bool" where
  "circuits_spare n cb \<longleftrightarrow> (\<forall>p. cs_opened_at (circuit_of p cb) = None \<and>
     cs_consecutive_failures (circuit_of p cb) + n \<le> cb_failure_threshold cb)"

definition affordable :: "request_context \<Rightarrow> budget_guardrail \<Rightarrow> model_candidate \<Rightarrow> bool" where
  "affordable cx bg c \<longleftrightarrow> assert_can_spend (rq_user_id (cx_request cx))
     (estimate_cost c (ts_prompt_tokens_estimate (cx_signals cx)) (rq_max_tokens (cx_request cx))) bg = Inr ()"

lemma guard_passes:
  assumes "affordable cx (en_budget en) c" "circuits_spare n (en_breakers en)"
  obtains en1 where "attempt_guard now cx c en = (Inr (), en1)" "circuits_spare n (en_breakers en1)"
proof -
  obtain g cb where g: "assert_available now (mc_provider c) (en_breakers en) = (g, cb)" by fastforce
  have "g = Inr ()" "circuits_spare n cb"
    using assms(2) g by (auto simp: assert_available_def circuits_spare_def Let_def split: option.splits)
  then show thesis using assms(1) that g by (simp add: attempt_guard_def affordable_def Let_def)
qed

lemma spare_after_failure:
  assumes "circuits_spare (n + 1) cb" "0 < n" shows "circuits_spare n (cb_record_failure now p cb)"
  unfolding circuits_spare_def
proof
  fix q
  have "cs_opened_at (circuit_of q cb) = None"
    "cs_consecutive_failures (circuit_of q cb) + (n + 1) \<le> cb_failure_threshold cb" for q
    using assms(1) by (auto simp: circuits_spare_def)
  note this [of q] this [of p]
  then show "cs_opened_at (circuit_of q (cb_record_failure now p cb)) = None \<and>
      cs_consecutive_failures (circuit_of q (cb_record_failure now p cb)) + n
        \<le> cb_failure_threshold (cb_record_failure now p cb)"
    using assms(2) by (auto simp: cb_record_failure_def Let_def)
qed

lemma failure_breakers:
  "p \<noteq> [] \<Longrightarrow> t \<le> now \<Longrightarrow>
   en_breakers (snd (record_attempt_failure d now t r p x en)) = cb_record_failure now p (en_breakers en)"
  using record_outcome_accepted [OF _ elapsed_nonneg [of t now], of p "dp_half_pow d" now False "en_scoreboard en"]
  by (auto simp: record_attempt_failure_def Let_def)

text \<open>What the adapter of attempt \<open>j\<close> of the request gives.\<close>

definition reply :: "deps \<Rightarrow> (nat \<Rightarrow> attempt_env) \<Rightarrow> request_context \<Rightarrow> nat \<Rightarrow> string \<Rightarrow> outcome" where
  "reply d envs cx j m = at_outcome (envs j) m (dp_scrub d (rq_messages (cx_request cx))) (rq_max_tokens (cx_request cx))"

lemma dispatch_raised:
  assumes "mc_provider c \<in> en_registered en" "sm \<in> {ROUTED, FALLBACK}" "reply d envs cx i m = Raised x"
    "others_keep en_breakers envs" "others_keep en_budget envs"
  obtains en2 where "dispatch d (envs i) cx now c m i sm en = (Some (Inl x), DISPATCHED, at_resumed (envs i), en2)"
    "en_breakers en2 = en_breakers en" "en_budget en2 = en_budget en"
proof -
  have "mark_dispatched sm = Inr DISPATCHED" using assms(2) by (auto simp: mark_dispatched_def transition_def)
  moreover define en2 where "en2 = finish_attempt (tenant_inflight_key (cx_request cx)) (mc_provider c)
    (at_others (envs i) (begin_attempt (tenant_inflight_key (cx_request cx)) (mc_provider c) en))"
  ultimately show thesis using assms(1,3-5) by (intro that [of en2]) (simp_all add: dispatch_def Let_def reply_def others_keep_def)
qed

lemma dispatch_responded:
  assumes "mc_provider c \<in> en_registered en" "sm \<in> {ROUTED, FALLBACK}" "reply d envs cx i m = Responded pr"
    "mc_provider c \<noteq> []" "clean_run envs now0" "cx_started_at cx \<le> now" "now \<le> at_resumed (envs i)"
    "0 \<le> ts_prompt_tokens_estimate (cx_signals cx)"
  obtains rr en2 where
    "dispatch d (envs i) cx now c m i sm en = (Some (Inr rr), RESPONDED, at_resumed (envs i), en2)"
    "answers cx pr (fallback_rationale (cx_rationale cx) m i) rr"
proof -
  have md: "mark_dispatched sm = Inr DISPATCHED" using assms(2) by (auto simp: mark_dispatched_def transition_def)
  define k where "k = tenant_inflight_key (cx_request cx)"
  define en1 where "en1 = finish_attempt k (mc_provider c) (at_others (envs i) (begin_attempt k (mc_provider c) en))"
  have "wf_response pr" "clean_io (envs i)" using assms(3,5) by (auto simp: clean_run_def reply_def)
  moreover have "lifecycle_step DISPATCHED RESPONDED" "cx_started_at cx \<le> at_resumed (envs i)"
    using assms(6,7) by (auto simp: lifecycle_step_simps)
  ultimately obtain rr en2 where r: "respond d (envs i) cx (at_resumed (envs i)) now (mc_provider c)
      (fallback_rationale (cx_rationale cx) m i) pr DISPATCHED en1 = (Inr rr, RESPONDED, en2)"
    "answers cx pr (fallback_rationale (cx_rationale cx) m i) rr"
    using respond_clean assms(4,7,8) by blast
  from that [OF _ r(2)] r(1) show thesis
    using assms(1,3) md unfolding en1_def k_def reply_def by (simp add: dispatch_def Let_def)
qed

text \<open>A failing attempt that is not the last hands over to the next, with the same budget and one failure less to spare.\<close>

lemma loop_fails_over:
  assumes c: "map_of (en_catalog en) m = Some c" "mc_provider c \<noteq> []" "mc_provider c \<in> en_registered en"
      "affordable cx (en_budget en) c"
    and x: "reply d envs cx i m = Raised x" and ms: "ms \<noteq> []"
    and sp: "circuits_spare (int (length (m # ms))) (en_breakers en)"
    and keep: "others_keep en_catalog envs" "others_keep en_registered envs" "others_keep en_breakers envs"
      "others_keep en_budget envs"
    and sm: "sm \<in> {ROUTED, FALLBACK}" and t: "now \<le> at_resumed (envs i)"
  obtains en' where "attempt_loop d envs cx i now (m # ms) sm en =
      attempt_loop d envs cx (Suc i) (at_resumed (envs i)) ms FALLBACK en'"
    "en_catalog en' = en_catalog en" "en_registered en' = en_registered en" "en_budget en' = en_budget en"
    "circuits_spare (int (length ms)) (en_breakers en')"
proof -
  have cg: "catalog_get (en_catalog en) m = Inr c" using c(1) by (simp add: catalog_get_def)
  obtain en1 where g: "attempt_guard now cx c en = (Inr (), en1)"
    and sp1: "circuits_spare (int (length (m # ms))) (en_breakers en1)"
    by (rule guard_passes [OF c(4) sp])
  have g1: "en_catalog en1 = en_catalog en" "en_registered en1 = en_registered en" "en_budget en1 = en_budget en"
    using guard_keeps(1,2,6) by (metis g snd_conv)+
  obtain en2 where dsp: "dispatch d (envs i) cx now c m i sm en1 = (Some (Inl x), DISPATCHED, at_resumed (envs i), en2)"
    and b2: "en_breakers en2 = en_breakers en1" "en_budget en2 = en_budget en1"
    using dispatch_raised [OF _ sm x keep(3,4), of c en1] c(3) g1 by auto
  have v2: "en_catalog en2 = en_catalog en1" "en_registered en2 = en_registered en1"
    using catalog_view.dispatch_view [OF keep(1) TrueI, where en = en1 and j = i]
      registry_view.dispatch_view [OF keep(2) TrueI, where en = en1 and j = i] dsp by (metis snd_conv)+
  define en3 where "en3 = snd (record_attempt_failure d (at_resumed (envs i)) now (cx_request cx) (mc_provider c) x en2)"
  have "handle_failure d (at_resumed (envs i)) now cx (mc_provider c) x (ms = []) DISPATCHED en2 = (Inr (), FALLBACK, en3)"
    using handle_failure_ok [OF c(2) t, of DISPATCHED] ms by (simp add: en3_def)
  then have "attempt_loop d envs cx i now (m # ms) sm en =
      attempt_loop d envs cx (Suc i) (at_resumed (envs i)) ms FALLBACK en3" by (simp add: cg g dsp)
  moreover have "circuits_spare (int (length ms)) (en_breakers en3)"
    using sp1 ms c(2) t by (simp add: en3_def failure_breakers b2 spare_after_failure add.commute)
  ultimately show thesis using that v2 g1 b2 by (simp add: en3_def)
qed


definition demo_context :: request_context where
  "demo_context = \<lparr> cx_request = demo_request, cx_signals = demo_signals, cx_strategy_name = ''rule-based'',
     cx_rationale = [Lit ''rule''], cx_started_at = 1 \<rparr>"

definition demo_attempts :: "string list" where
  "demo_attempts = [GEMINI_PRO_MODEL, OPENAI_BALANCED_MODEL, ANTHROPIC_FAST_MODEL]"

text \<open>A request of at most a thousand tokens each way at rates below a dollar costs at most two.\<close>

lemma small_estimate:
  assumes "0 \<le> i" "i \<le> 1000" "0 \<le> n" "n \<le> 1000" "0 \<le> mc_input_cost_per_1k c" "mc_input_cost_per_1k c \<le> 1"
    "0 \<le> mc_output_cost_per_1k c" "mc_output_cost_per_1k c \<le> 1"
    "case mc_long_prompt_pricing c of None \<Rightarrow> True | Some lp \<Rightarrow> i \<le> lp_threshold_tokens lp"
  shows "0 \<le> estimate_cost c i n \<and> estimate_cost c i n \<le> 2"
proof -
  have part: "0 \<le> fmul (fdiv (fint k) 1000) r \<and> fmul (fdiv (fint k) 1000) r \<le> 1"
    if "0 \<le> k" "k \<le> 1000" "0 \<le> r" "r \<le> 1" for k :: int and r
  proof -
    have "0 \<le> fint k" "fint k \<le> 1000" using that(1,2) fl_mono [of "of_int k" 1000]
      by (simp_all add: fint_def dbl.nonneg fl_numeral)
    then have d: "0 \<le> fdiv (fint k) 1000" "fdiv (fint k) 1000 \<le> 1" by (simp_all add: fdiv_def dbl.nonneg dbl.le_one)
    then have "fdiv (fint k) 1000 * r \<le> 1" using that(3,4) by (simp add: mult_le_one)
    then show ?thesis using d that(3) by (simp add: fmul_def dbl.nonneg dbl.le_one)
  qed
  let ?x = "fmul (fdiv (fint i) 1000) (mc_input_cost_per_1k c)" and ?y = "fmul (fdiv (fint n) 1000) (mc_output_cost_per_1k c)"
  have xy: "0 \<le> ?x" "?x \<le> 1" "0 \<le> ?y" "?y \<le> 1" using part assms by auto
  have "estimate_cost c i n = fadd ?x ?y"
    using assms(9) by (auto simp: estimate_cost_def Let_def rates_for_def split: option.splits prod.splits)
  moreover have "fl (?x + ?y) \<le> fl 2" using xy by (intro fl_mono) linarith
  ultimately show ?thesis using xy by (simp add: fadd_def dbl.nonneg fl_numeral)
qed

lemma demo_affordable:
  assumes "m \<in> set demo_attempts"
  shows "\<exists>c. map_of default_model_catalog m = Some c \<and> mc_provider c \<noteq> [] \<and>
    mc_provider c \<in> {''openai'', ''google'', ''anthropic'', ''moonshot''} \<and>
    affordable demo_context \<lparr> bg_cap_usd = 25, bg_spend = Map.empty \<rparr> c"
proof -
  have cap: "affordable demo_context \<lparr> bg_cap_usd = 25, bg_spend = Map.empty \<rparr> c"
    if "0 \<le> estimate_cost c 50 100 \<and> estimate_cost c 50 100 \<le> 2" for c
  proof -
    have "fl (0 + estimate_cost c 50 100) \<le> fl (25 + EPSILON_USD)"
      using that by (intro fl_mono) (simp add: EPSILON_USD_def add_increasing2 dbl.nonneg)
    then show ?thesis
      by (simp add: affordable_def assert_can_spend_def spent_def demo_context_def demo_signals_def demo_request_def
          fadd_def not_less)
  qed
  have cheap: "0 \<le> estimate_cost c 50 100 \<and> estimate_cost c 50 100 \<le> 2"
    if "(m, c) \<in> set default_model_catalog" for m c
    by (rule small_estimate) (use that in \<open>auto simp: default_model_catalog_def dbl.nonneg dbl.le_one
        GPT6_LONG_PROMPT_THRESHOLD_TOKENS_def HAIKU_5_5_LONG_PROMPT_THRESHOLD_TOKENS_def\<close>)
  have prov: "mc_provider c \<in> {''openai'', ''google'', ''anthropic'', ''moonshot''}"
    if "(m, c) \<in> set default_model_catalog" for m c
    using that by (auto simp: default_model_catalog_def)
  have "m \<in> fst ` set default_model_catalog" using assms by (auto simp: demo_attempts_def default_model_catalog_def)
  then obtain c where c: "map_of default_model_catalog m = Some c"
    by (cases "map_of default_model_catalog m") (simp_all add: map_of_eq_None_iff)
  have "mc_provider c \<noteq> []" using prov [OF map_of_SomeD [OF c]] by auto
  with c cap [OF cheap [OF map_of_SomeD [OF c]]] prov [OF map_of_SomeD [OF c]] show ?thesis by blast
qed


subsection \<open>Refused by the client-side guards\<close>

definition refused :: "rat \<Rightarrow> request_context \<Rightarrow> engine \<Rightarrow> model_candidate \<Rightarrow> bool" where
  "refused now cx en c \<longleftrightarrow> \<not> affordable cx (en_budget en) c \<or> \<not> is_available now (mc_provider c) (en_breakers en)"

lemma affordable_iff: "affordable cx bg c \<longleftrightarrow> (\<forall>e. assert_can_spend (rq_user_id (cx_request cx))
    (estimate_cost c (ts_prompt_tokens_estimate (cx_signals cx)) (rq_max_tokens (cx_request cx))) bg \<noteq> Inl e)"
  by (auto simp: affordable_def assert_can_spend_def)

text \<open>A refusal at most creates the closed circuit of a provider that had none.\<close>

lemma guard_refuses:
  assumes "refused now cx en c"
  obtains e cb where "attempt_guard now cx c en = (Inl e, en\<lparr> en_breakers := cb \<rparr>)"
    "\<forall>q. circuit_of q cb = circuit_of q (en_breakers en)"
    "cb_recovery_window_seconds cb = cb_recovery_window_seconds (en_breakers en)"
proof (cases "affordable cx (en_budget en) c")
  case False
  then obtain e where "assert_can_spend (rq_user_id (cx_request cx))
    (estimate_cost c (ts_prompt_tokens_estimate (cx_signals cx)) (rq_max_tokens (cx_request cx))) (en_budget en) = Inl e"
    by (auto simp: affordable_iff)
  then show thesis by (intro that [of e "en_breakers en"]) (simp_all add: attempt_guard_def)
next
  case True
  define cb where "cb = put_circuit (mc_provider c) (circuit_of (mc_provider c) (en_breakers en)) (en_breakers en)"
  have "\<not> is_available now (mc_provider c) (en_breakers en)" using assms True by (simp add: refused_def)
  then have "assert_available now (mc_provider c) (en_breakers en) = (Inl (CircuitOpenError (mc_provider c)), cb)"
    by (auto simp: assert_available_def is_available_iff cb_def Let_def split: option.splits)
  then show thesis using True
    by (intro that [of "CircuitOpenError (mc_provider c)" cb]) (simp_all add: attempt_guard_def affordable_def cb_def)
qed

text \<open>
  C20. A refusal is not a provider fault: when the budget guard or the open circuit refuses every
  attempt, the request fails with \<open>RoutingFailedError\<close> and nothing in the engine has changed: no
  statistics, no counter, no spend, no row, and every circuit is what it was (a provider without one
  may have got its closed circuit).
\<close>

theorem refusals_are_not_faults:
  assumes "ms \<noteq> []" "sm \<in> {ROUTED, FALLBACK}"
    "\<forall>m \<in> set ms. \<exists>c. map_of (en_catalog en) m = Some c \<and> refused now cx en c"
  shows "\<exists>cb. attempt_loop d envs cx i now ms sm en = (Error RoutingFailedError, FAILED, en\<lparr> en_breakers := cb \<rparr>) \<and>
    (\<forall>q. circuit_of q cb = circuit_of q (en_breakers en))"
  using assms
proof (induction ms arbitrary: i en)
  case (Cons m ms)
  from Cons.prems(3) obtain c where "map_of (en_catalog en) m = Some c" and c: "refused now cx en c" by auto
  then have cg: "catalog_get (en_catalog en) m = Inr c" by (simp add: catalog_get_def)
  obtain e cb where g: "attempt_guard now cx c en = (Inl e, en\<lparr> en_breakers := cb \<rparr>)"
    and cb: "\<forall>q. circuit_of q cb = circuit_of q (en_breakers en)"
      "cb_recovery_window_seconds cb = cb_recovery_window_seconds (en_breakers en)"
    using c by (rule guard_refuses)
  have tr: "transition sm FAILED = Inr FAILED" using Cons.prems(2) by (auto simp: transition_def)
  show ?case
  proof (cases "ms = []")
    case True
    then show ?thesis using cb by (auto simp: cg g tr simp del: transition_Inr)
  next
    case False
    let ?en = "en\<lparr> en_breakers := cb \<rparr>"
    have "refused now cx ?en c' = refused now cx en c'" for c'
      using cb by (simp add: refused_def is_available_iff split: option.splits)
    then have "\<forall>m \<in> set ms. \<exists>c. map_of (en_catalog ?en) m = Some c \<and> refused now cx ?en c"
      using Cons.prems(3) by simp
    from Cons.IH [OF False Cons.prems(2) this, of "Suc i"] obtain cb' where
      "attempt_loop d envs cx (Suc i) now ms sm ?en = (Error RoutingFailedError, FAILED, ?en\<lparr> en_breakers := cb' \<rparr>)"
      "\<forall>q. circuit_of q cb' = circuit_of q cb" by auto
    then show ?thesis using cb(1) False by (auto simp: cg g)
  qed
qed simp

definition all_open :: circuit_registry where
  "all_open = \<lparr> cb_failure_threshold = 3, cb_recovery_window_seconds = 60,
     cb_states = (\<lambda>_. Some \<lparr> cs_consecutive_failures = 3, cs_opened_at = Some 1 \<rparr>) \<rparr>"

theorem refusals_are_not_faults_witness:
  "\<exists>en cb. new_router default_settings [] {''openai'', ''google'', ''anthropic'', ''moonshot''} = Inr en \<and>
    attempt_loop demo_deps (demo_envs 0) demo_context 0 1 demo_attempts ROUTED (en\<lparr> en_breakers := all_open \<rparr>) =
    (Error RoutingFailedError, FAILED, en\<lparr> en_breakers := cb \<rparr>) \<and> cs_opened_at (circuit_of ''openai'' cb) = Some 1"
proof -
  obtain en where en: "new_router default_settings [] {''openai'', ''google'', ''anthropic'', ''moonshot''} = Inr en"
    "en_catalog en = default_model_catalog" by (rule demo_router)
  let ?en = "en\<lparr> en_breakers := all_open \<rparr>"
  have "refused 1 demo_context ?en c" for c
    by (simp add: refused_def is_available_def all_open_def fsub_def)
  then have "\<forall>m \<in> set demo_attempts. \<exists>c. map_of (en_catalog ?en) m = Some c \<and> refused 1 demo_context ?en c"
    using demo_affordable en(2) by fastforce
  moreover have "demo_attempts \<noteq> []" by (simp add: demo_attempts_def)
  ultimately obtain cb where
    "attempt_loop demo_deps (demo_envs 0) demo_context 0 1 demo_attempts ROUTED ?en =
      (Error RoutingFailedError, FAILED, ?en\<lparr> en_breakers := cb \<rparr>)"
    "\<forall>q. circuit_of q cb = circuit_of q (en_breakers ?en)"
    using refusals_are_not_faults [of demo_attempts ROUTED ?en 1 demo_context demo_deps "demo_envs 0" 0] by auto
  then show ?thesis using en(1) by (intro exI [of _ en] exI [of _ cb]) (simp add: circuit_of_def all_open_def)
qed

subsection \<open>A failed ledger write\<close>

lemma respond_again:
  "respond d env cx now t p ra pr RESPONDED en =
    (Inl (exn_of_error (StateTransitionError ''RESPONDED'' ''RESPONDED'')), RESPONDED, respond_statistics now p en)"
  by (simp add: respond_def transition_def)

lemma dispatch_again:
  "dispatch d env cx now c m i RESPONDED en = (res, sm, t, en') \<Longrightarrow> sm = RESPONDED \<and> (\<forall>rr. res \<noteq> Some (Inr rr))"
  by (auto simp: dispatch_def mark_dispatched_def Let_def respond_again split: outcome.splits if_splits)

lemma handle_again:
  assumes "handle_failure d now t cx p x l RESPONDED en = (res, sm, en')"
  shows "sm = RESPONDED \<and> (l \<longrightarrow> (\<exists>e. res = Inl e)) \<and> res \<noteq> Inl RoutingFailedError"
proof -
  have "fst (record_attempt_failure d now t r p x en) \<noteq> Inl RoutingFailedError" for r
    by (auto simp: record_attempt_failure_def record_outcome_def Let_def split: prod.splits sum.splits if_splits)
  then show ?thesis using assms
    by (auto simp: handle_failure_def transition_def split: prod.splits sum.splits if_splits) (metis fst_conv)+
qed

lemma loop_again:
  assumes "ms \<noteq> []" "attempt_loop d envs cx i now ms RESPONDED en = (res, sm, en')"
  shows "sm = RESPONDED \<and> (\<forall>rr. res \<noteq> Answer rr) \<and> res \<noteq> Error RoutingFailedError"
  using assms
proof (induction ms arbitrary: i now en)
  case (Cons m ms)
  show ?case
  proof (cases "catalog_get (en_catalog en) m")
    case (Inl e)
    then show ?thesis using Cons.prems by (auto simp: catalog_get_def)
  next
    case (Inr c)
    obtain g en1 where g: "attempt_guard now cx c en = (g, en1)" by fastforce
    obtain r sm1 t en2 where dsp: "dispatch d (envs i) cx now c m i RESPONDED en1 = (r, sm1, t, en2)"
      by (metis prod_cases4)
    have r: "sm1 = RESPONDED" "r \<noteq> Some (Inr rr)" for rr using dispatch_again [OF dsp] by auto
    obtain x where x: "r = None \<or> r = Some (Inl x)" using r(2) by (cases r; cases "the r") auto
    obtain h sm2 en3 where h: "handle_failure d t now cx (mc_provider c) x (ms = []) RESPONDED en2 = (h, sm2, en3)"
      by (metis prod_cases3)
    show ?thesis
    proof (cases "ms = []")
      case True
      then show ?thesis using Cons.prems handle_again [OF h] x r(1) h
        by (cases g; cases h) (auto simp: Inr g dsp transition_def)
    next
      case False
      then have "handle_failure d t now cx (mc_provider c) x False RESPONDED en2 = (h, sm2, en3)" using h by simp
      then show ?thesis using Cons False handle_again [OF h] x r(1)
        by (cases g; cases h) (auto simp: Inr g dsp)
    qed
  qed
qed simp



subsection \<open>What an adapter sees\<close>

text \<open>Two runs whose adapters agree on the scrubbed messages of the request.\<close>

definition agree_on_scrubbed :: "deps \<Rightarrow> router_request \<Rightarrow> (nat \<Rightarrow> attempt_env) \<Rightarrow> (nat \<Rightarrow> attempt_env) \<Rightarrow> bool" where
  "agree_on_scrubbed d r envs envs' \<longleftrightarrow> (\<forall>i. envs' i = (envs i)\<lparr> at_outcome := at_outcome (envs' i) \<rparr> \<and>
     (\<forall>m k. at_outcome (envs i) m (dp_scrub d (rq_messages r)) k = at_outcome (envs' i) m (dp_scrub d (rq_messages r)) k))"

lemma respond_outcome_free: "respond d (env\<lparr> at_outcome := f \<rparr>) cx now t p ra pr sm en = respond d env cx now t p ra pr sm en"
proof -
  have "at_ledger_error (env\<lparr> at_outcome := f \<rparr>) = at_ledger_error env"
    "at_audit_error (env\<lparr> at_outcome := f \<rparr>) = at_audit_error env"
    "at_wall_clock (env\<lparr> at_outcome := f \<rparr>) = at_wall_clock env" by simp_all
  then show ?thesis unfolding respond_def respond_spend_def by (simp only:)
qed

lemma dispatch_agree:
  assumes "agree_on_scrubbed d (cx_request cx) envs envs'"
  shows "dispatch d (envs' i) cx now c m j sm en = dispatch d (envs i) cx now c m j sm en"
proof -
  obtain f where f: "envs' i = (envs i)\<lparr> at_outcome := f \<rparr>"
    using assms unfolding agree_on_scrubbed_def by metis
  have same: "at_others (envs' i) = at_others (envs i)" "at_resumed (envs' i) = at_resumed (envs i)"
    "at_outcome (envs' i) m (dp_scrub d (rq_messages (cx_request cx))) (rq_max_tokens (cx_request cx)) =
     at_outcome (envs i) m (dp_scrub d (rq_messages (cx_request cx))) (rq_max_tokens (cx_request cx))"
    using assms by (simp_all add: f, simp add: agree_on_scrubbed_def f)
  have resp: "respond d (envs' i) = respond d (envs i)" by (intro ext) (simp add: f respond_outcome_free)
  show ?thesis unfolding dispatch_def Let_def same resp ..
qed

lemma loop_agree:
  assumes "agree_on_scrubbed d (cx_request cx) envs envs'"
  shows "attempt_loop d envs' cx i now ms sm en = attempt_loop d envs cx i now ms sm en"
proof (induction ms arbitrary: i now sm en)
  case (Cons m ms)
  show ?case unfolding attempt_loop.simps dispatch_agree [OF assms] Cons.IH ..
qed simp

text \<open>
  C22. Adapters only ever receive scrubbed messages: whatever an adapter would do with any other
  messages, the unscrubbed ones of the request among them, makes no difference to the outcome of the
  request or to the state it leaves.
\<close>

theorem adapters_see_scrubbed_messages:
  assumes "agree_on_scrubbed d r envs envs'"
  shows "complete d envs' now r en = complete d envs now r en"
proof -
  have "attempt_loop d envs' cx 0 now ms sm en' = attempt_loop d envs cx 0 now ms sm en'"
    if "start_request d now r en = (Inr (cx, ms), sm, en')" for cx ms sm en'
    using that assms by (intro loop_agree) (auto simp: start_request_def Let_def split: prod.splits sum.splits option.splits)
  then show ?thesis by (auto simp: complete_def split: prod.splits sum.splits)
qed

theorem adapters_see_scrubbed_messages_witness:
  "\<exists>en. new_router default_settings [] {''openai'', ''google'', ''anthropic'', ''moonshot''} = Inr en \<and>
    complete demo_deps (\<lambda>i. (demo_envs 0 i)\<lparr> at_outcome := (\<lambda>m msgs k.
      if list_all (\<lambda>x. cm_content x = ''[REDACTED]'') msgs then Responded demo_response else Cancelled) \<rparr>) 1 demo_request en =
    complete demo_deps (demo_envs 0) 1 demo_request en"
proof -
  obtain en where en: "new_router default_settings [] {''openai'', ''google'', ''anthropic'', ''moonshot''} = Inr en"
    by (rule demo_router)
  have "agree_on_scrubbed demo_deps demo_request (demo_envs 0) (\<lambda>i. (demo_envs 0 i)\<lparr> at_outcome := (\<lambda>m msgs k.
      if list_all (\<lambda>x. cm_content x = ''[REDACTED]'') msgs then Responded demo_response else Cancelled) \<rparr>)"
    by (simp add: agree_on_scrubbed_def demo_envs_def demo_deps_def list_all_iff)
  from adapters_see_scrubbed_messages [OF this] en show ?thesis by blast
qed

end
