(* ===== verification/Engine_Stream.thy ===== *)
theory Engine_Stream
  imports Engine_Laws
begin

text \<open>
  \<open>complete_stream\<close> of \<open>src/router/engine.py\<close>. A \<open>stream_env\<close> gives what the adapter's stream yields in
  one attempt, text chunks and usage reports, and how it ends: exhausted, by an exception, or closed
  by the consumer (or cancelled), which no handler of the engine catches. What the other tasks and
  the consumer do between two chunks is one change of the shared state, since the method itself
  touches no shared state while it streams. The method returns what it yielded with its result; the
  \<open>on_complete\<close> callback gets the answer afterwards and is left out.
\<close>

subsection \<open>One stream\<close>

datatype stream_item = Chunk string | Report provider_response

datatype stream_end = Ended | Broke provider_exn | Closed

record stream_env = io_env +
  se_stream :: "string \<Rightarrow> chat_message list \<Rightarrow> int \<Rightarrow> stream_item list \<times> stream_end"

fun chunks_of :: "stream_item list \<Rightarrow> string list" where
  "chunks_of [] = []"
| "chunks_of (Chunk c # is) = c # chunks_of is"
| "chunks_of (Report _ # is) = chunks_of is"

text \<open>The last report wins.\<close>

fun reported :: "stream_item list \<Rightarrow> provider_response option" where
  "reported [] = None"
| "reported (Chunk _ # is) = reported is"
| "reported (Report pr # is) = (case reported is of None \<Rightarrow> Some pr | Some pr' \<Rightarrow> Some pr')"

definition assembled :: "stream_item list \<Rightarrow> string" where
  "assembled is = concat (chunks_of is)"

definition output_started :: "stream_item list \<Rightarrow> bool" where
  "output_started is = list_ex (\<lambda>c. c \<noteq> []) (chunks_of is)"

definition stream_response :: "deps \<Rightarrow> string \<Rightarrow> string \<Rightarrow> int \<Rightarrow> stream_item list \<Rightarrow>
    provider_exn + provider_response" where
  "stream_response d provider model prompt_tokens is = (case reported is of
      Some pr \<Rightarrow> Inr (pr\<lparr> pr_content := assembled is, pr_model := model \<rparr>)
    | None \<Rightarrow>
        (let output_tokens = max 1 (int (length (assembled is) div 4));
             cost = dp_adapter_cost d provider model prompt_tokens output_tokens
         in if cost < 0 then Inl (exn_of_error ValueError)
            else Inr \<lparr> pr_content = assembled is, pr_model = model, pr_input_tokens = prompt_tokens,
              pr_output_tokens = output_tokens, pr_cost_usd = cost, pr_finish_reason = Stop \<rparr>))"

subsection \<open>One attempt\<close>

text \<open>The last component is what the attempt yielded.\<close>

definition stream_dispatch :: "deps \<Rightarrow> stream_env \<Rightarrow> request_context \<Rightarrow> rat \<Rightarrow> model_candidate \<Rightarrow> string \<Rightarrow> nat \<Rightarrow>
    request_state \<Rightarrow> engine \<Rightarrow>
    (provider_exn + router_response) option \<times> request_state \<times> rat \<times> engine \<times> stream_item list" where
  "stream_dispatch d env cx now c model attempt_index sm en =
     (let provider = mc_provider c; r = cx_request cx in
      if provider \<notin> en_registered en then (Some (Inl (exn_of_error (KeyError provider))), sm, now, en, [])
      else case mark_dispatched sm of
        Inl e \<Rightarrow> (Some (Inl (exn_of_error e)), sm, now, en, [])
      | Inr sm1 \<Rightarrow>
          (let key = tenant_inflight_key r;
               (is, ending) = se_stream env model (dp_scrub d (rq_messages r)) (rq_max_tokens r);
               en1 = finish_attempt key provider (at_others env (begin_attempt key provider en));
               t = at_resumed env
           in case ending of
                Closed \<Rightarrow> (None, sm1, t, en1, is)
              | Broke x \<Rightarrow> (Some (Inl x), sm1, t, en1, is)
              | Ended \<Rightarrow>
                  (case stream_response d provider model (ts_prompt_tokens_estimate (cx_signals cx)) is of
                     Inl x \<Rightarrow> (Some (Inl x), sm1, t, en1, is)
                   | Inr pr \<Rightarrow>
                       (let (res, sm2, en2) = respond d env cx t now provider
                              (fallback_rationale (cx_rationale cx) model attempt_index) pr sm1 en1
                        in (Some res, sm2, t, en2, is)))))"

text \<open>The handler: once output has started there is no next attempt.\<close>

definition handle_stream_failure :: "deps \<Rightarrow> rat \<Rightarrow> rat \<Rightarrow> request_context \<Rightarrow> string \<Rightarrow> provider_exn \<Rightarrow> bool \<Rightarrow> bool \<Rightarrow>
    request_state \<Rightarrow> engine \<Rightarrow> unit result \<times> request_state \<times> engine" where
  "handle_stream_failure d now attempt_started_at cx provider x started is_last sm en =
     (case record_attempt_failure d now attempt_started_at (cx_request cx) provider x en of
        (Inl e, en1) \<Rightarrow> (Inl e, sm, en1)
      | (Inr _, en1) \<Rightarrow>
          (if started
           then (if sm \<noteq> DISPATCHED then (Inl RoutingFailedError, sm, en1)
                 else case transition sm FAILED of
                   Inl e \<Rightarrow> (Inl e, sm, en1) | Inr sm1 \<Rightarrow> (Inl RoutingFailedError, sm1, en1))
           else if \<not> is_last \<and> sm \<noteq> DISPATCHED then (Inr (), sm, en1)
           else case transition sm (if is_last then FAILED else FALLBACK) of
             Inl e \<Rightarrow> (Inl e, sm, en1)
           | Inr sm1 \<Rightarrow> (Inr (), sm1, en1)))"

subsection \<open>The attempts of one request\<close>

definition yielded :: "string \<Rightarrow> stream_item list \<Rightarrow> (string \<times> string) list" where
  "yielded model is = map (\<lambda>c. (model, c)) (chunks_of is)"

fun stream_loop :: "deps \<Rightarrow> (nat \<Rightarrow> stream_env) \<Rightarrow> request_context \<Rightarrow> nat \<Rightarrow> rat \<Rightarrow> string list \<Rightarrow>
    request_state \<Rightarrow> engine \<Rightarrow> router_response completion \<times> request_state \<times> engine \<times> (string \<times> string) list" where
  "stream_loop d envs cx i now [] sm en = (Error RoutingFailedError, sm, en, [])"
| "stream_loop d envs cx i now (model # models) sm en =
     (case catalog_get (en_catalog en) model of
        Inl e \<Rightarrow> (Error e, sm, en, [])
      | Inr c \<Rightarrow>
          (case attempt_guard now cx c en of
             (Inl _, en1) \<Rightarrow>
               (if models \<noteq> [] then stream_loop d envs cx (Suc i) now models sm en1
                else case transition sm FAILED of
                  Inl e \<Rightarrow> (Error e, sm, en1, [])
                | Inr sm1 \<Rightarrow> stream_loop d envs cx (Suc i) now models sm1 en1)
           | (Inr _, en1) \<Rightarrow>
               (case stream_dispatch d (envs i) cx now c model i sm en1 of
                  (None, sm1, t, en2, is) \<Rightarrow> (Interrupted, sm1, en2, yielded model is)
                | (Some (Inr response), sm1, t, en2, is) \<Rightarrow> (Answer response, sm1, en2, yielded model is)
                | (Some (Inl x), sm1, t, en2, is) \<Rightarrow>
                    (case handle_stream_failure d t now cx (mc_provider c) x (output_started is) (models = []) sm1 en2 of
                       (Inl e, sm2, en3) \<Rightarrow> (Error e, sm2, en3, yielded model is)
                     | (Inr _, sm2, en3) \<Rightarrow>
                         (let (res, sm3, en4, ys) = stream_loop d envs cx (Suc i) t models sm2 en3
                          in (res, sm3, en4, yielded model is @ ys))))))"

definition complete_stream :: "deps \<Rightarrow> (nat \<Rightarrow> stream_env) \<Rightarrow> rat \<Rightarrow> router_request \<Rightarrow> engine \<Rightarrow>
    router_response completion \<times> request_state \<times> engine \<times> (string \<times> string) list" where
  "complete_stream d envs now r en = (case start_request d now r en of
      (Inl e, sm, en1) \<Rightarrow> (Error e, sm, en1, [])
    | (Inr (cx, attempts), sm, en1) \<Rightarrow> stream_loop d envs cx 0 now attempts sm en1)"

subsection \<open>Nothing is spliced\<close>

lemma respond_answer:
  assumes "respond d env cx now t p ra pr sm en = (Inr rr, sm', en')"
  shows "answers cx pr ra rr \<and> sm' = RESPONDED"
proof -
  let ?l = "fmul (fsub now (cx_started_at cx)) 1000" and ?en1 = "respond_statistics now p en"
  obtain x1 where r1: "transition sm RESPONDED = x1" by simp
  obtain x2 en2 where r2: "respond_latency d now ?l t p ?en1 = (x2, en2)" by fastforce
  obtain x3 en3 where r3: "respond_spend env (cx_request cx) p pr en2 = (x3, en3)" by fastforce
  obtain x4 en4 where r4: "respond_windows now (cx_request cx) (cx_signals cx) p pr en3 = (x4, en4)" by fastforce
  have "x1 = Inr u \<Longrightarrow> u = RESPONDED" for u using r1 by auto
  then show ?thesis using assms
    by (cases x1; cases x2; cases x3; cases x4; cases "at_audit_error env")
       (auto simp: respond_def Let_def r1 r2 r3 r4 answers_def simp del: transition_Inr split: if_splits)
qed

lemma stream_response_content: "stream_response d p m k is = Inr pr \<Longrightarrow> pr_content pr = assembled is \<and> pr_model pr = m"
  by (auto simp: stream_response_def Let_def split: option.splits if_splits)

lemma dispatch_content:
  "stream_dispatch d env cx now c m i sm en = (Some (Inr rr), sm', t, en', is) \<Longrightarrow>
   rr_content rr = assembled is \<and> rr_model_used rr = m \<and> sm' = RESPONDED"
  using respond_answer stream_response_content
  by (fastforce simp: stream_dispatch_def Let_def answers_def split: if_splits sum.splits prod.splits stream_end.splits)

definition items_of :: "deps \<Rightarrow> (nat \<Rightarrow> stream_env) \<Rightarrow> request_context \<Rightarrow> nat \<Rightarrow> string \<Rightarrow> stream_item list" where
  "items_of d envs cx j m = fst (se_stream (envs j) m (dp_scrub d (rq_messages (cx_request cx))) (rq_max_tokens (cx_request cx)))"

lemma dispatch_items:
  "stream_dispatch d (envs i) cx now c m i sm en = (res, sm', t, en', is) \<Longrightarrow> is = [] \<or> is = items_of d envs cx i m"
  by (auto simp: stream_dispatch_def items_of_def Let_def split: if_splits sum.splits prod.splits stream_end.splits)

definition visible :: "(string \<times> string) list \<Rightarrow> (string \<times> string) list" where
  "visible ys = filter (\<lambda>(m, c). c \<noteq> []) ys"

lemma visible_simps [simp]: "visible [] = []" "visible (xs @ ys) = visible xs @ visible ys"
  by (simp_all add: visible_def)

lemma visible_silent: "\<not> output_started is \<Longrightarrow> visible (yielded m is) = []"
  by (auto simp: output_started_def visible_def yielded_def filter_empty_conv list_ex_iff)

lemma concat_yielded: "concat (map snd (yielded m is)) = assembled is"
  by (simp add: yielded_def assembled_def comp_def)

lemma silent_assembled: "\<not> output_started is \<Longrightarrow> assembled is = []"
  by (simp add: output_started_def assembled_def list_ex_iff)

lemma handle_started: "handle_stream_failure d now t cx p x True l sm en = (res, sm', en') \<Longrightarrow> \<exists>e. res = Inl e"
  by (auto simp: handle_stream_failure_def split: prod.splits sum.splits if_splits)

definition from_one_attempt :: "deps \<Rightarrow> (nat \<Rightarrow> stream_env) \<Rightarrow> request_context \<Rightarrow> nat \<Rightarrow> string list \<Rightarrow>
    (string \<times> string) list \<Rightarrow> bool" where
  "from_one_attempt d envs cx i ms ys \<longleftrightarrow> visible ys = [] \<or>
     (\<exists>j < length ms. visible ys = visible (yielded (ms ! j) (items_of d envs cx (i + j) (ms ! j))))"

lemma one_attempt_first:
  "is = [] \<or> is = items_of d envs cx i m \<Longrightarrow> from_one_attempt d envs cx i (m # ms) (yielded m is)"
  by (auto simp: from_one_attempt_def yielded_def visible_def intro: exI [of _ "0 :: nat"])

lemma one_attempt_later:
  assumes "from_one_attempt d envs cx (Suc i) ms ys" "visible zs = []"
  shows "from_one_attempt d envs cx i (m # ms) (zs @ ys)"
  using assms unfolding from_one_attempt_def
  by (auto intro: exI [of _ "Suc j" for j])

lemma stream_loop_one_attempt:
  assumes "stream_loop d envs cx i now ms sm en = (res, sm', en', ys)"
  shows "from_one_attempt d envs cx i ms ys \<and> (\<forall>rr. res = Answer rr \<longrightarrow> rr_content rr = concat (map snd ys))"
  using assms
proof (induction ms arbitrary: i now sm en res sm' en' ys)
  case Nil
  then show ?case by (auto simp: from_one_attempt_def)
next
  case (Cons m ms)
  show ?case
  proof (cases "catalog_get (en_catalog en) m")
    case (Inl e)
    then show ?thesis using Cons.prems by (auto simp: from_one_attempt_def)
  next
    case (Inr c)
    obtain g en1 where g: "attempt_guard now cx c en = (g, en1)" by fastforce
    show ?thesis
    proof (cases g)
      case (Inl e)
      have "from_one_attempt d envs cx i (m # ms) zs" if "from_one_attempt d envs cx (Suc i) ms zs" for zs
        using one_attempt_later [OF that, of "[]" m] by simp
      then show ?thesis using Cons Inl
        by (auto simp: Inr g from_one_attempt_def [of _ _ _ _ _ "[]"] split: if_splits sum.splits)
    next
      case (Inr u)
      obtain r sm1 t en2 "is" where dsp: "stream_dispatch d (envs i) cx now c m i sm en1 = (r, sm1, t, en2, is)"
        by (metis prod_cases5)
      have its: "from_one_attempt d envs cx i (m # ms) (yielded m is)"
        using dispatch_items [where envs = envs and i = i, OF dsp] by (rule one_attempt_first)
      show ?thesis
      proof (cases "\<exists>x. r = Some (Inl x)")
        case False
        then show ?thesis using Cons.prems its dispatch_content [of d "envs i" cx now c m i sm en1] dsp
          by (cases r; cases "the r")
             (auto simp: \<open>catalog_get _ _ = _\<close> g Inr concat_yielded)
      next
        case True
        then obtain x where x: "r = Some (Inl x)" by blast
        obtain h sm2 en3 where h: "handle_stream_failure d t now cx (mc_provider c) x (output_started is) (ms = []) sm1 en2 = (h, sm2, en3)"
          by (metis prod_cases3)
        show ?thesis
        proof (cases h)
          case (Inl e)
          then show ?thesis using Cons.prems its by (auto simp: \<open>catalog_get _ _ = _\<close> g Inr dsp x h)
        next
          case (Inr v)
          have quiet: "\<not> output_started is" using h Inr handle_started by (metis sum.distinct(1))
          obtain res2 sm3 en4 zs where l: "stream_loop d envs cx (Suc i) t ms sm2 en3 = (res2, sm3, en4, zs)"
            by (metis prod_cases4)
          have e: "res = res2" "ys = yielded m is @ zs"
            using Cons.prems h Inr by (simp_all add: \<open>catalog_get _ _ = _\<close> g \<open>g = Inr u\<close> dsp x l)
          show ?thesis using Cons.IH [OF l] one_attempt_later [OF _ visible_silent [OF quiet]] silent_assembled [OF quiet]
            by (simp add: e concat_yielded)
        qed
      qed
    qed
  qed
qed

text \<open>
  C23. A stream is never spliced: all the text the caller receives comes from one attempt, so from one
  model, whatever fails and falls back, and the answer reported at the end has exactly the text that
  was streamed.
\<close>

theorem streamed_text_is_one_answer:
  "case complete_stream d envs now r en of (res, sm, en', ys) \<Rightarrow>
    (visible ys = [] \<or> (\<exists>j m. visible ys = visible (yielded m
      (fst (se_stream (envs j) m (dp_scrub d (rq_messages r)) (rq_max_tokens r)))))) \<and>
    (case res of Answer rr \<Rightarrow> rr_content rr = concat (map snd ys) | _ \<Rightarrow> True)"
proof -
  obtain x sm1 en1 where st: "start_request d now r en = (x, sm1, en1)" by (metis prod_cases3)
  show ?thesis
  proof (cases x)
    case (Inl e)
    then show ?thesis by (simp add: complete_stream_def st)
  next
    case (Inr ca)
    obtain cx ms where ca: "ca = (cx, ms)" by fastforce
    then have r: "cx_request cx = r" using st Inr
      by (auto simp: start_request_def Let_def split: prod.splits sum.splits option.splits)
    obtain res sm en' ys where l: "stream_loop d envs cx 0 now ms sm1 en1 = (res, sm, en', ys)" by (metis prod_cases4)
    show ?thesis using stream_loop_one_attempt [OF l]
      by (auto simp: complete_stream_def st Inr ca l from_one_attempt_def items_of_def r split: completion.splits)
  qed
qed

subsection \<open>A stream settles\<close>

definition clean_stream :: "deps \<Rightarrow> (nat \<Rightarrow> stream_env) \<Rightarrow> rat \<Rightarrow> bool" where
  "clean_stream d envs now \<longleftrightarrow> (\<forall>i. clean_io (envs i) \<and> now \<le> at_resumed (envs i) \<and>
     at_resumed (envs i) \<le> at_resumed (envs (Suc i)) \<and>
     (\<forall>m msgs k pr. reported (fst (se_stream (envs i) m msgs k)) = Some pr \<longrightarrow> wf_response pr)) \<and>
   (\<forall>p m i n. 0 \<le> dp_adapter_cost d p m i n)"

definition stream_others_keep :: "(engine \<Rightarrow> 'x) \<Rightarrow> (nat \<Rightarrow> stream_env) \<Rightarrow> bool" where
  "stream_others_keep f envs \<longleftrightarrow> (\<forall>i en. f (at_others (envs i) en) = f en)"

lemma stream_response_wf:
  assumes "clean_stream d envs now0" "fst (se_stream (envs i) m msgs k) = is" "0 \<le> tokens"
  obtains pr where "stream_response d p m' tokens is = Inr pr" "wf_response pr"
proof -
  have "\<forall>pr. reported is = Some pr \<longrightarrow> wf_response pr" "0 \<le> dp_adapter_cost d p m' tokens n" for n
    using assms(1,2) by (auto simp: clean_stream_def)
  then show thesis using assms(3)
    by (cases "reported is") (auto simp: stream_response_def Let_def not_less wf_response_def intro!: that)
qed

lemma stream_dispatch_clean:
  assumes "mc_provider c \<noteq> []" "sm \<in> {ROUTED, FALLBACK}" "clean_stream d envs now0" "cx_started_at cx \<le> now"
    "now \<le> at_resumed (envs i)" "0 \<le> ts_prompt_tokens_estimate (cx_signals cx)"
    and dsp: "stream_dispatch d (envs i) cx now c m i sm en = (res, sm1, t, en2, is)"
  shows "(case res of
      None \<Rightarrow> sm1 = DISPATCHED
    | Some (Inl x) \<Rightarrow> sm1 \<in> {ROUTED, FALLBACK, DISPATCHED} \<and> (output_started is \<longrightarrow> sm1 = DISPATCHED) \<and>
        now \<le> t \<and> t \<le> at_resumed (envs (Suc i))
    | Some (Inr rr) \<Rightarrow> sm1 = RESPONDED)"
proof (cases "mc_provider c \<in> en_registered en")
  case False
  have "now \<le> at_resumed (envs (Suc i))" using assms(3,5) by (auto simp: clean_stream_def intro: order_trans)
  with False dsp show ?thesis using assms(2) by (auto simp: stream_dispatch_def output_started_def Let_def)
next
  case True
  have md: "mark_dispatched sm = Inr DISPATCHED" using assms(2) by (auto simp: mark_dispatched_def transition_def)
  have io: "clean_io (envs i)" "at_resumed (envs i) \<le> at_resumed (envs (Suc i))" using assms(3) by (auto simp: clean_stream_def)
  obtain its ending where s: "se_stream (envs i) m (dp_scrub d (rq_messages (cx_request cx))) (rq_max_tokens (cx_request cx)) = (its, ending)"
    by fastforce
  obtain pr where pr: "stream_response d (mc_provider c) m (ts_prompt_tokens_estimate (cx_signals cx)) its = Inr pr" "wf_response pr"
    using stream_response_wf [OF assms(3) _ assms(6)] s by (metis fst_conv)
  have "lifecycle_step DISPATCHED RESPONDED" "cx_started_at cx \<le> at_resumed (envs i)"
    using assms(4,5) by (auto simp: lifecycle_step_simps)
  note rc = respond_clean [OF this(1) assms(1,5) this(2) pr(2) assms(6) io(1), of d "fallback_rationale (cx_rationale cx) m i"]
  define e1 where "e1 = finish_attempt (tenant_inflight_key (cx_request cx)) (mc_provider c)
    (at_others (envs i) (begin_attempt (tenant_inflight_key (cx_request cx)) (mc_provider c) en))"
  obtain rr e2 where "respond d (envs i) cx (at_resumed (envs i)) now (mc_provider c)
      (fallback_rationale (cx_rationale cx) m i) pr DISPATCHED e1 = (Inr rr, RESPONDED, e2)" by (rule rc [of e1])
  then have "stream_dispatch d (envs i) cx now c m i sm en = (case ending of
      Ended \<Rightarrow> (Some (Inr rr), RESPONDED, at_resumed (envs i), e2, its)
    | Broke x \<Rightarrow> (Some (Inl x), DISPATCHED, at_resumed (envs i), e1, its)
    | Closed \<Rightarrow> (None, DISPATCHED, at_resumed (envs i), e1, its))"
    using True unfolding e1_def by (simp add: stream_dispatch_def Let_def md s pr(1) split: stream_end.splits)
  then show ?thesis using dsp assms(5) io(2) by (cases ending) auto
qed

lemma stream_view_keeps:
  assumes "stream_others_keep en_catalog envs"
  shows "stream_dispatch d (envs i) cx now c m j sm en = (res, sm1, t, en2, is) \<Longrightarrow> en_catalog en2 = en_catalog en"
    "handle_stream_failure d now' t' cx p x l l' sm en = (h, sm2, en3) \<Longrightarrow> en_catalog en3 = en_catalog en"
proof -
  have fin: "en_catalog (finish_attempt k p (at_others (envs i) (begin_attempt k p e))) = en_catalog e" for k p e
    using assms by (simp add: stream_others_keep_def)
  have resp: "respond d (envs i) cx a b p ra pr s e = (x, s', e') \<Longrightarrow> en_catalog e' = en_catalog e" for a b p ra pr s e x s' e'
    using respond_keeps(1) [of d "envs i" cx a b p ra pr s e] by simp
  have failed: "record_attempt_failure d now' t' r p x en = (a, b) \<Longrightarrow> en_catalog b = en_catalog en" for r a b
    using failure_keeps(1) by (metis snd_conv)
  show "stream_dispatch d (envs i) cx now c m j sm en = (res, sm1, t, en2, is) \<Longrightarrow> en_catalog en2 = en_catalog en"
    using resp fin by (fastforce simp: stream_dispatch_def Let_def split: if_splits sum.splits prod.splits stream_end.splits)
  show "handle_stream_failure d now' t' cx p x l l' sm en = (h, sm2, en3) \<Longrightarrow> en_catalog en3 = en_catalog en"
    using failed by (auto simp: handle_stream_failure_def split: prod.splits sum.splits if_splits)
qed

lemma handle_stream_ok:
  assumes "p \<noteq> []" "t \<le> now" "sm \<in> {ROUTED, FALLBACK, DISPATCHED}" "started \<longrightarrow> sm = DISPATCHED"
    "handle_stream_failure d now t cx p x started l sm en = (h, sm2, en3)"
  shows "if started then h = Inl RoutingFailedError \<and> sm2 = FAILED
    else h = Inr () \<and> sm2 = (if l then FAILED else if sm = DISPATCHED then FALLBACK else sm)"
  using record_failure_ok [OF assms(1,2), of d "cx_request cx" x en] assms(3-5)
  by (auto simp: handle_stream_failure_def transition_def split: prod.splits sum.splits if_splits)

lemma stream_loop_settles:
  assumes "clean_stream d envs now0" "0 \<le> ts_prompt_tokens_estimate (cx_signals cx)" "stream_others_keep en_catalog envs"
    "ms \<noteq> []" "\<forall>m \<in> set ms. \<exists>c. map_of (en_catalog en) m = Some c \<and> mc_provider c \<noteq> []"
    "sm \<in> {ROUTED, FALLBACK}" "cx_started_at cx \<le> now" "now \<le> at_resumed (envs i)"
    "stream_loop d envs cx i now ms sm en = (res, sm', en', ys)"
  shows "settled res sm'"
  using assms(4-9)
proof (induction ms arbitrary: i now sm en res sm' en' ys)
  case (Cons m ms)
  from Cons.prems(2) obtain c where "map_of (en_catalog en) m = Some c" and p: "mc_provider c \<noteq> []" by auto
  then have c: "catalog_get (en_catalog en) m = Inr c" by (simp add: catalog_get_def)
  have later: "now \<le> at_resumed (envs (Suc i))"
    using assms(1) Cons.prems(5) by (auto simp: clean_stream_def intro: order_trans)
  obtain g en1 where g: "attempt_guard now cx c en = (g, en1)" by fastforce
  then have g1: "en_catalog en1 = en_catalog en" using guard_keeps(1) by (metis snd_conv)
  show ?case
  proof (cases g)
    case (Inl e)
    have "transition sm FAILED = Inr FAILED" using Cons.prems(3) by (auto simp: transition_def)
    then show ?thesis using Cons.prems Cons.IH [of en1 sm now "Suc i" res sm' en' ys] later g1 Inl
      by (cases "ms = []") (auto simp: c g simp del: transition_Inr)
  next
    case (Inr u)
    obtain r sm1 t en2 "is" where dsp: "stream_dispatch d (envs i) cx now c m i sm en1 = (r, sm1, t, en2, is)"
      by (metis prod_cases5)
    note cln = stream_dispatch_clean [where envs = envs and i = i, OF p Cons.prems(3) assms(1) Cons.prems(4,5) assms(2) dsp]
    show ?thesis
    proof (cases "\<exists>x. r = Some (Inl x)")
      case False
      then show ?thesis using Cons.prems cln by (cases r; cases "the r") (auto simp: c g Inr dsp)
    next
      case True
      then obtain x where x: "r = Some (Inl x)" by blast
      obtain h sm2 en3 where h: "handle_stream_failure d t now cx (mc_provider c) x (output_started is) (ms = []) sm1 en2 = (h, sm2, en3)"
        by (metis prod_cases3)
      have ok: "if output_started is then h = Inl RoutingFailedError \<and> sm2 = FAILED
        else h = Inr () \<and> sm2 = (if ms = [] then FAILED else if sm1 = DISPATCHED then FALLBACK else sm1)"
        using cln x p h by (intro handle_stream_ok) auto
      have cat: "en_catalog en3 = en_catalog en"
        using stream_view_keeps [OF assms(3)] dsp h g1 by metis
      obtain res2 sm3 en4 zs where l: "stream_loop d envs cx (Suc i) t ms sm2 en3 = (res2, sm3, en4, zs)" by (metis prod_cases4)
      show ?thesis
      proof (cases "output_started is \<or> ms = []")
        case True
        then show ?thesis using Cons.prems ok h by (auto simp: c g Inr dsp x split: if_splits)
      next
        case False
        then have hv: "h = Inr ()" using ok by simp
        have "res = res2" "sm' = sm3" using Cons.prems(6) h False by (simp_all add: c g Inr dsp x l hv)
        moreover have "settled res2 sm3"
          using Cons.IH [OF _ _ _ _ _ l] Cons.prems cln x ok cat False by (auto split: if_splits)
        ultimately show ?thesis by simp
      qed
    qed
  qed
qed simp



end
