(* ===== verification/Wiring_Laws.thy ===== *)
theory Wiring_Laws
  imports Wiring Session_Laws Engine_Failover Engine_Stream
begin

text \<open>
  What the wired strategies keep of the engine, and the properties of the router as it is built.
\<close>

subsection \<open>The contract of the engine\<close>

text \<open>
  A view of the engine the strategies do not touch: it reads none of the statistics that a choice
  changes.
\<close>

definition blind :: "(engine \<Rightarrow> 'x) \<Rightarrow> bool" where
  "blind f \<longleftrightarrow> (\<forall>en. (\<forall>x. f (en\<lparr> en_family_spend := x \<rparr>) = f en) \<and> (\<forall>x. f (en\<lparr> en_token_buckets := x \<rparr>) = f en) \<and>
     (\<forall>x. f (en\<lparr> en_tier_requests := x \<rparr>) = f en) \<and> (\<forall>x. f (en\<lparr> en_request_shares := x \<rparr>) = f en) \<and>
     (\<forall>x. f (en\<lparr> en_tenant_buckets := x \<rparr>) = f en) \<and> (\<forall>x. f (en\<lparr> en_hourly_spend := x \<rparr>) = f en) \<and>
     (\<forall>x. f (en\<lparr> en_token_rpm := x \<rparr>) = f en) \<and> (\<forall>x. f (en\<lparr> en_hysteresis := x \<rparr>) = f en) \<and>
     (\<forall>x. f (en\<lparr> en_cascade := x \<rparr>) = f en) \<and> (\<forall>x. f (en\<lparr> en_error_reset := x \<rparr>) = f en) \<and>
     (\<forall>x. f (en\<lparr> en_sessions := x \<rparr>) = f en))"

definition rule_models :: "string set" where
  "rule_models = {ANTHROPIC_SAFETY_MODEL, OPENAI_FRONTIER_MODEL, GEMINI_FLASH_MODEL, OPENAI_BALANCED_MODEL,
     MOONSHOT_BALANCED_MODEL}"

text \<open>
  The errors a strategy may raise for a request: a tenant over its budget or its burst quota, and,
  unless the metadata holds texts only, a failing conversion of it
\<close>

definition refusals :: "router_request \<Rightarrow> py_error set" where
  "refusals r = {TenantBudgetExceededError (tenant_scope r), TenantQuotaBurstExceededError (tenant_scope r)} \<union>
     (if text_metadata r then {} else conversion_errors)"

text \<open>The statistics of the session strategies are well-formed.\<close>

definition sessions_sound :: "engine \<Rightarrow> bool" where
  "sessions_sound en \<longleftrightarrow> sessions_ok (en_sessions en)"

definition chooser_ok :: "catalog \<Rightarrow> chooser \<Rightarrow> bool" where
  "chooser_ok cat ch \<longleftrightarrow> (\<forall>now r s en dec en'. ch now r s en = (Inr dec, en') \<longrightarrow> wf_catalog cat \<longrightarrow> decision_ok cat dec)"

definition chooser_decides :: "catalog \<Rightarrow> chooser \<Rightarrow> bool" where
  "chooser_decides cat ch \<longleftrightarrow> (\<forall>now r s en. wf_catalog cat \<longrightarrow> rule_models \<subseteq> fst ` set cat \<longrightarrow> sessions_sound en \<longrightarrow>
     (\<exists>dec. fst (ch now r s en) = Inr dec) \<or> fst (ch now r s en) \<in> Inl ` refusals r)"

definition chooser_keeps :: "(engine \<Rightarrow> 'x) \<Rightarrow> chooser \<Rightarrow> bool" where
  "chooser_keeps f ch \<longleftrightarrow> (\<forall>now r s en. f (snd (ch now r s en)) = f en \<and> (sessions_sound en \<longrightarrow> sessions_sound (snd (ch now r s en))))"

definition good_chooser :: "(engine \<Rightarrow> 'x) \<Rightarrow> catalog \<Rightarrow> chooser \<Rightarrow> bool" where
  "good_chooser f cat ch \<longleftrightarrow> chooser_ok cat ch \<and> chooser_decides cat ch \<and> chooser_keeps f ch"

definition good_entry :: "(engine \<Rightarrow> 'x) \<Rightarrow> catalog \<Rightarrow> strategy_name \<times> chooser result \<Rightarrow> bool" where
  "good_entry f cat e = (case snd e of Inl x \<Rightarrow> True | Inr ch \<Rightarrow> good_chooser f cat ch)"

lemma good_plain: "good_chooser f cat (st cat) \<Longrightarrow> good_entry f cat (name, plain st cat)"
  by (simp add: good_entry_def plain_def)

lemma good_configured:
  "(\<And>x. mk = Inr x \<Longrightarrow> good_chooser f cat (st x cat)) \<Longrightarrow> good_entry f cat (name, configured mk st cat)"
  by (cases mk) (simp_all add: good_entry_def configured_def)

lemma good_total:
  assumes "\<And>now en. total_strategy (pick now en)" shows "good_chooser f cat (read_only pick cat)"
  using total_strategy.total [OF assms] routing_strategy.chosen [OF total_strategy.axioms(1) [OF assms]]
  by (auto simp: good_chooser_def chooser_ok_def chooser_decides_def chooser_keeps_def read_only_def)

lemma good_cases:
  assumes "\<And>now en r s d. wf_catalog cat \<Longrightarrow> pick now en cat r s = Inr d \<Longrightarrow> decision_ok cat d"
    "\<And>now en r s. wf_catalog cat \<Longrightarrow> rule_models \<subseteq> fst ` set cat \<Longrightarrow> \<exists>d. pick now en cat r s = Inr d"
  shows "good_chooser f cat (read_only pick cat)"
  using assms by (auto simp: good_chooser_def chooser_ok_def chooser_decides_def chooser_keeps_def read_only_def)

lemma good_metadata:
  assumes "\<And>now en. metadata_strategy (pick now en)" shows "good_chooser f cat (read_only pick cat)"
proof -
  have ok: "pick now en cat r s = Inr d \<Longrightarrow> decision_ok cat d" if "wf_catalog cat" for now en r s d
    using metadata_strategy.sound [OF assms that, of r now en s] by (simp add: sound_result_def)
  have "(\<exists>d. pick now en cat r s = Inr d) \<or> pick now en cat r s \<in> Inl ` refusals r" if "wf_catalog cat" for now en r s
    using metadata_strategy.sound [OF assms that, of r now en s]
    by (cases "pick now en cat r s") (auto simp: sound_result_def refusals_def)
  with ok show ?thesis
    unfolding good_chooser_def chooser_ok_def chooser_decides_def chooser_keeps_def read_only_def by simp
qed

lemma good_stateful:
  assumes "\<And>now en cat r s st d. wf_catalog cat \<Longrightarrow> fst (pick now en cat r s st) = Inr d \<Longrightarrow> decision_ok cat d"
    "\<And>now en r s. wf_catalog cat \<Longrightarrow> sessions_sound en \<Longrightarrow> (\<exists>d. fst (pick now en cat r s (get en)) = Inr d) \<or>
      fst (pick now en cat r s (get en)) \<in> Inl ` refusals r"
    "\<And>x en. f (put x en) = f en"
    "\<And>now en r s. sessions_sound en \<Longrightarrow> sessions_sound (put (snd (pick now en cat r s (get en))) en)"
  shows "good_chooser f cat (updating get put pick cat)"
  unfolding good_chooser_def chooser_ok_def chooser_decides_def chooser_keeps_def
  using assms by (auto simp: updating_def split: prod.splits) (metis fst_conv snd_conv)+

lemma good_total_stateful:
  assumes "\<And>now en. total_stateful_strategy (pick now en)" "\<And>x en. f (put x en) = f en"
    "\<And>x en. sessions_sound (put x en) = sessions_sound en"
  shows "good_chooser f cat (updating get put pick cat)"
  using total_stateful_strategy.total [OF assms(1)] stateful_strategy.chosen [OF total_stateful_strategy.axioms(1) [OF assms(1)]]
  by (intro good_stateful) (auto simp: assms(2,3) prod_eq_iff)

lemma rule_based_total: "rule_models \<subseteq> fst ` set cat \<Longrightarrow> \<exists>dec. rule_based_choose cat r s = Inr dec"
  by (auto simp: rule_models_def rule_based_choose_def Let_def intro!: decision_total split: option.splits)

lemma classifier_total: "rule_models \<subseteq> fst ` set cat \<Longrightarrow> \<exists>dec. classifier_choose cat r s = Inr dec"
  by (auto simp: rule_models_def classifier_choose_def Let_def intro!: decision_total)

lemma rule_based_good: "good_chooser f cat (read_only (\<lambda>_ _. rule_based_choose) cat)"
  by (intro good_cases rule_based_total) (rule rule_based.chosen)

lemma classifier_good: "good_chooser f cat (read_only (\<lambda>_ _. classifier_choose) cat)"
  by (intro good_cases classifier_total) (rule classifier.chosen)

lemmas good_intros = conjI list.pred_inject(1) good_plain good_configured

lemma scoring_good: "list_all (good_entry f cat) (scoring_entries sg cat)"
  unfolding scoring_entries_def list.pred_inject(2)
  by (intro good_intros rule_based_good classifier_good good_total
      cost_optimal.total_strategy_axioms latency_aware.total_strategy_axioms pareto.total_strategy_axioms
      least_busy.total_strategy_axioms concurrency_cap.total_strategy_axioms reliability.total_strategy_axioms
      weighted_blend.total_strategy_axioms budget_aware.total_strategy_axioms family_cost_ceiling.total_strategy_axioms
      sticky_session.total_strategy_axioms latency_budget.total_strategy_axioms adaptive_timeout.total_strategy_axioms
      value_routing.total_strategy_axioms complexity_tier.total_strategy_axioms round_robin.total_strategy_axioms
      cascade.total_strategy_axioms epsilon_greedy.total_strategy_axioms adaptive_exploration.total_strategy_axioms
      token_budget.total_strategy_axioms geo_region.total_strategy_axioms region_tier.total_strategy_axioms)

text \<open>Three strategies are right only with the catalog their constructor has checked.\<close>

lemma canary_good: "make_canary cat a b w = Inr cn \<Longrightarrow> good_chooser f cat (read_only (\<lambda>now en. canary_choose cn (up now en)) cat)"
proof (intro good_cases)
  assume "make_canary cat a b w = Inr cn"
  then have ok: "canary_ok cat cn" by (rule make_canary_ok)
  then show "wf_catalog cat \<Longrightarrow> canary_choose cn (up now en) cat r s = Inr d \<Longrightarrow> decision_ok cat d" for now en r s d
    by (rule canary_chosen_ok [rotated])
  from ok obtain k where "map_of cat (cn_canary_model cn) = Some k"
    by (cases "map_of cat (cn_canary_model cn)") (auto simp: canary_ok_def map_of_eq_None_iff)
  from canary_arm [OF ok this] show "\<exists>d. canary_choose cn (up now en) cat r s = Inr d" for now en r s by blast
qed

lemma canary_tier_total:
  assumes wf: "wf_catalog cat" and ok: "canary_ok cat cn"
  shows "\<exists>d. canary_tier_choose cn h cat r s = Inr d"
proof -
  from ok obtain k where k: "map_of cat (cn_canary_model cn) = Some k"
    by (cases "map_of cat (cn_canary_model cn)") (auto simp: canary_ok_def map_of_eq_None_iff)
  have dec: "\<exists>d. canary_decision name cn cat m ra = Inr d" if "m \<in> fst ` set cat" for name :: strategy_name and m ra
    using that by (cases "map_of cat m") (auto simp: canary_decision_def catalog_get_def map_of_eq_None_iff)
  have val: "c \<in> set (eligible cat s) \<Longrightarrow> mc_model c \<in> fst ` set cat" for c by (rule value_model_in [OF wf eligible_value])
  have pick: "\<exists>d. bind_result (of_opt ValueError (max_by g xs)) (\<lambda>c. canary_decision name cn cat (mc_model c) (ra c)) = Inr d"
    if xs: "xs \<noteq> []" "set xs \<subseteq> set (eligible cat s)" for xs ra and name :: strategy_name and g :: "model_candidate \<Rightarrow> rat \<times> rat"
  proof -
    obtain c where c: "max_by g xs = Some c" "c \<in> set xs" using max_by_Some [OF xs(1)] by blast
    from dec [OF val [OF subsetD [OF xs(2) c(2)]]] show ?thesis by (simp add: c(1))
  qed
  show ?thesis
    unfolding canary_tier_choose_def Let_def catalog_get_def k of_opt.simps bind_result.simps
    by (intro pick_if dec pick) (use ok k wf in \<open>auto simp: canary_ok_def\<close>)
qed

lemma canary_tier_good:
  "make_canary cat a b w = Inr cn \<Longrightarrow> good_chooser f cat (read_only (\<lambda>now en. canary_tier_choose cn (up now en)) cat)"
  by (intro good_cases canary_tier_total make_canary_ok) (erule (2) canary_tier_ok [OF _ make_canary_ok])

lemma ab_good: "make_ab cat a b w = Inr ab \<Longrightarrow> good_chooser f cat (read_only (\<lambda>_ _. ab_choose ab) cat)"
  by (intro good_cases ab_total) (rule ab_test.chosen)

lemma failover_priority_total:
  assumes "make_failover_priority cat prefs = Inr order"
  shows "\<exists>d. failover_priority_choose h order cat r s = Inr d"
proof -
  have "order \<noteq> []" "set order \<subseteq> fst ` set cat"
    using assms by (auto simp: make_failover_priority_def Let_def split: if_splits)
  moreover have "\<exists>d. failover_decision cat order m ra = Inr d" if "m \<in> set order" for m ra
    using that calculation(2) by (cases "map_of cat m") (auto simp: failover_decision_def catalog_get_def map_of_eq_None_iff)
  moreover have "m \<in> set order" if "filter P order = m # ms" for P m ms
    using that by (metis filter_is_subset list.set_intros(1) subsetD)
  ultimately show ?thesis
    unfolding failover_priority_choose_def Let_def by (auto split: list.splits)
qed

lemma failover_good:
  "distinct prefs \<Longrightarrow> make_failover_priority cat prefs = Inr order \<Longrightarrow>
    good_chooser f cat (read_only (\<lambda>now en. failover_priority_choose (up now en) order) cat)"
  by (intro good_cases failover_priority_total) (rule failover_priority_ok)

lemma put_blind:
  assumes "blind f"
  shows "f (en\<lparr> en_family_spend := a \<rparr>) = f en" "f (en\<lparr> en_token_buckets := b \<rparr>) = f en"
    "f (en\<lparr> en_tier_requests := c \<rparr>) = f en" "f (en\<lparr> en_request_shares := d \<rparr>) = f en"
    "f (en\<lparr> en_tenant_buckets := e \<rparr>) = f en" "f (en\<lparr> en_hourly_spend := a \<rparr>) = f en"
    "f (en\<lparr> en_token_rpm := g \<rparr>) = f en" "f (en\<lparr> en_hysteresis := h \<rparr>) = f en"
    "f (en\<lparr> en_cascade := i \<rparr>) = f en" "f (en\<lparr> en_error_reset := j \<rparr>) = f en"
    "f (en\<lparr> en_sessions := k \<rparr>) = f en"
  using assms unfolding blind_def by blast+

lemma put_sound:
  "sessions_sound (en\<lparr> en_family_spend := a \<rparr>) = sessions_sound en" "sessions_sound (en\<lparr> en_token_buckets := b \<rparr>) = sessions_sound en"
  "sessions_sound (en\<lparr> en_tier_requests := c \<rparr>) = sessions_sound en" "sessions_sound (en\<lparr> en_request_shares := d \<rparr>) = sessions_sound en"
  "sessions_sound (en\<lparr> en_tenant_buckets := e \<rparr>) = sessions_sound en" "sessions_sound (en\<lparr> en_hourly_spend := a \<rparr>) = sessions_sound en"
  "sessions_sound (en\<lparr> en_token_rpm := g \<rparr>) = sessions_sound en" "sessions_sound (en\<lparr> en_hysteresis := h \<rparr>) = sessions_sound en"
  "sessions_sound (en\<lparr> en_cascade := i \<rparr>) = sessions_sound en" "sessions_sound (en\<lparr> en_error_reset := j \<rparr>) = sessions_sound en"
  by (simp_all add: sessions_sound_def)

lemma put_session:
  assumes "sessions_ok se"
  shows "warmup_ok a \<Longrightarrow> sessions_ok (se\<lparr> se_warmup := a \<rparr>)" "burst_ok b \<Longrightarrow> sessions_ok (se\<lparr> se_quota_burst := b \<rparr>)"
    "migrate_ok c \<Longrightarrow> sessions_ok (se\<lparr> se_migrate := c \<rparr>)" "lookback_ok d \<Longrightarrow> sessions_ok (se\<lparr> se_cold_start := d \<rparr>)"
    "lookback_ok d \<Longrightarrow> sessions_ok (se\<lparr> se_fair_queue := d \<rparr>)" "drains_ok e \<Longrightarrow> sessions_ok (se\<lparr> se_drain := e \<rparr>)"
    "shadow_ok f \<Longrightarrow> sessions_ok (se\<lparr> se_shadow := f \<rparr>)" "pins_ok g \<Longrightarrow> sessions_ok (se\<lparr> se_pins := g \<rparr>)"
    "lookback_ok h \<Longrightarrow> sessions_ok (se\<lparr> se_lanes := h \<rparr>)" "positive_counts i \<Longrightarrow> sessions_ok (se\<lparr> se_probes := i \<rparr>)"
  using assms by (simp_all add: sessions_ok_def)

lemma session_parts:
  assumes "sessions_ok se"
  shows "warmup_ok (se_warmup se)" "burst_ok (se_quota_burst se)" "migrate_ok (se_migrate se)" "lookback_ok (se_cold_start se)"
    "lookback_ok (se_fair_queue se)" "drains_ok (se_drain se)" "shadow_ok (se_shadow se)" "pins_ok (se_pins se)"
    "lookback_ok (se_lanes se)" "positive_counts (se_probes se)"
  using assms by (simp_all add: sessions_ok_def)

lemmas session_keeps = region_warmup_keeps quota_burst_keeps session_migrate_keeps cold_start_keeps fair_queue_keeps
    region_drain_keeps_all shadow_split_keeps pin_expire_keeps priority_lanes_keeps circuit_probe_keeps

lemma good_session:
  assumes "blind f" "\<And>now en cat r s st d. wf_catalog cat \<Longrightarrow> fst (pick now en cat r s st) = Inr d \<Longrightarrow> decision_ok cat d"
    "\<And>now en r s. wf_catalog cat \<Longrightarrow> sessions_sound en \<Longrightarrow> (\<exists>d. fst (pick now en cat r s (get (en_sessions en))) = Inr d) \<or>
      fst (pick now en cat r s (get (en_sessions en))) \<in> Inl ` refusals r"
    "\<And>now en se cat r s. sessions_ok se \<Longrightarrow> sessions_ok (put (snd (pick now en cat r s (get se))) se)"
  shows "good_chooser f cat (in_sessions get put pick cat)"
  unfolding in_sessions_def
  by (intro good_stateful assms(2,3) put_blind [OF assms(1)]) (simp_all add: sessions_sound_def assms(4))

lemma good_total_session:
  assumes "blind f" "\<And>now en. total_stateful_strategy (pick now en)"
    "\<And>now en se cat r s. sessions_ok se \<Longrightarrow> sessions_ok (put (snd (pick now en cat r s (get se))) se)"
  shows "good_chooser f cat (in_sessions get put pick cat)"
  using total_stateful_strategy.total [OF assms(2)] stateful_strategy.chosen [OF total_stateful_strategy.axioms(1) [OF assms(2)]]
  by (intro good_session assms(1,3)) (auto simp: prod_eq_iff)

lemma good_proper_session:
  assumes "blind f" "\<And>now en cat r s st. wf_catalog cat \<Longrightarrow> proper_result cat (fst (pick now en cat r s st))"
    "\<And>now en se cat r s. sessions_ok se \<Longrightarrow> sessions_ok (put (snd (pick now en cat r s (get se))) se)"
  shows "good_chooser f cat (in_sessions get put pick cat)"
  by (intro good_total_session total_statefulI assms)

lemma shedding_good:
  assumes "blind f" "distinct (resolved_failover_priority sg cat)"
  shows "list_all (good_entry f cat) (shedding_entries sg cat)"
  unfolding shedding_entries_def list.pred_inject(2) Let_def
  by (intro good_intros good_total good_total_stateful put_sound put_blind [OF assms(1)] canary_good canary_tier_good
      failover_good [OF assms(2)]
      soft_family_budget.total_stateful_strategy_axioms sticky_region.total_strategy_axioms slo_aware.total_strategy_axioms
      prefix_cache.total_strategy_axioms soft_rate_limit.total_strategy_axioms
      token_bucket_burst.total_stateful_strategy_axioms tier_rate_limit.total_stateful_strategy_axioms
      semantic_cache.total_strategy_axioms health_blend.total_strategy_axioms health_cost_latency.total_strategy_axioms
      latency_slo_shed.total_strategy_axioms shadow_mirror.total_strategy_axioms canary_cost.total_strategy_axioms
      cost_anomaly_shed.total_strategy_axioms)

lemma sticky_good:
  assumes "blind f" shows "list_all (good_entry f cat) (sticky_entries sg cat)"
  unfolding sticky_entries_def list.pred_inject(2) Let_def
  by (intro good_intros good_total good_metadata
      cache_ttl.metadata_strategy_axioms spend_telemetry.metadata_strategy_axioms carbon_aware.metadata_strategy_axioms
      region_carbon.metadata_strategy_axioms tenant_lease.total_strategy_axioms timeout_hedge.total_strategy_axioms good_total_stateful put_sound put_blind [OF assms(1)]
      sticky_tenant.total_strategy_axioms region_hedge.total_strategy_axioms prompt_length_shed.total_strategy_axioms
      retry_budget.total_strategy_axioms warm_pool.total_strategy_axioms embedding_namespace.total_strategy_axioms
      half_open_probe.total_strategy_axioms error_budget_shed.total_strategy_axioms region_p99_shed.total_strategy_axioms
      sticky_canary.total_strategy_axioms queue_depth.total_strategy_axioms quota_fair_share.total_stateful_strategy_axioms
      token_bucket_tenant.total_stateful_strategy_axioms weight_decay.total_strategy_axioms
      retry_after.total_strategy_axioms latency_slope_shed.total_strategy_axioms)

lemma refused:
  "(\<not> P \<Longrightarrow> \<exists>d. y = Inr d) \<Longrightarrow> e \<in> refusals r \<Longrightarrow> (\<exists>d. (if P then Inl e else y) = Inr d) \<or> (if P then Inl e else y) \<in> Inl ` refusals r"
  by auto

lemma budget_cascade_good:
  assumes "blind f"
  shows "good_chooser f cat (updating en_cascade (\<lambda>x en. en\<lparr> en_cascade := x \<rparr>) (\<lambda>now _. budget_cascade_choose now b) cat)"
proof (intro good_stateful put_blind [OF assms])
  show "wf_catalog cat \<Longrightarrow> fst (budget_cascade_choose now b cat r s st) = Inr d \<Longrightarrow> decision_ok cat d" for now cat r s st d
    using budget_cascade.chosen by (metis prod.collapse)
  show "(\<exists>d. fst (budget_cascade_choose now b cat r s st) = Inr d) \<or>
      fst (budget_cascade_choose now b cat r s st) \<in> Inl ` refusals r" for now r s st
    unfolding budget_cascade_choose_def Let_def case_prod_beta fst_conv
    by (rule refused) (intro pick_if pick_rest_total by_None, simp_all add: refusals_def)
qed (simp add: put_sound)

lemma quota_burst_good:
  assumes "blind f"
  shows "good_chooser f cat (in_sessions se_quota_burst (\<lambda>x se. se\<lparr> se_quota_burst := x \<rparr>) (\<lambda>now _. quota_burst_choose now quotas) cat)"
proof (intro good_session assms put_session quota_burst_keeps session_parts(2); assumption?)
  obtain soft hard where q: "quotas = (soft, hard)" by fastforce
  show "wf_catalog cat \<Longrightarrow> fst (quota_burst_choose now quotas cat r s st) = Inr d \<Longrightarrow> decision_ok cat d" for now cat r s st d
    using quota_burst.chosen by (metis prod.collapse)
  show "(\<exists>d. fst (quota_burst_choose now quotas cat r s st) = Inr d) \<or>
      fst (quota_burst_choose now quotas cat r s st) \<in> Inl ` refusals r" if "wf_catalog cat" for now r s st
    using quota_burst_refuses [of hard now r st soft cat s] quota_burst_admits(1) [OF that, of hard now r st soft s]
    unfolding q by (cases "hard \<le> fst (qb_usage now (tenant_scope r) st)") (auto simp: refusals_def proper_result_def)
qed

lemma region_drain_good:
  assumes "blind f" "clean_regions regions \<noteq> []"
  shows "good_chooser f cat (in_sessions se_drain (\<lambda>x se. se\<lparr> se_drain := x \<rparr>)
    (\<lambda>now en. region_drain_choose (up now en) (clean_regions regions) draining) cat)"
proof (intro good_session assms(1) put_session region_drain_keeps_all session_parts(6); assumption?)
  show "wf_catalog cat \<Longrightarrow> fst (region_drain_choose (up now en) (clean_regions regions) draining cat r s st) = Inr d \<Longrightarrow>
      decision_ok cat d" for now en cat r s st d by (rule region_drain_chosen)
  show "(\<exists>d. fst (region_drain_choose (up now en) (clean_regions regions) draining cat r s (se_drain (en_sessions en))) = Inr d) \<or>
      fst (region_drain_choose (up now en) (clean_regions regions) draining cat r s (se_drain (en_sessions en))) \<in> Inl ` refusals r"
    if "wf_catalog cat" "sessions_sound en" for now en r s
    using region_drain_total [OF that(1) assms(2)] clean_regions_proper session_parts(6) that(2)
    unfolding sessions_sound_def drains_ok_def by blast
qed

lemma configured_sessions_good:
  assumes "blind f"
  shows "make_region_warmup regions n = Inr config \<Longrightarrow> good_chooser f cat
      (in_sessions se_warmup (\<lambda>x se. se\<lparr> se_warmup := x \<rparr>) (\<lambda>now en. region_warmup_choose (up now en) config) cat)"
    "make_pin_expire ttl = Inr x \<Longrightarrow> good_chooser f cat
      (in_sessions se_pins (\<lambda>x se. se\<lparr> se_pins := x \<rparr>) (\<lambda>now en. pin_expire_choose now (up now en) x) cat)"
    "make_priority_lanes high low hq nq lq = Inr lc \<Longrightarrow> good_chooser f cat
      (in_sessions se_lanes (\<lambda>x se. se\<lparr> se_lanes := x \<rparr>) (\<lambda>now en. priority_lanes_choose (up now en) (en_latency en) lc) cat)"
proof -
  show "make_region_warmup regions n = Inr config \<Longrightarrow> good_chooser f cat
      (in_sessions se_warmup (\<lambda>x se. se\<lparr> se_warmup := x \<rparr>) (\<lambda>now en. region_warmup_choose (up now en) config) cat)"
    by (intro good_proper_session [OF assms] put_session session_keeps session_parts; (rule region_warmup_total)?)
  show "make_pin_expire ttl = Inr x \<Longrightarrow> good_chooser f cat
      (in_sessions se_pins (\<lambda>x se. se\<lparr> se_pins := x \<rparr>) (\<lambda>now en. pin_expire_choose now (up now en) x) cat)"
    by (intro good_proper_session [OF assms] put_session session_keeps session_parts pin_expire_proper) (auto simp: make_pin_expire_def split: if_splits)
  show "make_priority_lanes high low hq nq lq = Inr lc \<Longrightarrow> good_chooser f cat
      (in_sessions se_lanes (\<lambda>x se. se\<lparr> se_lanes := x \<rparr>) (\<lambda>now en. priority_lanes_choose (up now en) (en_latency en) lc) cat)"
    by (intro good_proper_session [OF assms] put_session session_keeps session_parts; (rule priority_lanes_total)?)
qed

lemmas session_axioms = tail_hedge.total_strategy_axioms session_migrate.total_stateful_strategy_axioms
    cold_start.total_stateful_strategy_axioms fair_queue.total_stateful_strategy_axioms
    shadow_split.total_stateful_strategy_axioms

lemma session_good:
  assumes "blind f" "clean_regions (sg_sticky_region_failover_preferences sg) \<noteq> []"
  shows "list_all (good_entry f cat) (session_entries sg cat)"
  unfolding session_entries_def list.pred_inject(2) Let_def
  by (intro good_intros; (erule configured_sessions_good [OF assms(1)] | rule quota_burst_good [OF assms(1)] region_drain_good [OF assms]
      | (intro good_total good_total_session [OF assms(1)] put_session session_keeps session_parts; (rule session_axioms)?)))

lemma guard_good: "list_all (good_entry f cat) (guard_entries sg cat)"
  unfolding guard_entries_def list.pred_inject(2) Let_def
  by (intro good_intros good_total good_metadata request_classes.total_strategy_axioms deadline.metadata_strategy_axioms
      success_floor.total_strategy_axioms capability_gate.total_strategy_axioms warmup_weight.metadata_strategy_axioms
      soft_isolation.metadata_strategy_axioms exclusion.total_strategy_axioms injection_shed.metadata_strategy_axioms
      thinking.metadata_strategy_axioms long_context.metadata_strategy_axioms)

lemma window_good:
  assumes "blind f" shows "list_all (good_entry f cat) (window_entries sg cat)"
  unfolding window_entries_def list.pred_inject(2) Let_def
  by (intro good_intros budget_cascade_good good_total_session put_session session_keeps session_parts good_metadata
      circuit_probe.total_stateful_strategy_axioms carbon_latency.metadata_strategy_axioms good_total good_total_stateful put_sound put_blind assms
      hourly_ceiling.total_stateful_strategy_axioms quality_sticky.total_strategy_axioms
      token_rpm.total_stateful_strategy_axioms adaptive_concurrency.total_strategy_axioms
      token_fair_share.total_stateful_strategy_axioms region_hysteresis.total_stateful_strategy_axioms
      error_budget_reset.total_stateful_strategy_axioms)

lemma prefer_good: "list_all (good_entry f cat) (prefer_entries sg cat)"
  unfolding prefer_entries_def Let_def list_all_iff set_map
  by (intro ballI, elim imageE, simp only:) (intro good_plain good_total preferring.total_strategy_axioms)

lemma entries_good:
  assumes "blind f" "distinct (resolved_failover_priority sg cat)" "clean_regions (sg_sticky_region_failover_preferences sg) \<noteq> []"
  shows "list_all (good_entry f cat) (strategy_entries sg cat)"
  unfolding strategy_entries_def list_all_append list.pred_inject(2)
  by (intro good_intros scoring_good shedding_good sticky_good window_good session_good guard_good prefer_good ab_good assms)

lemma all_built_good:
  "all_built es = Inr chs \<Longrightarrow> list_all (good_entry f cat) es \<Longrightarrow> (name, ch) \<in> set chs \<Longrightarrow> good_chooser f cat ch"
  by (induction es arbitrary: chs rule: all_built.induct) (auto simp: bind_result_Inr good_entry_def)

lemma all_built_names: "all_built es = Inr chs \<Longrightarrow> map fst chs = map fst es"
  by (induction es arbitrary: chs rule: all_built.induct) (auto simp: bind_result_Inr)

lemma all_built_entry: "all_built es = Inr chs \<Longrightarrow> (name, e) \<in> set es \<Longrightarrow> \<exists>ch. e = Inr ch"
  by (induction es arbitrary: chs rule: all_built.induct) (auto simp: bind_result_Inr)

text \<open>The region warm-up strategy would not have been built without a region, so the drain strategy has one.\<close>

lemma built_regions:
  assumes "build_strategies sg cat = Inr strategies" shows "clean_regions (sg_sticky_region_failover_preferences sg) \<noteq> []"
proof -
  have "(''sticky-region-warmup'', configured (make_region_warmup (sg_sticky_region_failover_preferences sg)
      (xg_sticky_region_warmup_requests (sg_more sg)))
      (\<lambda>config. in_sessions se_warmup (\<lambda>x se. se\<lparr> se_warmup := x \<rparr>) (\<lambda>now en. region_warmup_choose (up now en) config)) cat)
    \<in> set (strategy_entries sg cat)"
    unfolding strategy_entries_def session_entries_def Let_def by simp
  from all_built_entry [OF assms [unfolded build_strategies_def] this] show ?thesis
    by (auto simp: configured_def bind_result_Inr make_region_warmup_def Let_def split: if_splits)
qed

lemma wired_good:
  assumes "build_strategies sg cat = Inr strategies" "distinct (resolved_failover_priority sg cat)" "blind f"
    "dp_strategies (wired d strategies) name = Some ch"
  shows "good_chooser f cat ch"
  using all_built_good [OF assms(1) [unfolded build_strategies_def] entries_good [OF assms(3,2) built_regions [OF assms(1)]]] assms(4)
  by (auto simp: wired_def dest: map_of_SomeD)

lemma wired_contract:
  assumes "build_strategies sg cat = Inr strategies" "distinct (resolved_failover_priority sg cat)" "blind f"
  shows "strategies_ok cat (wired d strategies)" "strategies_keep f (wired d strategies)"
  using wired_good [OF assms, of d]
  unfolding strategies_ok_def strategies_keep_def good_chooser_def chooser_ok_def chooser_keeps_def by blast+

lemma wired_sessions:
  assumes "build_strategies sg cat = Inr strategies" "distinct (resolved_failover_priority sg cat)"
    "dp_strategies (wired d strategies) name = Some ch" "sessions_sound en"
  shows "sessions_sound (snd (ch now r s en))"
  using wired_good [OF assms(1,2) _ assms(3), of en_catalog] assms(4)
  by (auto simp: blind_def good_chooser_def chooser_keeps_def)

lemma new_router_sessions: "new_router st cat registered = Inr en \<Longrightarrow> sessions_sound en"
  by (auto simp: new_router_def bind_result_Inr sessions_sound_def intro: new_session_state_ok)

text \<open>With the default settings and the built-in catalog no constructor raises.\<close>

lemma all_built_ok: "list_all (\<lambda>e. \<exists>ch. snd e = Inr ch) es \<Longrightarrow> \<exists>chs. all_built es = Inr chs"
  by (induction es rule: all_built.induct) auto

lemma configured_ok: "\<exists>x. mk = Inr x \<Longrightarrow> \<exists>ch. snd (name, configured mk st cat) = Inr ch"
  by (auto simp: configured_def)

lemma plain_ok: "\<exists>ch. snd (name, plain st cat) = Inr ch"
  by (simp add: plain_def)

lemma fl_fraction: "0 \<le> x \<Longrightarrow> 0 \<le> fl x" "x \<le> 1 \<Longrightarrow> fl x \<le> 1" "0 \<le> x \<Longrightarrow> \<not> fl x < 0" "\<not> fl (1/5) < fl (1/50)"
  using fl_mono [of x 1] fl_mono [of "1/50" "1/5"] by (auto simp: fl_nonneg not_less)

lemma normalized_weights_ok: "\<forall>w \<in> set ws. 0 \<le> w \<Longrightarrow> \<exists>x. normalized_weights ws pure = Inr x"
  by (auto simp: normalized_weights_def Let_def list_ex_iff not_less)

lemma default_models:
  "ANTHROPIC_SAFETY_MODEL \<in> fst ` set default_model_catalog" "OPENAI_FRONTIER_MODEL \<in> fst ` set default_model_catalog"
  "GEMINI_FLASH_MODEL \<in> fst ` set default_model_catalog" "OPENAI_BALANCED_MODEL \<in> fst ` set default_model_catalog"
  "MOONSHOT_BALANCED_MODEL \<in> fst ` set default_model_catalog" "ANTHROPIC_FAST_MODEL \<in> fst ` set default_model_catalog"
  "GEMINI_PRO_MODEL \<in> fst ` set default_model_catalog"
  by (simp_all add: default_model_catalog_def)

lemma default_resolved_order:
  "resolved_failover_priority default_strategy_settings cat =
    [OPENAI_FRONTIER_MODEL, ANTHROPIC_SAFETY_MODEL, GEMINI_PRO_MODEL, MOONSHOT_BALANCED_MODEL]"
  by (simp add: resolved_failover_priority_def default_strategy_settings_def)

lemmas constructors = make_ab_def make_adaptive_concurrency_def make_adaptive_timeout_def make_budget_aware_def
    make_budget_cascade_def make_canary_def make_concurrency_cap_def make_cost_anomaly_shed_def
    make_epsilon_greedy_def make_error_budget_reset_def make_error_budget_shed_def make_exploration_def
    make_failover_priority_def make_family_cost_ceiling_def make_half_open_probe_def make_health_blend_def
    make_health_cost_latency_def make_hourly_ceiling_def make_latency_budget_def make_latency_hedge_def
    make_latency_slo_def make_latency_slope_shed_def make_namespace_def make_percent_def
    make_prefix_cache_def make_prompt_length_shed_def make_queue_depth_def make_region_hysteresis_def
    make_region_p99_def make_retry_budget_def make_slo_aware_def make_soft_family_budget_def
    make_tier_limits_def make_token_fair_share_def make_token_rpm_ceiling_def make_warm_pool_def
    make_weighted_blend_def
    make_cache_ttl_def make_carbon_aware_def make_carbon_latency_def make_circuit_probe_def make_cold_start_def
    make_deadline_aware_def make_pin_expire_def make_priority_lanes_def make_quota_burst_def make_region_carbon_def
    make_soft_isolation_def make_spend_telemetry_def make_tail_hedge_def make_tenant_lease_def
    make_timeout_hedge_def make_unit_def

lemma default_failover:
  "\<exists>x. make_failover_priority default_model_catalog
     (resolved_failover_priority default_strategy_settings default_model_catalog) = Inr x"
  by (simp add: default_resolved_order make_failover_priority_def default_models Let_def)

lemma default_namespace: "\<exists>x. make_namespace (sg_embedding_cache_namespace_prefix default_strategy_settings) = Inr x"
proof -
  have "strip ''embed'' \<noteq> []" by code_simp
  then show ?thesis by (simp add: make_namespace_def default_strategy_settings_def)
qed

lemma default_cascade:
  "\<exists>x. make_budget_cascade (sg_tenant_budget_cascade_soft default_strategy_settings)
     (sg_tenant_budget_cascade_hard default_strategy_settings) = Inr x"
  by (rule exI [of _ "(10, 25/2)"]) (simp add: make_budget_cascade_def default_strategy_settings_def)

lemma half_exists: "\<exists>x :: rat. x * 2 = n"
  by (rule exI [of _ "n / 2"]) simp

lemma default_warmup:
  "\<exists>x. make_region_warmup (sg_sticky_region_failover_preferences default_strategy_settings)
     (xg_sticky_region_warmup_requests (sg_more default_strategy_settings)) = Inr x"
proof -
  have "clean_regions (Some [''eu'', ''us'', ''cn'', ''global'']) \<noteq> []" by code_simp
  then show ?thesis
    by (simp add: make_region_warmup_def default_strategy_settings_def default_extra_settings_def Let_def)
qed

lemma default_shadow:
  "\<exists>x. make_shadow_split (xg_provider_canary_primary_provider (sg_more default_strategy_settings))
     (xg_provider_canary_shadow_percent (sg_more default_strategy_settings)) = Inr x"
proof -
  have "norm_region ''openai'' \<noteq> []" by code_simp
  then show ?thesis by (simp add: make_shadow_split_def default_strategy_settings_def default_extra_settings_def)
qed

lemma prefer_built: "list_all (\<lambda>e. \<exists>ch. snd e = Inr ch) (prefer_entries sg cat)"
  by (auto simp: prefer_entries_def list_all_iff Let_def plain_def)

lemma default_strategies_build: "\<exists>strategies. build_strategies default_strategy_settings default_model_catalog = Inr strategies"
  unfolding build_strategies_def strategy_entries_def scoring_entries_def shedding_entries_def sticky_entries_def
    window_entries_def session_entries_def guard_entries_def Let_def
  by (rule all_built_ok, unfold list_all_append list.pred_inject(2))
     (intro conjI default_failover default_namespace default_cascade default_warmup default_shadow prefer_built configured_ok plain_ok list.pred_inject(1),
      simp_all add: default_strategy_settings_def default_extra_settings_def constructors half_exists tenant_names_def fl_fraction default_models normalized_weights_ok)


lemma blind_catalog: "blind en_catalog" and blind_rows: "blind (own_rows rid)"
  by (simp_all add: blind_def own_rows_def)


text \<open>Any sequence of choices, each by some strategy of the dictionary at some instant\<close>

fun choose_all :: "(strategy_name \<times> chooser) list \<Rightarrow> (strategy_name \<times> rat \<times> router_request \<times> task_signals) list \<Rightarrow> engine \<Rightarrow> engine" where
  "choose_all strategies [] en = en"
| "choose_all strategies ((name, now, r, s) # calls) en = choose_all strategies calls
     (case map_of strategies name of None \<Rightarrow> en | Some ch \<Rightarrow> snd (ch now r s en))"

text \<open>
  C39. The session and tenant statistics are well-formed in a new router and stay so through any sequence of
  choices of any strategies: request counts, probe counts and migration counts are positive and kept
  only for pinned sessions, pinned regions are normalised and not blank, no tenant has an empty list of
  requests, every lookback list is at most as long as its lookback, and the shadow counts are one
  positive number per provider.
\<close>

theorem session_statistics_stay_well_formed:
  assumes "new_router st model_catalog registered = Inr en" "build_strategies sg (en_catalog en) = Inr strategies"
    "distinct (resolved_failover_priority sg (en_catalog en))"
  shows "sessions_ok (en_sessions (choose_all strategies calls en))"
proof -
  have "sessions_sound (choose_all strategies calls e)" if "sessions_sound e" for e
    using that
  proof (induction calls arbitrary: e)
    case (Cons call calls)
    obtain name now r s where call: "call = (name, now, r, s)" by (metis prod_cases4)
    show ?case
    proof (cases "map_of strategies name")
      case (Some ch)
      then have "sessions_sound (snd (ch now r s e))"
        using wired_sessions [OF assms(2,3), of _ name ch e] Cons.prems by (simp add: wired_def)
      then show ?thesis using Cons.IH Some by (simp add: call)
    qed (use Cons in \<open>simp add: call\<close>)
  qed simp
  then show ?thesis using new_router_sessions [OF assms(1)] by (simp add: sessions_sound_def)
qed

theorem session_statistics_stay_well_formed_witness:
  "\<exists>en strategies. new_router default_settings [] {''openai'', ''google'', ''anthropic'', ''moonshot''} = Inr en \<and>
    build_strategies default_strategy_settings (en_catalog en) = Inr strategies \<and>
    sessions_ok (en_sessions (choose_all strategies [(''sticky-region-drain'', 0, demo_request, demo_signals),
      (''tenant-quota-burst'', 1, demo_request, demo_signals)] en))"
proof -
  obtain en where en: "new_router default_settings [] {''openai'', ''google'', ''anthropic'', ''moonshot''} = Inr en"
    "en_catalog en = default_model_catalog" by (rule demo_router)
  obtain strategies where b: "build_strategies default_strategy_settings (en_catalog en) = Inr strategies"
    using default_strategies_build unfolding en(2) by blast
  have "distinct (resolved_failover_priority default_strategy_settings (en_catalog en))"
    unfolding default_resolved_order by code_simp
  from session_statistics_stay_well_formed [OF en(1) b this] en(1) b show ?thesis by blast
qed

subsection \<open>The router as it is built\<close>

lemma start_request_decides:
  assumes "build_strategies sg (en_catalog en) = Inr strategies" "distinct (resolved_failover_priority sg (en_catalog en))"
    "wf_catalog (en_catalog en)" "rule_models \<subseteq> fst ` set (en_catalog en)"
    "(case rq_strategy r of Some s \<Rightarrow> s | None \<Rightarrow> en_default_strategy en) \<in> fst ` set strategies"
    "start_request (wired d strategies) now r en = (x, CLASSIFIED, en')" "sessions_sound en"
  shows "x \<in> Inl ` refusals r"
proof -
  let ?name = "case rq_strategy r of Some s \<Rightarrow> s | None \<Rightarrow> en_default_strategy en"
  obtain ch where ch: "map_of strategies ?name = Some ch"
    using assms(5) by (cases "map_of strategies ?name") (simp_all add: map_of_eq_None_iff)
  have "good_chooser en_catalog (en_catalog en) ch"
    by (rule wired_good [OF assms(1,2) blind_catalog, where d = d and name = ?name]) (simp add: wired_def ch)
  then have dec: "(\<exists>dec. fst (ch now r s e) = Inr dec) \<or> fst (ch now r s e) \<in> Inl ` refusals r"
    if "sessions_sound e" for s e using that assms(3,4) unfolding good_chooser_def chooser_decides_def by blast
  obtain g rl where g: "assert_allowed now (rq_api_key_id r) 1 (en_rate_limiter en) = (g, rl)" by fastforce
  obtain y en1 where y: "ch now r (dp_analyze d r) (en\<lparr> en_rate_limiter := rl \<rparr>) = (y, en1)" by fastforce
  have "sessions_sound (en\<lparr> en_rate_limiter := rl \<rparr>)" using assms(7) by (simp add: sessions_sound_def)
  from dec [OF this, of "dp_analyze d r"] show ?thesis using assms(6) ch
    by (auto simp: start_request_def wired_def Let_def transition_def g y split: sum.splits prod.splits)
qed



end
