(* ===== verification/Idempotency.thy ===== *)
theory Idempotency
  imports Schemas
begin

text \<open>
  \<open>IdempotencyStore\<close> (\<open>src/safety/idempotency.py\<close>). The SQLite table with primary key
  \<open>(key, tenant)\<close> is an association list of rows in insertion order; one method call is one
  transaction under the lock, so one step. \<open>now\<close> is \<open>time.time()\<close> and \<open>token\<close> is
  \<open>secrets.token_hex(16)\<close>, both arguments; nothing is assumed of the clock. A failing disk is not
  modelled. A file database rolls an uncommitted transaction back when its connection closes,
  which only the refused \<open>put\<close> does; the in-memory one keeps it.
\<close>

subsection \<open>The store\<close>

record idem_row =
  ir_response_json :: string
  ir_status_code :: int
  ir_created_at :: rat
  ir_expires_at :: rat

type_synonym idem_key = "string \<times> string"

record idem_store =
  is_ttl_seconds :: rat
  is_memory :: bool
  is_rows :: "(idem_key \<times> idem_row) list"

record reservation =
  rv_key :: string
  rv_tenant :: string
  rv_token :: string

datatype claim = Reserved reservation | Replay idem_row

definition PENDING_STATUS_CODE :: int where
  "PENDING_STATUS_CODE = 0"

definition make_idem_store :: "bool \<Rightarrow> rat \<Rightarrow> idem_store result" where
  "make_idem_store memory ttl = (if ttl \<le> 0 then Inl ValueError
     else Inr \<lparr> is_ttl_seconds = ttl, is_memory = memory, is_rows = [] \<rparr>)"

definition evict_expired_locked :: "rat \<Rightarrow> (idem_key \<times> idem_row) list \<Rightarrow> (idem_key \<times> idem_row) list" where
  "evict_expired_locked now rows = filter (\<lambda>(_, r). \<not> ir_expires_at r \<le> now) rows"

text \<open>\<open>INSERT OR IGNORE\<close>: the second component is \<open>rowcount == 1\<close>\<close>

definition insert_or_ignore :: "idem_key \<Rightarrow> idem_row \<Rightarrow> (idem_key \<times> idem_row) list \<Rightarrow>
    (idem_key \<times> idem_row) list \<times> bool" where
  "insert_or_ignore k r rows = (if map_of rows k = None then (rows @ [(k, r)], True) else (rows, False))"

text \<open>\<open>WHERE key = ? AND tenant = ? AND status_code = 0 AND response_json = token\<close>\<close>

definition owned :: "reservation \<Rightarrow> idem_key \<times> idem_row \<Rightarrow> bool" where
  "owned rv kr \<longleftrightarrow> fst kr = (rv_key rv, rv_tenant rv) \<and>
     ir_status_code (snd kr) = PENDING_STATUS_CODE \<and> ir_response_json (snd kr) = rv_token rv"

definition idem_reserve :: "rat \<Rightarrow> string \<Rightarrow> string \<Rightarrow> string \<Rightarrow> rat \<Rightarrow> idem_store \<Rightarrow> claim result \<times> idem_store" where
  "idem_reserve now token key tenant lease_seconds st =
     (if key = [] \<or> tenant = [] \<or> lease_seconds \<le> 0 then (Inl ValueError, st)
      else let live = evict_expired_locked now (is_rows st);
               (rows, inserted) = insert_or_ignore (key, tenant)
                 \<lparr> ir_response_json = token, ir_status_code = PENDING_STATUS_CODE, ir_created_at = now,
                   ir_expires_at = fadd now lease_seconds \<rparr> live;
               st1 = st\<lparr> is_rows := rows \<rparr>
           in if inserted then (Inr (Reserved \<lparr> rv_key = key, rv_tenant = tenant, rv_token = token \<rparr>), st1)
              else case map_of rows (key, tenant) of
                None \<Rightarrow> (Inr (Reserved \<lparr> rv_key = key, rv_tenant = tenant, rv_token = token \<rparr>), st1)
              | Some r \<Rightarrow> (if ir_status_code r = PENDING_STATUS_CODE then (Inl IdempotencyKeyInUseError, st1)
                           else (Inr (Replay r), st1)))"

definition idem_complete :: "rat \<Rightarrow> reservation \<Rightarrow> string \<Rightarrow> int \<Rightarrow> idem_store \<Rightarrow> bool \<times> idem_store" where
  "idem_complete now rv response_json status_code st =
     (let row = \<lparr> ir_response_json = response_json, ir_status_code = status_code, ir_created_at = now,
                  ir_expires_at = fadd now (is_ttl_seconds st) \<rparr>
      in if list_ex (owned rv) (is_rows st)
         then (True, st\<lparr> is_rows := map (\<lambda>kr. if owned rv kr then (fst kr, row) else kr) (is_rows st) \<rparr>)
         else let (rows, inserted) = insert_or_ignore (rv_key rv, rv_tenant rv) row
                    (evict_expired_locked now (is_rows st))
              in (inserted, st\<lparr> is_rows := rows \<rparr>))"

definition idem_release :: "reservation \<Rightarrow> idem_store \<Rightarrow> idem_store" where
  "idem_release rv st = st\<lparr> is_rows := filter (\<lambda>kr. \<not> owned rv kr) (is_rows st) \<rparr>"

definition idem_put :: "rat \<Rightarrow> string \<Rightarrow> string \<Rightarrow> string \<Rightarrow> int \<Rightarrow> idem_store \<Rightarrow> bool result \<times> idem_store" where
  "idem_put now key tenant response_json status_code st =
     (if key = [] \<or> tenant = [] then (Inl ValueError, st)
      else let live = evict_expired_locked now (is_rows st)
           in if map_of live (key, tenant) \<noteq> None
              then (Inr False, if is_memory st then st\<lparr> is_rows := live \<rparr> else st)
              else (Inr True, st\<lparr> is_rows := live @ [((key, tenant),
                     \<lparr> ir_response_json = response_json, ir_status_code = status_code, ir_created_at = now,
                       ir_expires_at = fadd now (is_ttl_seconds st) \<rparr>)] \<rparr>))"

definition idem_get :: "rat \<Rightarrow> string \<Rightarrow> string \<Rightarrow> idem_store \<Rightarrow> idem_row option \<times> idem_store" where
  "idem_get now key tenant st =
     (let live = evict_expired_locked now (is_rows st)
      in (case map_of live (key, tenant) of
            None \<Rightarrow> None
          | Some r \<Rightarrow> if ir_status_code r = PENDING_STATUS_CODE then None else Some r,
          st\<lparr> is_rows := live \<rparr>))"

definition idem_evict_expired :: "rat \<Rightarrow> idem_store \<Rightarrow> int \<times> idem_store" where
  "idem_evict_expired now st =
     (int (length (filter (\<lambda>(_, r). ir_expires_at r \<le> now) (is_rows st))),
      st\<lparr> is_rows := evict_expired_locked now (is_rows st) \<rparr>)"

subsection \<open>One key of the table\<close>

definition row_of :: "idem_key \<Rightarrow> idem_store \<Rightarrow> idem_row option" where
  "row_of k st = map_of (is_rows st) k"

definition primary_key :: "idem_store \<Rightarrow> bool" where
  "primary_key st \<longleftrightarrow> distinct (map fst (is_rows st))"

definition live_row :: "rat \<Rightarrow> idem_row option \<Rightarrow> idem_row option" where
  "live_row now o_row = (case o_row of None \<Rightarrow> None | Some r \<Rightarrow> if ir_expires_at r \<le> now then None else Some r)"

lemma map_of_filter_distinct:
  "distinct (map fst kvs) \<Longrightarrow>
   map_of (filter P kvs) k = (case map_of kvs k of None \<Rightarrow> None | Some v \<Rightarrow> if P (k, v) then Some v else None)"
  by (induction kvs) (auto split: option.splits simp: weak_map_of_SomeI map_of_eq_None_iff rev_image_eqI)

lemma map_of_evict:
  "distinct (map fst rows) \<Longrightarrow> map_of (evict_expired_locked now rows) k = live_row now (map_of rows k)"
  by (simp add: evict_expired_locked_def map_of_filter_distinct live_row_def split: option.splits)

lemma distinct_fst_filter: "distinct (map fst kvs) \<Longrightarrow> distinct (map fst (filter P kvs))"
  by (induction kvs) auto

lemma distinct_evict: "distinct (map fst rows) \<Longrightarrow> distinct (map fst (evict_expired_locked now rows))"
  by (simp add: evict_expired_locked_def distinct_fst_filter)

lemma owned_row:
  "distinct (map fst rows) \<Longrightarrow> list_ex (owned rv) rows \<longleftrightarrow>
    (\<exists>r. map_of rows (rv_key rv, rv_tenant rv) = Some r \<and> owned rv ((rv_key rv, rv_tenant rv), r))"
  by (force simp: list_ex_iff owned_def map_of_eq_Some_iff)

subsection \<open>Interleaved calls\<close>

text \<open>Any number of requests and processes share the table; a history is the calls in their order.\<close>

datatype idem_op =
    Reserve rat string string string rat
  | Complete rat reservation string int
  | Release reservation
  | Put rat string string string int
  | Get rat string string
  | Evict rat

fun idem_step :: "idem_op \<Rightarrow> idem_store \<Rightarrow> idem_store" where
  "idem_step (Reserve now tok key tenant lease) st = snd (idem_reserve now tok key tenant lease st)"
| "idem_step (Complete now rv json code) st = snd (idem_complete now rv json code st)"
| "idem_step (Release rv) st = idem_release rv st"
| "idem_step (Put now key tenant json code) st = snd (idem_put now key tenant json code st)"
| "idem_step (Get now key tenant) st = snd (idem_get now key tenant st)"
| "idem_step (Evict now) st = snd (idem_evict_expired now st)"

definition idem_run :: "idem_op list \<Rightarrow> idem_store \<Rightarrow> idem_store" where
  "idem_run ops st = fold idem_step ops st"

text \<open>The call happens before \<open>deadline\<close> by the wall clock (a release reads no clock).\<close>

fun before :: "rat \<Rightarrow> idem_op \<Rightarrow> bool" where
  "before deadline (Reserve now _ _ _ _) = (now < deadline)"
| "before deadline (Complete now _ _ _) = (now < deadline)"
| "before deadline (Release _) = True"
| "before deadline (Put now _ _ _ _) = (now < deadline)"
| "before deadline (Get now _ _) = (now < deadline)"
| "before deadline (Evict now) = (now < deadline)"

text \<open>The call presents the reservation \<open>rv\<close>.\<close>

fun presents :: "reservation \<Rightarrow> idem_op \<Rightarrow> bool" where
  "presents rv (Complete _ rv' _ _) = (rv' = rv)"
| "presents rv (Release rv') = (rv' = rv)"
| "presents rv _ = False"

lemma keys_after_update [simp]:
  "map (fst \<circ> (\<lambda>kr. if owned rv kr then (fst kr, row) else kr)) rows = map fst rows"
  by simp

lemma primary_step: "primary_key st \<Longrightarrow> primary_key (idem_step op st)"
  by (cases op) (auto simp: primary_key_def idem_reserve_def idem_complete_def idem_release_def idem_put_def idem_get_def
      idem_evict_expired_def Let_def insert_or_ignore_def distinct_evict distinct_fst_filter map_of_eq_None_iff
      simp del: map_eq_conv split: option.splits)

lemma ttl_step: "is_ttl_seconds (idem_step op st) = is_ttl_seconds st"
  by (cases op) (simp_all add: idem_reserve_def idem_complete_def idem_release_def idem_put_def idem_get_def
      idem_evict_expired_def Let_def insert_or_ignore_def split: option.splits)

lemma row_evict: "primary_key st \<Longrightarrow> map_of (evict_expired_locked now (is_rows st)) k = live_row now (row_of k st)"
  by (simp add: primary_key_def row_of_def map_of_evict)

lemma map_of_update_owned:
  "map_of (map (\<lambda>kr. if owned rv kr then (fst kr, row) else kr) rows) k =
    (case map_of rows k of None \<Rightarrow> None | Some r \<Rightarrow> Some (if owned rv (k, r) then row else r))"
  by (induction rows) auto

lemma row_release:
  "primary_key st \<Longrightarrow> row_of k (idem_release rv st) =
    (case row_of k st of None \<Rightarrow> None | Some r \<Rightarrow> if owned rv (k, r) then None else Some r)"
  by (auto simp: primary_key_def row_of_def idem_release_def map_of_filter_distinct split: option.splits)

text \<open>A row stays as it is until its deadline, whatever the others do, unless its owner settles it.\<close>

lemma row_kept:
  assumes "primary_key st" "row_of k st = Some r" "before (ir_expires_at r) op"
    "\<And>rv. owned rv (k, r) \<Longrightarrow> \<not> presents rv op"
  shows "row_of k (idem_step op st) = Some r"
proof -
  have live: "map_of (evict_expired_locked now (is_rows st)) k = Some r" if "now < ir_expires_at r" for now
    using row_evict [OF assms(1), of now k] assms(2) that by (simp add: live_row_def)
  show ?thesis
  proof (cases op)
    case (Complete now rv json code)
    with assms(4) have "\<not> owned rv (k, r)" by auto
    then show ?thesis using live [of now] assms(2,3) Complete
      by (auto simp: idem_complete_def Let_def insert_or_ignore_def row_of_def map_of_update_owned)
  next
    case (Release rv)
    then show ?thesis using assms row_release [OF assms(1), of k rv] by auto
  qed (use assms(2,3) live in \<open>auto simp: idem_reserve_def idem_put_def idem_get_def idem_evict_expired_def Let_def
      insert_or_ignore_def row_of_def split: option.splits\<close>)
qed

lemma run_kept:
  assumes "primary_key st" "row_of k st = Some r"
    "\<And>op. op \<in> set ops \<Longrightarrow> before (ir_expires_at r) op"
    "\<And>op rv. op \<in> set ops \<Longrightarrow> owned rv (k, r) \<Longrightarrow> \<not> presents rv op"
  shows "row_of k (idem_run ops st) = Some r \<and> primary_key (idem_run ops st) \<and>
    is_ttl_seconds (idem_run ops st) = is_ttl_seconds st"
  using assms
proof (induction ops arbitrary: st)
  case Nil
  then show ?case by (simp add: idem_run_def)
next
  case (Cons op ops)
  then have "row_of k (idem_step op st) = Some r" by (intro row_kept) auto
  with Cons.IH [of "idem_step op st"] Cons.prems show ?case
    by (simp add: idem_run_def primary_step ttl_step)
qed

lemma run_primary: "primary_key st \<Longrightarrow> primary_key (idem_run ops st) \<and> is_ttl_seconds (idem_run ops st) = is_ttl_seconds st"
  by (induction ops arbitrary: st) (auto simp: idem_run_def primary_step ttl_step)

text \<open>What the calls answer while the key has the row \<open>r\<close>\<close>

lemma answers_while:
  assumes "primary_key st" "row_of (key, tenant) st = Some r" "now < ir_expires_at r"
    "key \<noteq> []" "tenant \<noteq> []" "0 < lease"
  shows "fst (idem_reserve now tok key tenant lease st) =
      (if ir_status_code r = PENDING_STATUS_CODE then Inl IdempotencyKeyInUseError else Inr (Replay r))"
    "fst (idem_get now key tenant st) = (if ir_status_code r = PENDING_STATUS_CODE then None else Some r)"
    "fst (idem_put now key tenant json code st) = Inr False"
  using assms row_evict [OF assms(1), of now "(key, tenant)"]
  by (simp_all add: idem_reserve_def idem_get_def idem_put_def Let_def insert_or_ignore_def live_row_def)

lemma reserved_row:
  assumes "primary_key st" "idem_reserve t tok key tenant lease st = (Inr (Reserved rv), st1)"
  shows "primary_key st1" "rv = \<lparr> rv_key = key, rv_tenant = tenant, rv_token = tok \<rparr>" "key \<noteq> []" "tenant \<noteq> []" "0 < lease"
    "row_of (key, tenant) st1 = Some \<lparr> ir_response_json = tok, ir_status_code = PENDING_STATUS_CODE,
       ir_created_at = t, ir_expires_at = fadd t lease \<rparr>" "is_ttl_seconds st1 = is_ttl_seconds st"
proof -
  show "primary_key st1" using primary_step [OF assms(1), of "Reserve t tok key tenant lease"] assms(2) by simp
  show "rv = \<lparr> rv_key = key, rv_tenant = tenant, rv_token = tok \<rparr>" "key \<noteq> []" "tenant \<noteq> []" "0 < lease"
    "row_of (key, tenant) st1 = Some \<lparr> ir_response_json = tok, ir_status_code = PENDING_STATUS_CODE,
       ir_created_at = t, ir_expires_at = fadd t lease \<rparr>" "is_ttl_seconds st1 = is_ttl_seconds st"
    using assms(2) by (auto simp: idem_reserve_def Let_def insert_or_ignore_def row_of_def map_add_def
        split: if_splits option.splits)
qed

lemma owner_only:
  "owned rv' ((key, tenant), \<lparr> ir_response_json = tok, ir_status_code = code, ir_created_at = t, ir_expires_at = e \<rparr>) \<Longrightarrow>
   rv' = \<lparr> rv_key = key, rv_tenant = tenant, rv_token = tok \<rparr>"
  by (cases rv') (simp add: owned_def)

lemma completed_row:
  assumes "primary_key st" "row_of (rv_key rv, rv_tenant rv) st = Some r" "owned rv ((rv_key rv, rv_tenant rv), r)"
    "idem_complete t rv json code st = (b, st1)"
  shows "b" "primary_key st1" "row_of (rv_key rv, rv_tenant rv) st1 = Some \<lparr> ir_response_json = json,
      ir_status_code = code, ir_created_at = t, ir_expires_at = fadd t (is_ttl_seconds st) \<rparr>"
proof -
  have "list_ex (owned rv) (is_rows st)"
    using assms(1-3) by (simp add: owned_row primary_key_def row_of_def)
  then show "b" "row_of (rv_key rv, rv_tenant rv) st1 = Some \<lparr> ir_response_json = json,
      ir_status_code = code, ir_created_at = t, ir_expires_at = fadd t (is_ttl_seconds st) \<rparr>"
    using assms(2-4) by (auto simp: idem_complete_def Let_def row_of_def map_of_update_owned)
  show "primary_key st1" using primary_step [OF assms(1), of "Complete t rv json code"] assms(4) by simp
qed

lemma new_store: "make_idem_store memory ttl = Inr st \<Longrightarrow> primary_key st \<and> is_ttl_seconds st = ttl"
  by (auto simp: make_idem_store_def primary_key_def split: if_splits)

text \<open>
  C30. A claim is exclusive: once a request holds the key, every other request for it is turned away
  until the lease ends or the holder itself completes or releases it, whatever calls are made in
  between, stale ones for the same key included, and whatever the clock does.
\<close>

theorem claim_is_exclusive:
  assumes "make_idem_store memory ttl = Inr st0"
    "idem_reserve t tok key tenant lease (idem_run history st0) = (Inr (Reserved rv), st1)"
    "\<forall>op \<in> set others. before (fadd t lease) op \<and> \<not> presents rv op"
    "now < fadd t lease" "0 < lease'"
  shows "fst (idem_reserve now tok' key tenant lease' (idem_run others st1)) = Inl IdempotencyKeyInUseError \<and>
    fst (idem_get now key tenant (idem_run others st1)) = None \<and>
    fst (idem_put now key tenant json code (idem_run others st1)) = Inr False"
proof -
  note claimed = reserved_row [OF conjunct1 [OF run_primary [OF conjunct1 [OF new_store [OF assms(1)]]]] assms(2)]
  have kept: "row_of (key, tenant) (idem_run others st1) = Some \<lparr> ir_response_json = tok,
      ir_status_code = PENDING_STATUS_CODE, ir_created_at = t, ir_expires_at = fadd t lease \<rparr> \<and>
    primary_key (idem_run others st1)"
    using run_kept [OF claimed(1,6)] assms(3) claimed(2) by (auto dest: owner_only)
  from answers_while [OF conjunct2 [OF kept] conjunct1 [OF kept]] assms(4,5) claimed(3,4) show ?thesis by simp
qed

theorem claim_is_exclusive_witness:
  "\<exists>st0 rv st1. make_idem_store True 86400 = Inr st0 \<and>
    idem_reserve 0 ''a'' ''key'' ''acme'' 30 st0 = (Inr (Reserved rv), st1) \<and>
    fst (idem_reserve 20 ''c'' ''key'' ''acme'' 30 (idem_run [Reserve 10 ''b'' ''key'' ''acme'' 30, Evict 15] st1))
      = Inl IdempotencyKeyInUseError"
proof -
  obtain st0 where st0: "make_idem_store True 86400 = Inr st0" by (simp add: make_idem_store_def)
  have rows: "is_rows st0 = []" using st0 by (auto simp: make_idem_store_def)
  obtain rv st1 where r: "idem_reserve 0 ''a'' ''key'' ''acme'' 30 (idem_run [] st0) = (Inr (Reserved rv), st1)"
    by (simp add: idem_reserve_def idem_run_def rows evict_expired_locked_def insert_or_ignore_def)
  have f: "fadd 0 30 = 30" by (simp add: fadd_def fl_numeral)
  from claim_is_exclusive [OF st0 r, of "[Reserve 10 ''b'' ''key'' ''acme'' 30, Evict 15]" 20 30] st0 r show ?thesis
    by (simp add: f idem_run_def)
qed

text \<open>
  C31. An answered key is replayed: when the holder of the claim completes it, however late within the
  lease and whatever other calls came in between, the response is stored, and until its expiry every
  retry, whatever calls come in between, is given exactly that response.
\<close>

theorem completed_claim_is_replayed:
  assumes "make_idem_store memory ttl = Inr st0"
    "idem_reserve t tok key tenant lease (idem_run history st0) = (Inr (Reserved rv), st1)"
    "\<forall>op \<in> set others. before (fadd t lease) op \<and> \<not> presents rv op"
    "idem_complete t' rv json code (idem_run others st1) = (stored, st2)" "code \<noteq> PENDING_STATUS_CODE"
    "\<forall>op \<in> set later. before (fadd t' ttl) op" "now < fadd t' ttl" "0 < lease'"
  shows "stored \<and>
    fst (idem_reserve now tok' key tenant lease' (idem_run later st2)) = Inr (Replay \<lparr> ir_response_json = json,
      ir_status_code = code, ir_created_at = t', ir_expires_at = fadd t' ttl \<rparr>) \<and>
    fst (idem_get now key tenant (idem_run later st2)) = Some \<lparr> ir_response_json = json,
      ir_status_code = code, ir_created_at = t', ir_expires_at = fadd t' ttl \<rparr>"
proof -
  note fresh = run_primary [OF conjunct1 [OF new_store [OF assms(1)]]]
  note claimed = reserved_row [OF conjunct1 [OF fresh] assms(2)]
  have kept: "row_of (key, tenant) (idem_run others st1) = Some \<lparr> ir_response_json = tok,
      ir_status_code = PENDING_STATUS_CODE, ir_created_at = t, ir_expires_at = fadd t lease \<rparr> \<and>
    primary_key (idem_run others st1) \<and> is_ttl_seconds (idem_run others st1) = ttl"
    using run_kept [OF claimed(1,6)] assms(3) claimed(2,7) fresh new_store [OF assms(1)] by (auto dest: owner_only)
  then have own: "row_of (rv_key rv, rv_tenant rv) (idem_run others st1) = Some \<lparr> ir_response_json = tok,
      ir_status_code = PENDING_STATUS_CODE, ir_created_at = t, ir_expires_at = fadd t lease \<rparr>"
    by (simp add: claimed(2))
  note done_row = completed_row [OF conjunct1 [OF conjunct2 [OF kept]] own _ assms(4), simplified kept, simplified]
  have st2: "stored" "primary_key st2" "row_of (key, tenant) st2 = Some \<lparr> ir_response_json = json,
      ir_status_code = code, ir_created_at = t', ir_expires_at = fadd t' ttl \<rparr>"
    using done_row kept by (simp_all add: claimed(2) owned_def)
  have later: "row_of (key, tenant) (idem_run later st2) = Some \<lparr> ir_response_json = json,
      ir_status_code = code, ir_created_at = t', ir_expires_at = fadd t' ttl \<rparr> \<and> primary_key (idem_run later st2)"
    using run_kept [OF st2(2,3)] assms(5,6) by (auto simp: owned_def)
  from answers_while [OF conjunct2 [OF later] conjunct1 [OF later]] assms(5,7,8) claimed(3,4) st2(1) show ?thesis by simp
qed

theorem completed_claim_is_replayed_witness:
  "\<exists>st0 rv st1 st2. make_idem_store False 86400 = Inr st0 \<and>
    idem_reserve 0 ''a'' ''key'' ''acme'' 30 st0 = (Inr (Reserved rv), st1) \<and>
    idem_complete 20 rv ''{}'' 200 (idem_run [Reserve 10 ''b'' ''key'' ''acme'' 30] st1) = (True, st2) \<and>
    fst (idem_get 50 ''key'' ''acme'' (idem_run [Release rv, Evict 40] st2)) = Some \<lparr> ir_response_json = ''{}'',
      ir_status_code = 200, ir_created_at = 20, ir_expires_at = 86420 \<rparr>"
proof -
  obtain st0 where st0: "make_idem_store False 86400 = Inr st0" by (simp add: make_idem_store_def)
  have rows: "is_rows st0 = []" using st0 by (auto simp: make_idem_store_def)
  obtain rv st1 where r: "idem_reserve 0 ''a'' ''key'' ''acme'' 30 (idem_run [] st0) = (Inr (Reserved rv), st1)"
    by (simp add: idem_reserve_def idem_run_def rows evict_expired_locked_def insert_or_ignore_def)
  obtain b st2 where c: "idem_complete 20 rv ''{}'' 200 (idem_run [Reserve 10 ''b'' ''key'' ''acme'' 30] st1) = (b, st2)"
    by fastforce
  have f: "fadd 0 30 = 30" "fadd 20 86400 = 86420" by (simp_all add: fadd_def fl_numeral)
  from completed_claim_is_replayed [OF st0 r, of "[Reserve 10 ''b'' ''key'' ''acme'' 30]" 20 "''{}''" 200 b st2
      "[Release rv, Evict 40]" 50 1] st0 r c show ?thesis
    by (simp add: f PENDING_STATUS_CODE_def) (simp add: idem_run_def)
qed

end
