(* ===== verification/Response_Caches.thy ===== *)
theory Response_Caches
  imports Schemas
begin

text \<open>
  The two response caches of \<open>src/cache/\<close>: the exact one (\<open>response_cache.py\<close>), keyed by a digest
  of everything that affects the generation, and the fuzzy one (\<open>semantic_fuzzy_cache.py\<close>), which
  compares character trigrams. Each call holds the lock, so it is one step; \<open>now\<close> is
  \<open>time.monotonic()\<close>. The digest (SHA-256 of a canonical JSON text) is a parameter on the payload,
  and the key of a fuzzy entry, the SHA-256 of a text with a fresh UUID, is an argument of \<open>set\<close>.
\<close>

subsection \<open>The exact cache\<close>

record 'v cache_entry =
  ce_value :: 'v
  ce_expires_at :: rat

record 'v response_cache =
  rc_ttl_seconds :: rat
  rc_enabled :: bool
  rc_entries :: "(string \<times> 'v cache_entry) list"
  rc_hits :: int
  rc_misses :: int

definition make_response_cache :: "rat \<Rightarrow> bool \<Rightarrow> 'v response_cache result" where
  "make_response_cache ttl enabled = (if ttl < 0 then Inl ValueError
     else Inr \<lparr> rc_ttl_seconds = ttl, rc_enabled = enabled, rc_entries = [], rc_hits = 0, rc_misses = 0 \<rparr>)"

record cache_payload =
  cp_tenant :: string
  cp_model :: string
  cp_messages :: "(string \<times> string) list"
  cp_temperature :: rat
  cp_max_tokens :: "int option"
  cp_strategy :: string

definition or_empty :: "string option \<Rightarrow> string" where
  "or_empty s = (case s of None \<Rightarrow> [] | Some x \<Rightarrow> x)"

definition make_key :: "(cache_payload \<Rightarrow> string) \<Rightarrow> string option \<Rightarrow> chat_message list \<Rightarrow> rat \<Rightarrow>
    string option \<Rightarrow> int option \<Rightarrow> string option \<Rightarrow> string" where
  "make_key digest model messages temperature tenant max_tokens strategy = digest
     \<lparr> cp_tenant = or_empty tenant, cp_model = or_empty model,
       cp_messages = map (\<lambda>m. (cm_role m, cm_content m)) messages, cp_temperature = temperature,
       cp_max_tokens = max_tokens, cp_strategy = or_empty strategy \<rparr>"

definition rc_get :: "rat \<Rightarrow> string \<Rightarrow> 'v response_cache \<Rightarrow> 'v option \<times> 'v response_cache" where
  "rc_get now key rc =
     (let missed = rc\<lparr> rc_misses := rc_misses rc + 1 \<rparr> in
      if \<not> rc_enabled rc then (None, missed)
      else case map_of (rc_entries rc) key of
        None \<Rightarrow> (None, missed)
      | Some e \<Rightarrow>
          (if ce_expires_at e \<le> now
           then (None, missed\<lparr> rc_entries := AList.delete key (rc_entries rc) \<rparr>)
           else (Some (ce_value e), rc\<lparr> rc_hits := rc_hits rc + 1 \<rparr>)))"

definition rc_set :: "rat \<Rightarrow> string \<Rightarrow> 'v \<Rightarrow> 'v response_cache \<Rightarrow> 'v response_cache" where
  "rc_set now key v rc = (if \<not> rc_enabled rc then rc
     else rc\<lparr> rc_entries := AList.update key
            \<lparr> ce_value = v, ce_expires_at = fadd now (rc_ttl_seconds rc) \<rparr> (rc_entries rc) \<rparr>)"

definition rc_clear_all :: "'v response_cache \<Rightarrow> 'v response_cache" where
  "rc_clear_all rc = rc\<lparr> rc_entries := [], rc_hits := 0, rc_misses := 0 \<rparr>"

definition rc_len :: "'v response_cache \<Rightarrow> int" where
  "rc_len rc = int (length (rc_entries rc))"

subsection \<open>The exact cache over a history\<close>

datatype 'v cache_op = CGet rat string | CSet rat string 'v | CClear rat

fun cache_time :: "'v cache_op \<Rightarrow> rat" where
  "cache_time (CGet t _) = t" | "cache_time (CSet t _ _) = t" | "cache_time (CClear t) = t"

fun cache_step :: "'v cache_op \<Rightarrow> 'v response_cache \<Rightarrow> 'v response_cache" where
  "cache_step (CGet t k) rc = snd (rc_get t k rc)"
| "cache_step (CSet t k v) rc = rc_set t k v rc"
| "cache_step (CClear t) rc = rc_clear_all rc"

definition cache_run :: "'v cache_op list \<Rightarrow> 'v response_cache \<Rightarrow> 'v response_cache" where
  "cache_run ops rc = fold cache_step ops rc"

text \<open>What a cache with this history has to answer: the last value stored under the key, unless it
  was cleared or its time is up.\<close>

fun last_write :: "rat \<Rightarrow> string \<Rightarrow> 'v cache_op list \<Rightarrow> 'v cache_entry option" where
  "last_write ttl k [] = None"
| "last_write ttl k (op # older) = (case op of
      CGet t k' \<Rightarrow> last_write ttl k older
    | CSet t k' v \<Rightarrow> if k' = k then Some \<lparr> ce_value = v, ce_expires_at = fadd t ttl \<rparr> else last_write ttl k older
    | CClear t \<Rightarrow> None)"

lemma cache_config:
  "rc_ttl_seconds (cache_step op rc) = rc_ttl_seconds rc" "rc_enabled (cache_step op rc) = rc_enabled rc"
  by (cases op; simp add: rc_get_def rc_set_def rc_clear_all_def Let_def split: option.splits)+

lemma cache_run_snoc: "cache_run (ops @ [op]) rc = cache_step op (cache_run ops rc)"
  by (simp add: cache_run_def)

lemma cache_run_config:
  "rc_ttl_seconds (cache_run ops rc) = rc_ttl_seconds rc" "rc_enabled (cache_run ops rc) = rc_enabled rc"
  by (induction ops rule: rev_induct) (simp_all add: cache_run_snoc cache_config cache_run_def)

text \<open>The entries are the last writes, except that expired ones may be gone.\<close>

lemma entries_are_last_writes:
  assumes "make_response_cache ttl True = Inr rc0" "sorted (map cache_time ops)"
  shows "map_of (rc_entries (cache_run ops rc0)) k = last_write ttl k (rev ops) \<or>
    map_of (rc_entries (cache_run ops rc0)) k = None \<and>
      (\<exists>e t. last_write ttl k (rev ops) = Some e \<and> ce_expires_at e \<le> t \<and> t \<in> cache_time ` set ops)"
  using assms(2)
proof (induction ops rule: rev_induct)
  case Nil
  then show ?case using assms(1) by (auto simp: cache_run_def make_response_cache_def split: if_splits)
next
  case (snoc op ops)
  let ?rc = "cache_run ops rc0"
  have cfg: "rc_ttl_seconds ?rc = ttl" "rc_enabled ?rc"
    using assms(1) by (auto simp: cache_run_config make_response_cache_def split: if_splits)
  from snoc have IH: "map_of (rc_entries ?rc) k = last_write ttl k (rev ops) \<or>
    map_of (rc_entries ?rc) k = None \<and>
      (\<exists>e t. last_write ttl k (rev ops) = Some e \<and> ce_expires_at e \<le> t \<and> t \<in> cache_time ` set ops)"
    by (simp add: sorted_append)
  show ?case
  proof (cases op)
    case (CGet t k')
    define L where "L = last_write ttl k (rev ops)"
    have step: "map_of (rc_entries (cache_run (ops @ [op]) rc0)) k =
        (case map_of (rc_entries ?rc) k of None \<Rightarrow> None
         | Some e \<Rightarrow> if k = k' \<and> ce_expires_at e \<le> t then None else Some e)"
      using cfg CGet by (auto simp: cache_run_snoc rc_get_def Let_def delete_conv split: option.splits)
    have "last_write ttl k (rev (ops @ [op])) = L" by (simp add: CGet L_def)
    with IH [folded L_def] show ?thesis unfolding step
      by (cases L; cases "map_of (rc_entries ?rc) k") (auto simp: CGet)
  next
    case (CSet t k' v)
    then show ?thesis using IH cfg by (auto simp: cache_run_snoc rc_set_def update_conv)
  next
    case (CClear t)
    then show ?thesis by (simp add: cache_run_snoc rc_clear_all_def)
  qed
qed

text \<open>
  C32. The exact cache is transparent: on a clock that does not go back, a lookup returns exactly the
  value stored last under the key, if it was not cleared since and its time to live is not over,
  whatever other lookups and stores happened.
\<close>

theorem cache_serves_latest_write:
  assumes "make_response_cache ttl True = Inr rc0" "sorted (map cache_time ops @ [now])"
  shows "fst (rc_get now k (cache_run ops rc0)) = (case last_write ttl k (rev ops) of
      None \<Rightarrow> None | Some e \<Rightarrow> if now < ce_expires_at e then Some (ce_value e) else None)"
proof -
  have cfg: "rc_enabled (cache_run ops rc0)"
    using assms(1) by (auto simp: cache_run_config make_response_cache_def split: if_splits)
  have "sorted (map cache_time ops)" "\<forall>t \<in> cache_time ` set ops. t \<le> now" using assms(2) by (auto simp: sorted_append)
  with entries_are_last_writes [OF assms(1), of ops k] cfg show ?thesis
    by (fastforce simp: rc_get_def Let_def split: option.splits)
qed

theorem cache_serves_latest_write_witness:
  "\<exists>rc0. make_response_cache 10 True = Inr rc0 \<and>
    fst (rc_get 8 ''k'' (cache_run [CSet 0 ''k'' (1 :: nat), CGet 2 ''j'', CSet 5 ''k'' 2] rc0)) = Some 2"
proof -
  obtain rc0 where rc0: "make_response_cache 10 True = (Inr rc0 :: nat response_cache result)"
    by (simp add: make_response_cache_def)
  have f: "fadd 5 10 = 15" by (simp add: fadd_def fl_numeral)
  from cache_serves_latest_write [OF rc0, of "[CSet 0 ''k'' (1 :: nat), CGet 2 ''j'', CSet 5 ''k'' 2]" 8 "''k''"] rc0
  show ?thesis by (simp add: f)
qed

text \<open>Tenants share no key, nor do requests that differ in anything the payload names.\<close>

lemma key_isolation:
  assumes "inj digest" "make_key digest m ms t a x s = make_key digest m' ms' t' a' x' s'"
  shows "or_empty a = or_empty a' \<and> or_empty m = or_empty m' \<and> t = t' \<and> x = x' \<and> or_empty s = or_empty s' \<and>
    map (\<lambda>m. (cm_role m, cm_content m)) ms = map (\<lambda>m. (cm_role m, cm_content m)) ms'"
  using injD [OF assms(1) assms(2) [unfolded make_key_def]] by simp

end
