(* ===== verification/Fuzzy_Cache.thy ===== *)
theory Fuzzy_Cache
  imports Schemas
begin

text \<open>
  \<open>SemanticFuzzyCache\<close> (\<open>src/cache/semantic_fuzzy_cache.py\<close>): a lookup is answered with the live
  entry of the same namespace whose character trigrams are most similar (Jaccard), if the similarity
  reaches the threshold. Each call holds the lock; \<open>now\<close> is \<open>time.monotonic()\<close>; the key of a new
  entry, a digest with a fresh UUID, is an argument.
\<close>

subsection \<open>Fingerprints\<close>

definition normalize_messages :: "chat_message list \<Rightarrow> string" where
  "normalize_messages messages =
     lower (strip (join (CHR 0x0A # []) (map (\<lambda>m. cm_role m @ '':'' @ cm_content m) messages)))"

definition char_trigrams :: "string \<Rightarrow> string set" where
  "char_trigrams text = (let padded = ''  '' @ text @ ''  '' in
     if length padded < 3 then {padded}
     else set (map (\<lambda>i. take 3 (drop i padded)) [0..<length padded - 2]))"

definition jaccard :: "string set \<Rightarrow> string set \<Rightarrow> rat" where
  "jaccard a b = (if a = {} \<and> b = {} then 1 else if a = {} \<or> b = {} then 0
     else if card (a \<union> b) \<noteq> 0 then idiv (int (card (a \<inter> b))) (int (card (a \<union> b))) else 0)"

definition fuzzy_namespace :: "string option \<Rightarrow> string option \<Rightarrow> string" where
  "fuzzy_namespace tenant model =
     (case tenant of None \<Rightarrow> [] | Some t \<Rightarrow> t) @ ''|'' @ (case model of None \<Rightarrow> [] | Some m \<Rightarrow> m)"

subsection \<open>The cache\<close>

record 'v fuzzy_entry =
  fe_key :: string
  fe_namespace :: string
  fe_text :: string
  fe_trigrams :: "string set"
  fe_value :: 'v
  fe_expires_at :: rat

record 'v fuzzy_hit =
  fh_key :: string
  fh_value :: 'v
  fh_similarity :: rat

record 'v fuzzy_cache =
  fz_ttl_seconds :: rat
  fz_threshold :: rat
  fz_max_entries :: int
  fz_enabled :: bool
  fz_entries :: "(string \<times> 'v fuzzy_entry) list"
  fz_hits :: int
  fz_misses :: int

definition make_fuzzy_cache :: "rat \<Rightarrow> rat \<Rightarrow> int \<Rightarrow> bool \<Rightarrow> 'v fuzzy_cache result" where
  "make_fuzzy_cache ttl threshold max_entries enabled =
     (if ttl < 0 \<or> \<not> (0 \<le> threshold \<and> threshold \<le> 1) \<or> max_entries < 1 then Inl ValueError
      else Inr \<lparr> fz_ttl_seconds = ttl, fz_threshold = threshold, fz_max_entries = max_entries,
        fz_enabled = enabled, fz_entries = [], fz_hits = 0, fz_misses = 0 \<rparr>)"

definition purge_expired_locked :: "rat \<Rightarrow> (string \<times> 'v fuzzy_entry) list \<Rightarrow> (string \<times> 'v fuzzy_entry) list" where
  "purge_expired_locked now entries = filter (\<lambda>(k, e). \<not> fe_expires_at e \<le> now) entries"

lemma delete_shorter: "(k, e) \<in> set kvs \<Longrightarrow> length (AList.delete k kvs) < length kvs"
  by (force simp: AList.delete_eq intro!: length_filter_less)

text \<open>\<open>while len(entries) > max_entries\<close>: drop the entry that expires first\<close>

function evict_overflow_locked :: "int \<Rightarrow> (string \<times> 'v fuzzy_entry) list \<Rightarrow> (string \<times> 'v fuzzy_entry) list" where
  "evict_overflow_locked max_entries entries =
     (if int (length entries) \<le> max_entries then entries
      else case min_by (\<lambda>(k, e). fe_expires_at e) entries of
        None \<Rightarrow> entries
      | Some (k, e) \<Rightarrow> evict_overflow_locked max_entries (AList.delete k entries))"
  by pat_completeness auto

termination
  by (relation "measure (\<lambda>(m, entries). length entries)") (auto dest!: min_by_in delete_shorter)

declare evict_overflow_locked.simps [simp del]

definition better_hit :: "string set \<Rightarrow> rat \<Rightarrow> string \<Rightarrow> 'v fuzzy_entry \<Rightarrow> 'v fuzzy_hit option \<Rightarrow> 'v fuzzy_hit option" where
  "better_hit trigrams threshold namespace e best =
     (let similarity = jaccard trigrams (fe_trigrams e) in
      if fe_namespace e \<noteq> namespace \<or> similarity < threshold then best
      else case best of
        None \<Rightarrow> Some \<lparr> fh_key = fe_key e, fh_value = fe_value e, fh_similarity = similarity \<rparr>
      | Some b \<Rightarrow> if fh_similarity b < similarity
                   then Some \<lparr> fh_key = fe_key e, fh_value = fe_value e, fh_similarity = similarity \<rparr> else best)"

definition fuzzy_get :: "rat \<Rightarrow> chat_message list \<Rightarrow> string option \<Rightarrow> string option \<Rightarrow> 'v fuzzy_cache \<Rightarrow>
    'v fuzzy_hit option \<times> 'v fuzzy_cache" where
  "fuzzy_get now messages model tenant fz =
     (if \<not> fz_enabled fz then (None, fz\<lparr> fz_misses := fz_misses fz + 1 \<rparr>)
      else let trigrams = char_trigrams (normalize_messages messages);
               namespace = fuzzy_namespace tenant model;
               live = purge_expired_locked now (fz_entries fz);
               fz1 = fz\<lparr> fz_entries := live \<rparr>
           in case fold (better_hit trigrams (fz_threshold fz) namespace) (map snd live) None of
                None \<Rightarrow> (None, fz1\<lparr> fz_misses := fz_misses fz + 1 \<rparr>)
              | Some h \<Rightarrow> (Some h, fz1\<lparr> fz_hits := fz_hits fz + 1 \<rparr>))"

definition fuzzy_set :: "rat \<Rightarrow> string \<Rightarrow> chat_message list \<Rightarrow> 'v \<Rightarrow> string option \<Rightarrow> string option \<Rightarrow>
    'v fuzzy_cache \<Rightarrow> string \<times> 'v fuzzy_cache" where
  "fuzzy_set now key messages v model tenant fz =
     (if \<not> fz_enabled fz then ([], fz)
      else let text = normalize_messages messages;
               e = \<lparr> fe_key = key, fe_namespace = fuzzy_namespace tenant model, fe_text = text,
                     fe_trigrams = char_trigrams text, fe_value = v,
                     fe_expires_at = fadd now (fz_ttl_seconds fz) \<rparr>
           in (key, fz\<lparr> fz_entries := evict_overflow_locked (fz_max_entries fz)
                  (AList.update key e (purge_expired_locked now (fz_entries fz))) \<rparr>))"

definition fuzzy_clear :: "'v fuzzy_cache \<Rightarrow> 'v fuzzy_cache" where
  "fuzzy_clear fz = fz\<lparr> fz_entries := [], fz_hits := 0, fz_misses := 0 \<rparr>"

lemma set_update_cases: "x \<in> set (AList.update k v kvs) \<Longrightarrow> x = (k, v) \<or> x \<in> set kvs"
  by (induction kvs) (auto split: if_splits)

subsection \<open>The best hit\<close>

lemma jaccard_bounds: "0 \<le> jaccard a b \<and> jaccard a b \<le> 1"
proof (cases "finite (a \<union> b) \<and> a \<noteq> {}")
  case True
  then have "card (a \<inter> b) \<le> card (a \<union> b)" by (intro card_mono) auto
  then show ?thesis using True
    by (auto simp: jaccard_def idiv_def intro: dbl.ratio_le_one dbl.ratio_nonneg)
qed (auto simp: jaccard_def idiv_def)

lemma jaccard_refl: "finite a \<Longrightarrow> jaccard a a = 1"
  by (simp add: jaccard_def idiv_def)

lemma finite_trigrams: "finite (char_trigrams t)"
  by (simp add: char_trigrams_def Let_def)

definition hit_of :: "string set \<Rightarrow> 'v fuzzy_entry \<Rightarrow> 'v fuzzy_hit" where
  "hit_of tg e = \<lparr> fh_key = fe_key e, fh_value = fe_value e, fh_similarity = jaccard tg (fe_trigrams e) \<rparr>"

definition answers_to :: "string set \<Rightarrow> rat \<Rightarrow> string \<Rightarrow> 'v fuzzy_entry \<Rightarrow> bool" where
  "answers_to tg th ns e \<longleftrightarrow> fe_namespace e = ns \<and> th \<le> jaccard tg (fe_trigrams e)"

lemma better_hit_eq: "better_hit tg th ns e best =
    (if answers_to tg th ns e \<and> (case best of None \<Rightarrow> True | Some b \<Rightarrow> fh_similarity b < jaccard tg (fe_trigrams e))
     then Some (hit_of tg e) else best)"
  by (auto simp: better_hit_def hit_of_def answers_to_def Let_def not_le split: option.splits)

text \<open>After the loop: an entry of the greatest similarity among those that answer.\<close>

definition best_among :: "string set \<Rightarrow> rat \<Rightarrow> string \<Rightarrow> 'v fuzzy_entry set \<Rightarrow> 'v fuzzy_hit option \<Rightarrow> bool" where
  "best_among tg th ns es best = (case best of
      None \<Rightarrow> \<forall>e \<in> es. \<not> answers_to tg th ns e
    | Some h \<Rightarrow> (\<exists>e \<in> es. answers_to tg th ns e \<and> h = hit_of tg e) \<and>
        (\<forall>e \<in> es. answers_to tg th ns e \<longrightarrow> jaccard tg (fe_trigrams e) \<le> fh_similarity h))"

lemma best_among_step: "best_among tg th ns es best \<Longrightarrow> best_among tg th ns (insert e es) (better_hit tg th ns e best)"
  by (cases best) (auto simp: best_among_def better_hit_eq hit_of_def)

lemma best_hit: "best_among tg th ns (set es) (fold (better_hit tg th ns) es None)"
  by (induction es rule: rev_induct) (simp add: best_among_def, simp add: best_among_step)

subsection \<open>The cache over a history\<close>

datatype 'v fuzzy_op =
    FGet rat "chat_message list" "string option" "string option"
  | FSet rat string "chat_message list" 'v "string option" "string option"
  | FClear

fun fuzzy_step :: "'v fuzzy_op \<Rightarrow> 'v fuzzy_cache \<Rightarrow> 'v fuzzy_cache" where
  "fuzzy_step (FGet now ms model tenant) fz = snd (fuzzy_get now ms model tenant fz)"
| "fuzzy_step (FSet now key ms v model tenant) fz = snd (fuzzy_set now key ms v model tenant fz)"
| "fuzzy_step FClear fz = fuzzy_clear fz"

definition fuzzy_run :: "'v fuzzy_op list \<Rightarrow> 'v fuzzy_cache \<Rightarrow> 'v fuzzy_cache" where
  "fuzzy_run ops fz = fold fuzzy_step ops fz"

text \<open>The entry comes from a call of \<open>set\<close> in the history.\<close>

definition stored_by :: "rat \<Rightarrow> 'v fuzzy_op list \<Rightarrow> 'v fuzzy_entry \<Rightarrow> bool" where
  "stored_by ttl ops e \<longleftrightarrow> (\<exists>t key ms v model tenant. FSet t key ms v model tenant \<in> set ops \<and>
     fe_namespace e = fuzzy_namespace tenant model \<and> fe_trigrams e = char_trigrams (normalize_messages ms) \<and>
     fe_value e = v \<and> fe_expires_at e = fadd t ttl)"

lemma evict_overflow_sub: "set (evict_overflow_locked m es) \<subseteq> set es"
proof (induction m es rule: evict_overflow_locked.induct)
  case (1 m es)
  show ?case
  proof (cases "int (length es) \<le> m \<or> min_by (\<lambda>(k, e). fe_expires_at e) es = None")
    case True
    then show ?thesis by (subst evict_overflow_locked.simps) auto
  next
    case False
    then obtain k e where ke: "min_by (\<lambda>(k, e). fe_expires_at e) es = Some (k, e)" by fastforce
    have "set (AList.delete k es) \<subseteq> set es" by (auto simp: AList.delete_eq)
    with 1 [OF _ ke refl] ke False show ?thesis by (subst evict_overflow_locked.simps) auto
  qed
qed

lemma evict_overflow_bounded:
  fixes es :: "(string \<times> 'v fuzzy_entry) list"
  shows "1 \<le> m \<Longrightarrow> int (length (evict_overflow_locked m es)) \<le> m"
proof (induction m es rule: evict_overflow_locked.induct)
  case (1 m es)
  show ?case
  proof (cases "int (length es) \<le> m")
    case True
    then show ?thesis by (subst evict_overflow_locked.simps) simp
  next
    case False
    then have "es \<noteq> []" using 1 by auto
    then obtain k e where "min_by (\<lambda>(k, e). fe_expires_at e) es = Some (k, e)"
      by (cases "min_by (\<lambda>(k, e). fe_expires_at e) es") auto
    with False 1 show ?thesis by (subst evict_overflow_locked.simps) auto
  qed
qed

lemma fuzzy_config [simp]:
  "fz_ttl_seconds (fuzzy_step op fz) = fz_ttl_seconds fz" "fz_max_entries (fuzzy_step op fz) = fz_max_entries fz"
  "fz_threshold (fuzzy_step op fz) = fz_threshold fz" "fz_enabled (fuzzy_step op fz) = fz_enabled fz"
  by (cases op; simp add: fuzzy_get_def fuzzy_set_def fuzzy_clear_def Let_def split: option.splits)+

lemma fuzzy_run_snoc: "fuzzy_run (ops @ [op]) fz = fuzzy_step op (fuzzy_run ops fz)"
  by (simp add: fuzzy_run_def)

lemma fuzzy_run_config [simp]:
  "fz_ttl_seconds (fuzzy_run ops fz) = fz_ttl_seconds fz" "fz_max_entries (fuzzy_run ops fz) = fz_max_entries fz"
  "fz_threshold (fuzzy_run ops fz) = fz_threshold fz" "fz_enabled (fuzzy_run ops fz) = fz_enabled fz"
  by (induction ops rule: rev_induct) (simp_all add: fuzzy_run_snoc fuzzy_run_def)

lemma stored_by_mono: "stored_by ttl ops e \<Longrightarrow> stored_by ttl (ops @ ops2) e"
  by (fastforce simp: stored_by_def)

lemma fuzzy_run_ok:
  assumes "make_fuzzy_cache ttl th m en = Inr fz0"
  shows "(\<forall>e \<in> snd ` set (fz_entries (fuzzy_run ops fz0)). stored_by ttl ops e) \<and>
    int (length (fz_entries (fuzzy_run ops fz0))) \<le> m"
proof (induction ops rule: rev_induct)
  case Nil
  then show ?case using assms by (auto simp: fuzzy_run_def make_fuzzy_cache_def split: if_splits)
next
  case (snoc op ops)
  let ?fz = "fuzzy_run ops fz0"
  have cfg: "fz_ttl_seconds fz0 = ttl" "fz_max_entries fz0 = m" "1 \<le> m"
    using assms by (auto simp: make_fuzzy_cache_def split: if_splits)
  have old: "stored_by ttl (ops @ [op]) e" if "e \<in> snd ` set (fz_entries ?fz)" for e
    using snoc that stored_by_mono by blast
  have purged: "set (purge_expired_locked now es) \<subseteq> set es" "length (purge_expired_locked now es) \<le> length es"
    for now and es :: "(string \<times> 'a fuzzy_entry) list" by (auto simp: purge_expired_locked_def)
  show ?case
  proof (cases op)
    case (FGet now ms model tenant)
    then have "set (fz_entries (fuzzy_step op ?fz)) \<subseteq> set (fz_entries ?fz)"
      "length (fz_entries (fuzzy_step op ?fz)) \<le> length (fz_entries ?fz)"
      using purged by (auto simp: fuzzy_get_def Let_def split: option.splits)
    then show ?thesis using snoc old by (auto simp: fuzzy_run_snoc)
  next
    case (FSet now key ms v model tenant)
    let ?e = "\<lparr> fe_key = key, fe_namespace = fuzzy_namespace tenant model, fe_text = normalize_messages ms,
      fe_trigrams = char_trigrams (normalize_messages ms), fe_value = v, fe_expires_at = fadd now ttl \<rparr>"
    have new: "stored_by ttl (ops @ [op]) ?e" by (fastforce simp: stored_by_def FSet)
    have sub: "snd ` set (fz_entries (fuzzy_step op ?fz)) \<subseteq> insert ?e (snd ` set (fz_entries ?fz))"
    proof (cases "fz_enabled fz0")
      case True
      then show ?thesis
        using evict_overflow_sub [of m "AList.update key ?e (purge_expired_locked now (fz_entries ?fz))"] purged(1)
        by (fastforce simp: FSet fuzzy_set_def Let_def cfg dest: set_update_cases)
    qed (simp add: FSet fuzzy_set_def image_subset_iff)
    have bounded: "int (length (evict_overflow_locked m es)) \<le> m" for es :: "(string \<times> 'a fuzzy_entry) list"
      using cfg(3) by (rule evict_overflow_bounded)
    have "int (length (fz_entries (fuzzy_step op ?fz))) \<le> m"
      using conjunct2 [OF snoc] bounded by (simp add: FSet fuzzy_set_def Let_def cfg(2))
    moreover have "stored_by ttl (ops @ [op]) e" if "e \<in> snd ` set (fz_entries (fuzzy_step op ?fz))" for e
    proof (cases "e = ?e")
      case False
      show ?thesis by (rule old, rule insertE [OF subsetD [OF sub that]], erule notE [OF False], assumption)
    qed (simp only: new)
    ultimately show ?thesis unfolding fuzzy_run_snoc by (intro conjI ballI)
  next
    case FClear
    then show ?thesis using cfg by (simp add: fuzzy_run_snoc fuzzy_clear_def)
  qed
qed

text \<open>
  C33. The fuzzy cache never invents an answer: after any calls, a hit is the value some earlier call
  stored in the same namespace, still within its time to live, its similarity reaches the threshold
  and is the greatest of the live entries of the namespace; and the cache never exceeds its bound.
\<close>

theorem fuzzy_hits_are_stored_answers:
  assumes "make_fuzzy_cache ttl threshold max_entries True = Inr fz0"
    "fuzzy_get now messages model tenant (fuzzy_run ops fz0) = (Some h, fz1)"
  shows "(\<exists>t key ms model' tenant'. FSet t key ms (fh_value h) model' tenant' \<in> set ops \<and>
      fuzzy_namespace tenant' model' = fuzzy_namespace tenant model \<and> now < fadd t ttl \<and>
      fh_similarity h = jaccard (char_trigrams (normalize_messages messages)) (char_trigrams (normalize_messages ms))) \<and>
    threshold \<le> fh_similarity h \<and>
    (\<forall>(k, e) \<in> set (fz_entries fz1). fe_namespace e = fuzzy_namespace tenant model \<longrightarrow>
       jaccard (char_trigrams (normalize_messages messages)) (fe_trigrams e) \<le> fh_similarity h) \<and>
    int (length (fz_entries fz1)) \<le> max_entries"
proof -
  let ?fz = "fuzzy_run ops fz0" and ?tg = "char_trigrams (normalize_messages messages)" and ?ns = "fuzzy_namespace tenant model"
  let ?live = "purge_expired_locked now (fz_entries ?fz)"
  have cfg: "fz_enabled fz0" "fz_threshold fz0 = threshold"
    using assms(1) by (auto simp: make_fuzzy_cache_def split: if_splits)
  have live: "set ?live \<subseteq> set (fz_entries ?fz)" "length ?live \<le> length (fz_entries ?fz)"
    "\<forall>(k, e) \<in> set ?live. now < fe_expires_at e" by (auto simp: purge_expired_locked_def not_le)
  have fold: "fold (better_hit ?tg threshold ?ns) (map snd ?live) None = Some h" "fz_entries fz1 = ?live"
    using assms(2) cfg by (auto simp: fuzzy_get_def Let_def split: option.splits)
  have best: "best_among ?tg threshold ?ns (snd ` set ?live) (Some h)"
    using best_hit [of ?tg threshold ?ns "map snd ?live"] by (simp add: fold(1))
  then obtain k e where e: "(k, e) \<in> set ?live" "answers_to ?tg threshold ?ns e" "h = hit_of ?tg e"
    by (auto simp: best_among_def)
  note ok = fuzzy_run_ok [OF assms(1), of ops]
  have "stored_by ttl ops e" using ok e(1) live(1) by force
  then have "\<exists>t key ms model' tenant'. FSet t key ms (fh_value h) model' tenant' \<in> set ops \<and>
      fuzzy_namespace tenant' model' = ?ns \<and> now < fadd t ttl \<and>
      fh_similarity h = jaccard ?tg (char_trigrams (normalize_messages ms))"
    using e live(3) unfolding stored_by_def by (fastforce simp: hit_of_def answers_to_def)
  moreover have "threshold \<le> fh_similarity h" using e by (simp add: hit_of_def answers_to_def)
  moreover have "\<forall>(k, e) \<in> set ?live. fe_namespace e = ?ns \<longrightarrow> jaccard ?tg (fe_trigrams e) \<le> fh_similarity h"
    using best \<open>threshold \<le> fh_similarity h\<close> by (fastforce simp: best_among_def answers_to_def)
  ultimately show ?thesis using ok live(2) fold(2) by auto
qed

text \<open>Storing and asking again: the text is its own best match.\<close>

lemma asked_again:
  assumes "fz_enabled fz" "fz_threshold fz \<le> 1" "(k, e) \<in> set (fz_entries fz)" "now < fe_expires_at e"
    "fe_namespace e = fuzzy_namespace tenant model" "fe_trigrams e = char_trigrams (normalize_messages messages)"
  shows "\<exists>h. fst (fuzzy_get now messages model tenant fz) = Some h \<and> fh_similarity h = 1"
proof -
  let ?tg = "char_trigrams (normalize_messages messages)" and ?ns = "fuzzy_namespace tenant model"
  let ?best = "fold (better_hit ?tg (fz_threshold fz) ?ns) (map snd (purge_expired_locked now (fz_entries fz))) None"
  have "e \<in> snd ` set (purge_expired_locked now (fz_entries fz))"
    using assms(3,4) by (force simp: purge_expired_locked_def)
  moreover have "answers_to ?tg (fz_threshold fz) ?ns e" "jaccard ?tg (fe_trigrams e) = 1"
    using assms by (simp_all add: answers_to_def jaccard_refl finite_trigrams)
  moreover have "best_among ?tg (fz_threshold fz) ?ns (snd ` set (purge_expired_locked now (fz_entries fz))) ?best"
    using best_hit [of ?tg "fz_threshold fz" ?ns "map snd (purge_expired_locked now (fz_entries fz))"] by simp
  ultimately obtain h where "?best = Some h" "1 \<le> fh_similarity h" "fh_similarity h \<le> 1"
    by (cases ?best) (fastforce simp: best_among_def hit_of_def jaccard_bounds)+
  then show ?thesis using assms(1) by (simp add: fuzzy_get_def Let_def)
qed

text \<open>The namespace is not injective: a tenant whose name has a bar reads the entries of another.\<close>

lemma namespaces_collide: "fuzzy_namespace (Some ''acme'') (Some ''eu|gpt'') = fuzzy_namespace (Some ''acme|eu'') (Some ''gpt'')"
  by (simp add: fuzzy_namespace_def)

theorem fuzzy_hits_are_stored_answers_witness:
  "\<exists>fz0 h fz1. make_fuzzy_cache 10 (9/10) 2 True = Inr fz0 \<and>
    fuzzy_get 5 [] None (Some ''acme'') (fuzzy_run [FSet 0 ''k'' [] (7 :: nat) None (Some ''acme'')] fz0) = (Some h, fz1) \<and>
    9/10 \<le> fh_similarity h"
proof -
  obtain fz0 :: "nat fuzzy_cache" where fz0: "make_fuzzy_cache 10 (9/10) 2 True = Inr fz0"
    by (simp add: make_fuzzy_cache_def)
  let ?fz = "fuzzy_run [FSet 0 ''k'' [] 7 None (Some ''acme'')] fz0"
  have f: "fadd 0 10 = 10" by (simp add: fadd_def fl_numeral)
  have cfg: "fz_enabled fz0" "fz_threshold fz0 = 9/10" "fz_ttl_seconds fz0 = 10" "fz_entries fz0 = []" "fz_max_entries fz0 = 2"
    using fz0 by (auto simp: make_fuzzy_cache_def)
  have "fz_entries ?fz = [(''k'', \<lparr> fe_key = ''k'', fe_namespace = fuzzy_namespace (Some ''acme'') None,
      fe_text = normalize_messages [], fe_trigrams = char_trigrams (normalize_messages []), fe_value = 7, fe_expires_at = 10 \<rparr>)]"
    by (simp add: fuzzy_run_def fuzzy_set_def cfg f purge_expired_locked_def evict_overflow_locked.simps Let_def)
  then obtain h where h: "fst (fuzzy_get 5 [] None (Some ''acme'') ?fz) = Some h"
    using asked_again [of ?fz "''k''" _ 5 "Some ''acme''" None "[]"] cfg by fastforce
  then obtain fz1 where "fuzzy_get 5 [] None (Some ''acme'') ?fz = (Some h, fz1)" by (metis prod.collapse)
  with fuzzy_hits_are_stored_answers [OF fz0 this] fz0 show ?thesis by blast
qed

end
