(* ===== verification/Tenant_Guards.thy ===== *)
theory Tenant_Guards
  imports Schemas
begin

text \<open>
  Per-tenant guards of \<open>src/safety/\<close>: virtual API keys with a budget and a model allowlist
  (\<open>virtual_keys.py\<close>), in-flight slots (\<open>tenant_concurrency.py\<close>) and sticky providers
  (\<open>sticky_provider.py\<close>). Each call holds its lock. The SHA-256 digest of a raw key is a parameter;
  the random raw key and the UUID of a new key are arguments.
\<close>

subsection \<open>Virtual keys\<close>

record virtual_key =
  vk_key_id :: string
  vk_key_hash :: string
  vk_tenant :: string
  vk_max_budget_usd :: rat
  vk_allowed_models :: "string set"
  vk_enabled :: bool

text \<open>A row of the table; the allowlist is the text of its column.\<close>

record key_row =
  kr_key_id :: string
  kr_key_hash :: string
  kr_tenant :: string
  kr_max_budget_usd :: rat
  kr_allowed_models :: string
  kr_enabled :: bool

definition serialize_models :: "string set \<Rightarrow> string" where
  "serialize_models models = join '','' (sorted_list_of_set models)"

definition deserialize_models :: "string \<Rightarrow> string set" where
  "deserialize_models blob = (if strip blob = [] then {}
     else set (map strip (filter (\<lambda>part. strip part \<noteq> []) (split_on (CHR '','') blob))))"

definition row_to_key :: "key_row \<Rightarrow> virtual_key" where
  "row_to_key r = \<lparr> vk_key_id = kr_key_id r, vk_key_hash = kr_key_hash r, vk_tenant = kr_tenant r,
     vk_max_budget_usd = kr_max_budget_usd r, vk_allowed_models = deserialize_models (kr_allowed_models r),
     vk_enabled = kr_enabled r \<rparr>"

text \<open>Both the id (primary key) and the hash are unique; a violation is the database's error.\<close>

definition vk_create :: "(string \<Rightarrow> string) \<Rightarrow> string \<Rightarrow> string \<Rightarrow> string \<Rightarrow> rat \<Rightarrow> string list \<Rightarrow>
    key_row list \<Rightarrow> (string \<times> virtual_key) result \<times> key_row list" where
  "vk_create digest raw_key key_id tenant max_budget_usd allowed_models rows =
     (if max_budget_usd < 0 then (Inl ValueError, rows)
      else let models = set allowed_models;
               new_key = \<lparr> vk_key_id = key_id, vk_key_hash = digest raw_key, vk_tenant = tenant,
                 vk_max_budget_usd = max_budget_usd, vk_allowed_models = models, vk_enabled = True \<rparr>
           in if list_ex (\<lambda>r. kr_key_id r = key_id \<or> kr_key_hash r = digest raw_key) rows
              then (Inl StorageError, rows)
              else (Inr (raw_key, new_key), rows @ [\<lparr> kr_key_id = key_id, kr_key_hash = digest raw_key,
                 kr_tenant = tenant, kr_max_budget_usd = max_budget_usd,
                 kr_allowed_models = serialize_models models, kr_enabled = True \<rparr>]))"

definition vk_authenticate :: "(string \<Rightarrow> string) \<Rightarrow> string \<Rightarrow> key_row list \<Rightarrow> virtual_key result" where
  "vk_authenticate digest raw_key rows = (case find (\<lambda>r. kr_key_hash r = digest raw_key) rows of
      None \<Rightarrow> Inl VirtualKeyError
    | Some r \<Rightarrow> (let key = row_to_key r in if \<not> vk_enabled key then Inl VirtualKeyError else Inr key))"

definition assert_model_allowed :: "virtual_key \<Rightarrow> string \<Rightarrow> unit result" where
  "assert_model_allowed key model =
     (if vk_allowed_models key \<noteq> {} \<and> model \<notin> vk_allowed_models key then Inl VirtualKeyError else Inr ())"

definition assert_budget :: "virtual_key \<Rightarrow> rat \<Rightarrow> rat \<Rightarrow> unit result" where
  "assert_budget key spent_usd estimated_cost_usd =
     (if vk_max_budget_usd key < fadd spent_usd estimated_cost_usd then Inl VirtualKeyError else Inr ())"

subsection \<open>The allowlist column\<close>

lemma split_on_no_sep: "sep \<notin> set w \<Longrightarrow> split_on sep w = [w]"
  by (induction w) auto

lemma split_on_append: "sep \<notin> set w \<Longrightarrow> split_on sep (w @ sep # rest) = w # split_on sep rest"
  by (induction w) auto

lemma split_join: "ws \<noteq> [] \<Longrightarrow> \<forall>w \<in> set ws. sep \<notin> set w \<Longrightarrow> split_on sep (join [sep] ws) = ws"
  by (induction "[sep]" ws rule: join.induct) (auto simp: split_on_no_sep split_on_append)

lemma strip_empty: "strip s = [] \<longleftrightarrow> (\<forall>c \<in> set s. is_space c)"
proof -
  have "dropWhile is_space s = [] \<longleftrightarrow> (\<forall>c \<in> set s. is_space c)" by (simp add: dropWhile_eq_Nil_conv)
  moreover have "(\<forall>c \<in> set (dropWhile is_space s). is_space c) \<longleftrightarrow> (\<forall>c \<in> set s. is_space c)"
    by (metis dropWhile_eq_Nil_conv hd_dropWhile list.set_sel(1) set_dropWhileD)
  ultimately show ?thesis by (simp add: strip_def dropWhile_eq_Nil_conv)
qed

lemma join_chars: "w \<in> set ws \<Longrightarrow> set w \<subseteq> set (join sep ws)"
  by (induction sep ws rule: join.induct) auto

text \<open>A name the column can hold: no comma, not empty, no white space around it\<close>

definition plain_model :: "string \<Rightarrow> bool" where
  "plain_model m \<longleftrightarrow> m \<noteq> [] \<and> strip m = m \<and> CHR '','' \<notin> set m"

lemma deserialize_serialize:
  assumes "finite ms" "\<forall>m \<in> ms. plain_model m"
  shows "deserialize_models (serialize_models ms) = ms"
proof (cases "ms = {}")
  case True
  then show ?thesis by (simp add: serialize_models_def deserialize_models_def strip_def)
next
  case False
  let ?ws = "sorted_list_of_set ms"
  have ws: "set ?ws = ms" "?ws \<noteq> []" using assms(1) False by simp_all
  obtain m where m: "m \<in> ms" using False by blast
  then have "strip m \<noteq> []" using assms(2) by (auto simp: plain_model_def)
  then have "strip (join '','' ?ws) \<noteq> []" using join_chars [of m ?ws] m ws(1) by (auto simp: strip_empty)
  moreover have "split_on (CHR '','') (join '','' ?ws) = ?ws"
    using assms(2) ws by (intro split_join) (auto simp: plain_model_def)
  ultimately show ?thesis using assms(2) ws(1)
    by (force simp: serialize_models_def deserialize_models_def plain_model_def)
qed

text \<open>Further keys, for anyone\<close>

record key_request =
  qr_raw :: string
  qr_id :: string
  qr_tenant :: string
  qr_budget :: rat
  qr_models :: "string list"

definition vk_create_all :: "(string \<Rightarrow> string) \<Rightarrow> key_request list \<Rightarrow> key_row list \<Rightarrow> key_row list" where
  "vk_create_all digest qs rows = fold (\<lambda>q rows. snd (vk_create digest (qr_raw q) (qr_id q) (qr_tenant q)
     (qr_budget q) (qr_models q) rows)) qs rows"

lemma find_append: "find P xs = Some x \<Longrightarrow> find P (xs @ ys) = Some x"
  by (induction xs) auto

lemma create_all_extends: "\<exists>more_rows. vk_create_all digest qs rows = rows @ more_rows"
proof (induction qs rule: rev_induct)
  case Nil
  then show ?case by (simp add: vk_create_all_def)
next
  case (snoc q qs)
  then show ?case by (force simp: vk_create_all_def vk_create_def Let_def)
qed



text \<open>A key whose allowlist is only white space comes back with the empty allowlist, which permits
  every model; the record returned by \<open>create\<close> permits none.\<close>

lemma blank_allowlist_opens_the_key:
  assumes "vk_create digest raw key_id tenant budget ['' ''] [] = (Inr (raw', key), rows)"
  shows "assert_model_allowed key m = Inr () \<longleftrightarrow> m = '' ''"
    "bind_result (vk_authenticate digest raw rows) (\<lambda>k. assert_model_allowed k m) = Inr ()"
  using assms
  by (auto simp: vk_create_def vk_authenticate_def row_to_key_def assert_model_allowed_def serialize_models_def
      deserialize_models_def strip_def is_space_def split: if_splits)

subsection \<open>In-flight slots\<close>

datatype slot_band = SlotOk | SlotNear | SlotFull

record slot_guard =
  sg_max :: int
  sg_near :: rat
  sg_hard_gate :: bool
  sg_inflight :: "string \<rightharpoonup> int"

record slot_snapshot =
  sn_tenant_id :: string
  sn_in_flight :: int
  sn_max_slots :: int
  sn_band :: slot_band
  sn_remaining :: int
  sn_blocked :: bool

definition make_slot_guard :: "int \<Rightarrow> rat \<Rightarrow> bool \<Rightarrow> slot_guard result" where
  "make_slot_guard max_slots near_ratio hard_gate =
     (if max_slots < 1 \<or> \<not> (0 < near_ratio \<and> near_ratio < 1) then Inl ValueError
      else Inr \<lparr> sg_max = max_slots, sg_near = near_ratio, sg_hard_gate = hard_gate, sg_inflight = Map.empty \<rparr>)"

text \<open>The advisory text is left out.\<close>

definition slot_snap :: "slot_guard \<Rightarrow> string \<Rightarrow> int \<Rightarrow> slot_snapshot" where
  "slot_snap sg tenant_id n =
     (let ratio = fdiv (fint n) (fint (sg_max sg));
          band = (if sg_max sg \<le> n then SlotFull else if sg_near sg \<le> ratio then SlotNear else SlotOk)
      in \<lparr> sn_tenant_id = tenant_id, sn_in_flight = n, sn_max_slots = sg_max sg, sn_band = band,
           sn_remaining = max 0 (sg_max sg - n), sn_blocked = (band = SlotFull) \<rparr>)"

definition slot_count :: "slot_guard \<Rightarrow> string \<Rightarrow> int" where
  "slot_count sg tenant_id = (case sg_inflight sg tenant_id of None \<Rightarrow> 0 | Some n \<Rightarrow> n)"

definition slot_acquire :: "string \<Rightarrow> slot_guard \<Rightarrow> slot_snapshot result \<times> slot_guard" where
  "slot_acquire tenant_id sg =
     (let n = slot_count sg tenant_id in
      if tenant_id = [] then (Inl ValueError, sg)
      else if sg_hard_gate sg \<and> sg_max sg \<le> n then (Inl (TenantConcurrencyExceededError tenant_id), sg)
      else (Inr (slot_snap sg tenant_id (n + 1)), sg\<lparr> sg_inflight := (sg_inflight sg)(tenant_id \<mapsto> n + 1) \<rparr>))"

definition slot_release :: "string \<Rightarrow> slot_guard \<Rightarrow> slot_snapshot option result \<times> slot_guard" where
  "slot_release tenant_id sg =
     (if tenant_id = [] then (Inl ValueError, sg)
      else case sg_inflight sg tenant_id of
        None \<Rightarrow> (Inr None, sg)
      | Some k \<Rightarrow>
          (let n = max 0 (k - 1) in
           if n = 0 then (Inr (Some (slot_snap sg tenant_id 0)), sg\<lparr> sg_inflight := (sg_inflight sg)(tenant_id := None) \<rparr>)
           else (Inr (Some (slot_snap sg tenant_id n)), sg\<lparr> sg_inflight := (sg_inflight sg)(tenant_id \<mapsto> n) \<rparr>)))"

definition slot_snapshot_of :: "string \<Rightarrow> slot_guard \<Rightarrow> slot_snapshot option result" where
  "slot_snapshot_of tenant_id sg = (if tenant_id = [] then Inl ValueError
     else Inr (map_option (slot_snap sg tenant_id) (sg_inflight sg tenant_id)))"

text \<open>With the hard gate a tenant never holds more than its slots, and the table holds no idle tenant.\<close>

definition slots_ok :: "slot_guard \<Rightarrow> bool" where
  "slots_ok sg \<longleftrightarrow> 1 \<le> sg_max sg \<and>
     (\<forall>t n. sg_inflight sg t = Some n \<longrightarrow> 1 \<le> n \<and> (sg_hard_gate sg \<longrightarrow> n \<le> sg_max sg))"

lemma make_slots_ok: "make_slot_guard m nr hg = Inr sg \<Longrightarrow> slots_ok sg"
  by (auto simp: make_slot_guard_def slots_ok_def split: if_splits)

lemma acquire_slots_ok: "slots_ok sg \<Longrightarrow> slots_ok (snd (slot_acquire t sg))"
  by (force simp: slot_acquire_def slot_count_def slots_ok_def Let_def split: option.splits if_splits)

lemma release_slots_ok: "slots_ok sg \<Longrightarrow> slots_ok (snd (slot_release t sg))"
  by (force simp: slot_release_def slots_ok_def Let_def split: option.splits if_splits)

lemma acquire_release:
  "slots_ok sg \<Longrightarrow> slot_acquire t sg = (Inr s, sg1) \<Longrightarrow> snd (slot_release t sg1) = sg"
  by (fastforce simp: slot_acquire_def slot_release_def slot_count_def slots_ok_def Let_def fun_upd_idem max_def
      split: if_splits option.splits)

subsection \<open>Sticky providers\<close>

type_synonym sticky_affinity = "(string \<times> string) list"

definition sticky_bind :: "string \<Rightarrow> string \<Rightarrow> sticky_affinity \<Rightarrow> (string \<times> string) result \<times> sticky_affinity" where
  "sticky_bind session_key provider sa = (if session_key = [] \<or> provider = [] then (Inl ValueError, sa)
     else (Inr (session_key, provider), AList.update session_key provider sa))"

definition sticky_get :: "string \<Rightarrow> sticky_affinity \<Rightarrow> string option result" where
  "sticky_get session_key sa = (if session_key = [] then Inl ValueError else Inr (map_of sa session_key))"

definition sticky_clear :: "string \<Rightarrow> sticky_affinity \<Rightarrow> bool result \<times> sticky_affinity" where
  "sticky_clear session_key sa = (if session_key = [] then (Inl ValueError, sa)
     else (Inr (map_of sa session_key \<noteq> None), AList.delete session_key sa))"

definition sticky_sessions :: "sticky_affinity \<Rightarrow> string list" where
  "sticky_sessions sa = sorted_by (\<lambda>k. k) (map fst sa)"

lemma sticky_bind_get:
  "sticky_bind k p sa = (Inr b, sa1) \<Longrightarrow> sticky_get k' sa1 = (if k' = k then Inr (Some p) else sticky_get k' sa)"
  by (auto simp: sticky_bind_def sticky_get_def update_conv' split: if_splits)

lemma sticky_clear_get: "k \<noteq> [] \<Longrightarrow> sticky_get k (snd (sticky_clear k sa)) = Inr None"
  by (simp add: sticky_clear_def sticky_get_def delete_conv)

end
