(* ===== verification/Queueing.thy ===== *)
theory Queueing
  imports Schemas
begin

text \<open>
  The request queue with priority lanes (\<open>src/safety/priority_lane.py\<close>) and the static fallback
  planner (\<open>src/safety/fallback_chain.py\<close>). Each call of the queue holds its lock. A \<open>PriorityClass\<close>
  is a \<open>StrEnum\<close>, so a lane may be given as its value; the rationale of a plan is left out.
\<close>

subsection \<open>The lanes\<close>

datatype priority_class = HighClass | NormalClass | BulkClass

definition lanes :: "priority_class list" where
  "lanes = [HighClass, NormalClass, BulkClass]"

text \<open>\<open>PriorityClass(value)\<close>\<close>

definition priority_class_of :: "string \<Rightarrow> priority_class result" where
  "priority_class_of s = (if s = ''high'' then Inr HighClass else if s = ''normal'' then Inr NormalClass
     else if s = ''bulk'' then Inr BulkClass else Inl ValueError)"

definition normalize_priority :: "string \<Rightarrow> priority_class result" where
  "normalize_priority s = priority_class_of (lower (strip s))"

fun default_weights :: "priority_class \<Rightarrow> int" where
  "default_weights HighClass = 4" | "default_weights NormalClass = 2" | "default_weights BulkClass = 1"

fun resolve_weights :: "(string \<times> int) list \<Rightarrow> (priority_class \<Rightarrow> int) \<Rightarrow> (priority_class \<Rightarrow> int) result" where
  "resolve_weights [] w = Inr w"
| "resolve_weights ((key, v) # ws) w = bind_result (priority_class_of key) (\<lambda>lane. resolve_weights ws (w(lane := v)))"

definition build_cycle :: "(priority_class \<Rightarrow> int) \<Rightarrow> priority_class list" where
  "build_cycle w = concat (map (\<lambda>lane. replicate (nat (w lane)) lane) lanes)"

record priority_lane =
  pl_weights :: "priority_class \<Rightarrow> int"
  pl_queues :: "priority_class \<Rightarrow> string list"
  pl_cycle :: "priority_class list"
  pl_cycle_index :: nat

definition make_priority_lane :: "(string \<times> int) list \<Rightarrow> priority_lane result" where
  "make_priority_lane weights = bind_result (resolve_weights weights default_weights)
     (\<lambda>w. if list_ex (\<lambda>lane. w lane \<le> 0) lanes then Inl ValueError
           else Inr \<lparr> pl_weights = w, pl_queues = (\<lambda>_. []), pl_cycle = build_cycle w, pl_cycle_index = 0 \<rparr>)"

definition pl_enqueue :: "string \<Rightarrow> string \<Rightarrow> priority_lane \<Rightarrow> unit result \<times> priority_lane" where
  "pl_enqueue request_id priority pl =
     (if request_id = [] then (Inl ValueError, pl)
      else case normalize_priority priority of
        Inl e \<Rightarrow> (Inl e, pl)
      | Inr lane \<Rightarrow> (Inr (), pl\<lparr> pl_queues := (pl_queues pl)(lane := pl_queues pl lane @ [request_id]) \<rparr>))"

text \<open>\<open>while checked < len(cycle)\<close>, with the number of checks left\<close>

fun dequeue_scan :: "nat \<Rightarrow> priority_lane \<Rightarrow> (string \<times> priority_class) option \<times> priority_lane" where
  "dequeue_scan 0 pl = (None, pl)"
| "dequeue_scan (Suc n) pl =
     (let lane = pl_cycle pl ! (pl_cycle_index pl mod length (pl_cycle pl));
          pl1 = pl\<lparr> pl_cycle_index := (pl_cycle_index pl + 1) mod length (pl_cycle pl) \<rparr>
      in case pl_queues pl1 lane of
           [] \<Rightarrow> dequeue_scan n pl1
         | r # rest \<Rightarrow> (Some (r, lane), pl1\<lparr> pl_queues := (pl_queues pl1)(lane := rest) \<rparr>))"

definition pl_dequeue :: "priority_lane \<Rightarrow> (string \<times> priority_class) option \<times> priority_lane" where
  "pl_dequeue pl = (if \<not> list_ex (\<lambda>lane. pl_queues pl lane \<noteq> []) lanes then (None, pl)
     else dequeue_scan (length (pl_cycle pl)) pl)"

definition pl_depth :: "string option \<Rightarrow> priority_lane \<Rightarrow> int result" where
  "pl_depth priority pl = (case priority of
      None \<Rightarrow> Inr (sum_list (map (\<lambda>lane. int (length (pl_queues pl lane))) lanes))
    | Some p \<Rightarrow> bind_result (normalize_priority p) (\<lambda>lane. Inr (int (length (pl_queues pl lane)))))"

definition pl_pending :: "priority_lane \<Rightarrow> (string \<times> priority_class) list" where
  "pl_pending pl = concat (map (\<lambda>lane. map (\<lambda>r. (r, lane)) (pl_queues pl lane)) lanes)"

definition pl_clear :: "priority_lane \<Rightarrow> priority_lane" where
  "pl_clear pl = pl\<lparr> pl_queues := (\<lambda>_. []), pl_cycle_index := 0 \<rparr>"

subsection \<open>Histories\<close>

datatype lane_op = Enq string string | Deq | Clr

text \<open>The requests handed out, in their order, and the state afterwards\<close>

fun lane_run :: "lane_op list \<Rightarrow> priority_lane \<Rightarrow> (string \<times> priority_class) list \<times> priority_lane" where
  "lane_run [] pl = ([], pl)"
| "lane_run (Enq r p # ops) pl = lane_run ops (snd (pl_enqueue r p pl))"
| "lane_run (Clr # ops) pl = lane_run ops (pl_clear pl)"
| "lane_run (Deq # ops) pl = (case pl_dequeue pl of
      (None, pl1) \<Rightarrow> lane_run ops pl1
    | (Some q, pl1) \<Rightarrow> (let (served, pl2) = lane_run ops pl1 in (q # served, pl2)))"

definition served_from :: "priority_class \<Rightarrow> (string \<times> priority_class) list \<Rightarrow> string list" where
  "served_from lane qs = map fst (filter (\<lambda>q. snd q = lane) qs)"

lemma served_from_simps [simp]:
  "served_from lane [] = []"
  "served_from lane ((r, l) # qs) = (if l = lane then r # served_from lane qs else served_from lane qs)"
  by (simp_all add: served_from_def)

text \<open>The cycle visits every lane.\<close>

definition lane_ok :: "priority_lane \<Rightarrow> bool" where
  "lane_ok pl \<longleftrightarrow> set (pl_cycle pl) = UNIV \<and> pl_cycle_index pl < length (pl_cycle pl)"

lemma all_lanes: "set lanes = UNIV"
  using priority_class.exhaust by (auto simp: lanes_def)

lemma make_lane_ok: "make_priority_lane ws = Inr pl \<Longrightarrow> lane_ok pl \<and> length (pl_cycle pl) = nat (sum_list (map (pl_weights pl) lanes))"
  using all_lanes
  by (force simp: make_priority_lane_def bind_result_Inr lane_ok_def build_cycle_def lanes_def nat_add_distrib not_le
      split: if_splits)

lemma enqueue_keeps [simp]:
  "pl_cycle (snd (pl_enqueue r p pl)) = pl_cycle pl" "pl_cycle_index (snd (pl_enqueue r p pl)) = pl_cycle_index pl"
  by (simp_all add: pl_enqueue_def split: sum.splits)

lemma enqueue_ok [simp]: "lane_ok (snd (pl_enqueue r p pl)) = lane_ok pl"
  by (simp add: lane_ok_def)

lemma clear_ok: "lane_ok pl \<Longrightarrow> lane_ok (pl_clear pl) \<and> pl_cycle (pl_clear pl) = pl_cycle pl"
  by (cases "pl_cycle pl") (simp_all add: lane_ok_def pl_clear_def)

lemma enqueue_queue: "\<exists>new_ids. pl_queues (snd (pl_enqueue r p pl)) lane = pl_queues pl lane @ new_ids"
  by (auto simp: pl_enqueue_def split: sum.splits)

lemma advance_ok: "lane_ok pl \<Longrightarrow> lane_ok (pl\<lparr> pl_cycle_index := (pl_cycle_index pl + 1) mod length (pl_cycle pl) \<rparr>)"
  by (simp add: lane_ok_def) (metis gr_zeroI less_nat_zero_code list.size(3) mod_less_divisor length_greater_0_conv)

lemma scan_keeps: "lane_ok pl \<Longrightarrow> lane_ok (snd (dequeue_scan n pl)) \<and> pl_cycle (snd (dequeue_scan n pl)) = pl_cycle pl"
proof (induction n arbitrary: pl)
  case (Suc n)
  let ?lane = "pl_cycle pl ! (pl_cycle_index pl mod length (pl_cycle pl))"
  show ?case
  proof (cases "pl_queues pl ?lane")
    case Nil
    then show ?thesis using Suc.IH [OF advance_ok [OF Suc.prems]] by (simp add: Let_def)
  next
    case (Cons r rest)
    then show ?thesis using advance_ok [OF Suc.prems] by (simp add: Let_def lane_ok_def)
  qed
qed simp

lemma dequeue_keeps: "pl_dequeue pl = (q, pl') \<Longrightarrow> lane_ok pl \<Longrightarrow> pl_cycle pl' = pl_cycle pl \<and> lane_ok pl'"
  using scan_keeps [of pl "length (pl_cycle pl)"] by (auto simp: pl_dequeue_def split: if_splits)

text \<open>\<open>d\<close> steps after the cursor it is the lane's turn.\<close>

definition turn_in :: "priority_class \<Rightarrow> nat \<Rightarrow> priority_lane \<Rightarrow> bool" where
  "turn_in lane d pl \<longleftrightarrow> pl_cycle pl ! ((pl_cycle_index pl + d) mod length (pl_cycle pl)) = lane"

lemma turn_comes: "lane_ok pl \<Longrightarrow> \<exists>d < length (pl_cycle pl). turn_in lane d pl"
proof -
  assume ok: "lane_ok pl"
  let ?n = "length (pl_cycle pl)" and ?i = "pl_cycle_index pl"
  have "lane \<in> set (pl_cycle pl)" using ok by (simp add: lane_ok_def)
  then obtain j where j: "j < ?n" "pl_cycle pl ! j = lane" by (auto simp: in_set_conv_nth)
  have i: "?i < ?n" using ok by (simp add: lane_ok_def)
  have "(?i + (j + ?n - ?i) mod ?n) mod ?n = j" using i j(1)
    by (simp add: mod_add_right_eq)
  moreover have "(j + ?n - ?i) mod ?n < ?n" using i by (intro mod_less_divisor) linarith
  ultimately show ?thesis using j(2) unfolding turn_in_def by metis
qed

lemma turn_step: "0 < d \<Longrightarrow> turn_in lane d pl \<Longrightarrow>
    turn_in lane (d - 1) (pl\<lparr> pl_cycle_index := (pl_cycle_index pl + 1) mod length (pl_cycle pl) \<rparr>)"
  by (cases d) (simp_all add: turn_in_def mod_add_left_eq)

text \<open>One dequeue serves the waiting lane or brings its turn nearer.\<close>

lemma scan_progress:
  assumes "turn_in lane d pl" "d < n" "pl_queues pl lane = r # rest"
  shows "\<exists>q pl'. dequeue_scan n pl = (Some q, pl') \<and>
    (q = (r, lane) \<and> pl_queues pl' lane = rest \<or>
     snd q \<noteq> lane \<and> pl_queues pl' lane = r # rest \<and> (\<exists>d' < d. turn_in lane d' pl'))"
  using assms
proof (induction n arbitrary: d pl)
  case 0
  then show ?case by simp
next
  case (Suc n)
  let ?lane = "pl_cycle pl ! (pl_cycle_index pl mod length (pl_cycle pl))"
  let ?pl1 = "pl\<lparr> pl_cycle_index := (pl_cycle_index pl + 1) mod length (pl_cycle pl) \<rparr>"
  show ?case
  proof (cases "?lane = lane")
    case True
    then show ?thesis using Suc.prems by (simp add: Let_def)
  next
    case False
    then have d: "0 < d" using Suc.prems(1) by (cases d) (auto simp: turn_in_def)
    note nearer = turn_step [OF d Suc.prems(1)]
    show ?thesis
    proof (cases "pl_queues pl ?lane")
      case Nil
      have "d - 1 < n" using Suc.prems(2) d by simp
      from Suc.IH [OF nearer this] Suc.prems(3) obtain q pl' where ih: "dequeue_scan n ?pl1 = (Some q, pl')"
        "q = (r, lane) \<and> pl_queues pl' lane = rest \<or>
         snd q \<noteq> lane \<and> pl_queues pl' lane = r # rest \<and> (\<exists>d' < d - 1. turn_in lane d' pl')" by fastforce
      have "dequeue_scan (Suc n) pl = (Some q, pl')" using Nil ih(1) by (simp add: Let_def)
      moreover have "\<exists>d' < d. turn_in lane d' pl'" if "\<exists>d' < d - 1. turn_in lane d' pl'"
        using that by (meson less_imp_diff_less less_trans diff_le_self order_less_le_trans)
      ultimately show ?thesis using ih(2) by blast
    next
      case (Cons x xs)
      have "turn_in lane (d - 1) (?pl1\<lparr> pl_queues := qs \<rparr>)" for qs using nearer by (simp add: turn_in_def)
      then show ?thesis using Cons False Suc.prems(3) d by (auto simp: Let_def intro!: exI [of _ "d - 1"])
    qed
  qed
qed

lemma dequeue_progress:
  assumes "turn_in lane d pl" "d < length (pl_cycle pl)" "pl_queues pl lane = r # rest"
  shows "\<exists>q pl'. pl_dequeue pl = (Some q, pl') \<and>
    (q = (r, lane) \<and> pl_queues pl' lane = rest \<or>
     snd q \<noteq> lane \<and> pl_queues pl' lane = r # rest \<and> (\<exists>d' < d. turn_in lane d' pl'))"
proof -
  have "list_ex (\<lambda>l. pl_queues pl l \<noteq> []) lanes" using assms(3) by (auto simp: list_ex_iff all_lanes intro!: exI [of _ lane])
  then show ?thesis using scan_progress [OF assms] by (simp add: pl_dequeue_def)
qed

definition dequeues :: "lane_op list \<Rightarrow> nat" where
  "dequeues ops = length (filter (\<lambda>op. op = Deq) ops)"

lemma dequeues_simps [simp]:
  "dequeues [] = 0" "dequeues (Deq # ops) = Suc (dequeues ops)" "dequeues (Enq r p # ops) = dequeues ops"
  by (simp_all add: dequeues_def)

text \<open>The first \<open>k\<close> waiting requests of a lane need at most \<open>k - 1\<close> full cycles and one turn.\<close>

lemma waiting_are_served:
  assumes "lane_ok pl" "turn_in lane d pl" "d < length (pl_cycle pl)" "pl_queues pl lane = first @ rest"
    "Clr \<notin> set ops" "(length first - 1) * length (pl_cycle pl) + d + 1 \<le> dequeues ops"
  shows "take (length first) (served_from lane (fst (lane_run ops pl))) = first"
  using assms
proof (induction ops arbitrary: pl d first rest)
  case Nil
  then show ?case by simp
next
  case (Cons op ops)
  show ?case
  proof (cases op)
    case (Enq r p)
    obtain ids where q: "pl_queues (snd (pl_enqueue r p pl)) lane = pl_queues pl lane @ ids" using enqueue_queue by blast
    show ?thesis
      using Cons.IH [of "snd (pl_enqueue r p pl)" d first "rest @ ids"] Cons.prems q
      by (simp add: Enq turn_in_def lane_ok_def)
  next
    case Deq
    show ?thesis
    proof (cases first)
      case Nil
      then show ?thesis by simp
    next
      case (Cons r more_ids)
      then have queue: "pl_queues pl lane = r # (more_ids @ rest)" using Cons.prems by simp
      obtain q pl' where dq: "pl_dequeue pl = (Some q, pl')"
        "q = (r, lane) \<and> pl_queues pl' lane = more_ids @ rest \<or>
         snd q \<noteq> lane \<and> pl_queues pl' lane = r # (more_ids @ rest) \<and> (\<exists>d' < d. turn_in lane d' pl')"
        using dequeue_progress [OF Cons.prems(2,3) queue] by blast
      have ok: "pl_cycle pl' = pl_cycle pl" "lane_ok pl'" using dequeue_keeps [OF dq(1) Cons.prems(1)] by blast+
      obtain served pl2 where run: "lane_run ops pl' = (served, pl2)" by fastforce
      have no_clear: "Clr \<notin> set ops" using Cons.prems(5) by simp
      from dq(2) show ?thesis
      proof (elim disjE conjE exE)
        assume q: "q = (r, lane)" "pl_queues pl' lane = more_ids @ rest"
        have "take (length more_ids) (served_from lane served) = more_ids"
        proof (cases more_ids)
          case (Cons r2 ids)
          obtain d' where d': "d' < length (pl_cycle pl')" "turn_in lane d' pl'" using turn_comes [OF ok(2)] by blast
          have "(length more_ids - 1) * length (pl_cycle pl') + d' + 1 \<le> dequeues ops"
            using Cons.prems(6) d' ok(1) by (simp add: \<open>op = Deq\<close> \<open>first = _\<close> Cons)
          from Cons.IH [OF ok(2) d'(2,1) q(2) no_clear this] show ?thesis by (simp add: run)
        qed simp
        then show ?thesis by (simp add: Deq dq(1) run q(1) \<open>first = _\<close>)
      next
        fix d' assume q: "snd q \<noteq> lane" "pl_queues pl' lane = r # (more_ids @ rest)" "d' < d" "turn_in lane d' pl'"
        have "(length first - 1) * length (pl_cycle pl') + d' + 1 \<le> dequeues ops"
          using Cons.prems(6) q(3) by (simp add: Deq ok(1))
        moreover have "pl_queues pl' lane = first @ rest" "d' < length (pl_cycle pl')"
          using q Cons.prems(3) ok(1) \<open>first = _\<close> by simp_all
        ultimately have "take (length first) (served_from lane served) = first"
          using Cons.IH [OF ok(2) q(4)] no_clear by (simp add: run)
        then show ?thesis using q(1) by (cases q) (simp add: Deq dq(1) run)
      qed
    qed
  next
    case Clr
    then show ?thesis using Cons.prems(5) by simp
  qed
qed

text \<open>
  C35. No lane starves: with the default or any accepted weights, a request with \<open>i\<close> requests before
  it in its lane is handed out, after exactly those, within \<open>(i + 1) * W\<close> dequeues, \<open>W\<close> being the
  sum of the weights, whatever else is enqueued meanwhile in any lane.
\<close>

theorem no_lane_starves:
  assumes "make_priority_lane ws = Inr pl0" "Clr \<notin> set ops"
    "pl_queues (snd (lane_run history pl0)) lane = before_it @ r # after_it"
    "(length before_it + 1) * nat (sum_list (map (pl_weights pl0) lanes)) \<le> dequeues ops"
  shows "\<exists>later. served_from lane (fst (lane_run ops (snd (lane_run history pl0)))) = before_it @ r # later"
proof -
  let ?pl = "snd (lane_run history pl0)"
  note start = make_lane_ok [OF assms(1)]
  have kept: "lane_ok pl \<Longrightarrow> lane_ok (snd (lane_run h pl)) \<and> pl_cycle (snd (lane_run h pl)) = pl_cycle pl" for h pl
  proof (induction h pl rule: lane_run.induct)
    case (2 r p ops pl)
    then show ?case by simp
  next
    case (3 ops pl)
    then show ?case using clear_ok [of pl] by simp
  next
    case (4 ops pl)
    then show ?case using dequeue_keeps [OF _ "4.prems"]
      by (cases "pl_dequeue pl"; cases "fst (pl_dequeue pl)") (fastforce simp: split_beta)+
  qed simp
  then have ok: "lane_ok ?pl" "length (pl_cycle ?pl) = nat (sum_list (map (pl_weights pl0) lanes))" using start by auto
  obtain d where d: "d < length (pl_cycle ?pl)" "turn_in lane d ?pl" using turn_comes [OF ok(1)] by blast
  have "(length (before_it @ [r]) - 1) * length (pl_cycle ?pl) + d + 1 \<le> dequeues ops"
    using assms(4) d(1) by (simp add: ok(2))
  from waiting_are_served [OF ok(1) d(2,1) _ assms(2) this, of after_it] assms(3)
  have "take (length (before_it @ [r])) (served_from lane (fst (lane_run ops ?pl))) = before_it @ [r]" by simp
  then show ?thesis by (metis append_take_drop_id append.assoc append_Cons append_Nil)
qed

theorem no_lane_starves_witness:
  "\<exists>pl0 later. make_priority_lane [] = Inr pl0 \<and>
    served_from BulkClass (fst (lane_run (replicate 7 Deq)
      (snd (lane_run [Enq ''a'' ''high'', Enq ''b'' '' Bulk ''] pl0)))) = ''b'' # later"
proof -
  obtain pl0 where pl0: "make_priority_lane [] = Inr pl0" by (simp add: make_priority_lane_def lanes_def)
  have w: "nat (sum_list (map (pl_weights pl0) lanes)) = 7" and q: "pl_queues pl0 = (\<lambda>_. [])"
    using pl0 by (auto simp: make_priority_lane_def lanes_def)
  have norm: "normalize_priority '' Bulk '' = Inr BulkClass" "normalize_priority ''high'' = Inr HighClass"
    by code_simp+
  have "pl_queues (snd (lane_run [Enq ''a'' ''high'', Enq ''b'' '' Bulk ''] pl0)) BulkClass = [] @ ''b'' # []"
    by (simp add: pl_enqueue_def norm q)
  from no_lane_starves [OF pl0 _ this, of "replicate 7 Deq"] w pl0 show ?thesis
    by (simp add: dequeues_def)
qed

subsection \<open>The static fallback planner\<close>

record chain_plan =
  ch_primary :: string
  ch_chain :: "string list"
  ch_skipped_unavailable :: "string list"

definition ch_ordered :: "chain_plan \<Rightarrow> string list" where
  "ch_ordered p = ch_primary p # ch_chain p"

definition make_chain_planner :: "string list \<Rightarrow> string list result" where
  "make_chain_planner preference_order = (if list_ex (\<lambda>p. p = []) preference_order then Inl ValueError
     else Inr preference_order)"

text \<open>First-seen order\<close>

fun unique_names :: "string list \<Rightarrow> string list \<Rightarrow> string list" where
  "unique_names seen [] = []"
| "unique_names seen (n # ns) = (if n \<in> set seen then unique_names seen ns else n # unique_names (n # seen) ns)"

definition chain_order :: "string list \<Rightarrow> string list \<Rightarrow> string list" where
  "chain_order prefs available =
     filter (\<lambda>n. n \<in> set available) prefs @ filter (\<lambda>n. n \<notin> set prefs) available"

definition plan_chain :: "string list \<Rightarrow> string list \<Rightarrow> string set \<Rightarrow> string option \<Rightarrow> string list option \<Rightarrow>
    chain_plan result" where
  "plan_chain own_prefs candidates blocked primary preference_order =
     (let unique = unique_names [] candidates;
          skipped = filter (\<lambda>n. n \<in> blocked) unique;
          available = filter (\<lambda>n. n \<notin> blocked) unique;
          prefs = (case preference_order of Some ps \<Rightarrow> ps | None \<Rightarrow> own_prefs);
          ordered = chain_order prefs available
      in if candidates = [] \<or> primary = Some [] \<or> [] \<in> set candidates \<or> available = [] \<or> [] \<in> set prefs
         then Inl ValueError
         else case primary of
           None \<Rightarrow> Inr \<lparr> ch_primary = hd ordered, ch_chain = tl ordered, ch_skipped_unavailable = skipped \<rparr>
         | Some p \<Rightarrow>
             (if p \<notin> set available then Inl ValueError
              else Inr \<lparr> ch_primary = p, ch_chain = filter (\<lambda>n. n \<noteq> p) ordered, ch_skipped_unavailable = skipped \<rparr>))"

lemma unique_names_ok: "distinct (unique_names seen ns) \<and> set (unique_names seen ns) = set ns - set seen"
  by (induction seen ns rule: unique_names.induct) auto

lemma chain_order_set: "set (chain_order prefs available) = set available"
  by (auto simp: chain_order_def)

lemma chain_order_distinct: "distinct prefs \<Longrightarrow> distinct available \<Longrightarrow> distinct (chain_order prefs available)"
  by (auto simp: chain_order_def)

lemma plan_chain_cases:
  assumes "plan_chain own candidates blocked primary order = Inr p"
  defines "prefs \<equiv> case order of Some ps \<Rightarrow> ps | None \<Rightarrow> own"
    and "available \<equiv> filter (\<lambda>n. n \<notin> blocked) (unique_names [] candidates)"
  shows "available \<noteq> []" "ch_skipped_unavailable p = filter (\<lambda>n. n \<in> blocked) (unique_names [] candidates)"
    "ch_ordered p = (case primary of None \<Rightarrow> chain_order prefs available
      | Some x \<Rightarrow> x # filter (\<lambda>n. n \<noteq> x) (chain_order prefs available))"
    "primary = Some x \<Longrightarrow> x \<in> set available"
proof -
  have split: "if candidates = [] \<or> primary = Some [] \<or> [] \<in> set candidates \<or> available = [] \<or> [] \<in> set prefs then False
    else case primary of
      None \<Rightarrow> p = \<lparr> ch_primary = hd (chain_order prefs available), ch_chain = tl (chain_order prefs available),
        ch_skipped_unavailable = filter (\<lambda>n. n \<in> blocked) (unique_names [] candidates) \<rparr>
    | Some x \<Rightarrow> x \<in> set available \<and> p = \<lparr> ch_primary = x, ch_chain = filter (\<lambda>n. n \<noteq> x) (chain_order prefs available),
        ch_skipped_unavailable = filter (\<lambda>n. n \<in> blocked) (unique_names [] candidates) \<rparr>"
    using assms(1) unfolding plan_chain_def Let_def prefs_def [symmetric] available_def [symmetric]
    by (cases primary) (auto split: if_splits)
  then show av: "available \<noteq> []" by (auto split: if_splits)
  have "chain_order prefs available \<noteq> []" using av chain_order_set [of prefs available] by (metis set_empty)
  then show "ch_skipped_unavailable p = filter (\<lambda>n. n \<in> blocked) (unique_names [] candidates)"
    "ch_ordered p = (case primary of None \<Rightarrow> chain_order prefs available
      | Some x \<Rightarrow> x # filter (\<lambda>n. n \<noteq> x) (chain_order prefs available))"
    "primary = Some x \<Longrightarrow> x \<in> set available"
    using split by (cases primary; simp add: ch_ordered_def split: if_splits)+
qed

text \<open>
  C36. A fallback plan is exactly the available candidates: each is attempted, no blocked or unknown
  provider is, the blocked ones are reported, a requested primary comes first, and nothing is
  attempted twice as long as no preference is listed twice.
\<close>

theorem plan_covers_available:
  assumes "plan_chain own candidates blocked primary order = Inr p"
  shows "set (ch_ordered p) = set candidates - blocked \<and> set (ch_skipped_unavailable p) = set candidates \<inter> blocked \<and>
    (case primary of Some x \<Rightarrow> ch_primary p = x | None \<Rightarrow> True) \<and>
    (distinct (case order of Some ps \<Rightarrow> ps | None \<Rightarrow> own) \<longrightarrow> distinct (ch_ordered p))"
proof -
  let ?prefs = "case order of Some ps \<Rightarrow> ps | None \<Rightarrow> own"
  let ?av = "filter (\<lambda>n. n \<notin> blocked) (unique_names [] candidates)"
  note plan = plan_chain_cases [OF assms]
  have av: "set ?av = set candidates - blocked" "distinct ?av" using unique_names_ok [of "[]" candidates] by auto
  have "set (ch_ordered p) = set candidates - blocked"
    using plan(3,4) chain_order_set [of ?prefs ?av] av(1) by (cases primary) auto
  moreover have "set (ch_skipped_unavailable p) = set candidates \<inter> blocked"
    using unique_names_ok [of "[]" candidates] by (auto simp: plan(2))
  moreover have "distinct ?prefs \<longrightarrow> distinct (ch_ordered p)"
    using chain_order_distinct [of ?prefs ?av] av(2) by (cases primary) (simp_all add: plan(3))
  moreover have "case primary of Some x \<Rightarrow> ch_primary p = x | None \<Rightarrow> True"
    using plan(3) by (cases primary) (simp_all add: ch_ordered_def)
  ultimately show ?thesis by blast
qed

theorem plan_covers_available_witness:
  "\<exists>p. plan_chain [''google''] [''openai'', ''google'', ''moonshot''] {''openai''} None None = Inr p \<and>
    set (ch_ordered p) = {''google'', ''moonshot''}"
proof -
  obtain p where p: "plan_chain [''google''] [''openai'', ''google'', ''moonshot''] {''openai''} None None = Inr p"
    by (simp add: plan_chain_def Let_def)
  from plan_covers_available [OF p] p show ?thesis by auto
qed

text \<open>A preference listed twice is attempted twice, although the candidates are deduplicated.\<close>

lemma duplicate_preference_is_attempted_twice:
  "map_sum id ch_ordered (plan_chain [''openai'', ''openai''] [''openai'', ''google''] {} None None)
    = Inr [''openai'', ''openai'', ''google'']"
  by (simp add: plan_chain_def chain_order_def ch_ordered_def)

end
