(* ===== verification/Spec2Isabelle.thy ===== *)
theory Spec2Isabelle
  imports Wiring_Laws Idempotency Response_Caches Fuzzy_Cache Tenant_Guards Queueing
begin

text \<open>
  A model of the Nexus LLM router (\<open>src/\<close>) and its correctness.
\<close>

end
